(* ===== verification/Prelude.thy ===== *)
theory Prelude
  imports Main "HOL-Library.Word" "HOL-Library.Product_Lexorder"
begin

unbundle bit_operations_syntax

text \<open>
  Shared vocabulary of the development: time, machine integers, deadlines, strings and the
  FNV-1a hash, with the lemmas every component uses.

  Time.  A \<open>std::time::Instant\<close> is a number of nanoseconds since an arbitrary origin and a
  \<open>std::time::Duration\<close> is a number of nanoseconds; both are \<open>nat\<close>.  The difference of two
  instants saturates at zero in Rust, as subtraction on \<open>nat\<close> does.

  Strings.  A Rust \<open>str\<close> is its UTF-8 byte sequence, an Isabelle \<open>string\<close> (one \<open>char\<close> is one
  byte), so lengths, prefixes and substring searches count bytes as the source does.
\<close>

section \<open>Collections of hints\<close>

named_theorems health_simps \<open>what each state-changing read leaves of the observable health\<close>
named_theorems frame_simps \<open>fields an operation does not write\<close>

section \<open>Machine integers\<close>

definition u32_max :: nat where "u32_max = 2 ^ 32 - 1"
definition u64_max :: nat where "u64_max = 2 ^ 64 - 1"
definition u128_max :: nat where "u128_max = 2 ^ 128 - 1"

text \<open>Rust's \<open>saturating_add\<close> at a width given by its largest value.\<close>

definition sat_add :: "nat \<Rightarrow> nat \<Rightarrow> nat \<Rightarrow> nat" where
  "sat_add limit a b = min limit (a + b)"

lemma sat_add_le [simp]: "sat_add limit a b \<le> limit"
  by (simp add: sat_add_def)

lemma sat_add_mono: "a \<le> c \<Longrightarrow> b \<le> d \<Longrightarrow> sat_add l a b \<le> sat_add l c d"
  by (auto simp: sat_add_def)

section \<open>Time\<close>

type_synonym instant = nat
type_synonym duration = nat

definition from_secs :: "nat \<Rightarrow> duration" where "from_secs n = n * 1000000000"
definition from_millis :: "nat \<Rightarrow> duration" where "from_millis n = n * 1000000"
definition as_millis :: "duration \<Rightarrow> nat" where "as_millis d = d div 1000000"
definition as_micros :: "duration \<Rightarrow> nat" where "as_micros d = d div 1000"
definition as_secs :: "duration \<Rightarrow> nat" where "as_secs d = d div 1000000000"
definition subsec_nanos :: "duration \<Rightarrow> nat" where "subsec_nanos d = d mod 1000000000"

text \<open>\<open>Duration::MAX\<close>: the largest 64-bit number of seconds and 999999999 nanoseconds.\<close>

definition duration_max :: duration where
  "duration_max = u64_max * 1000000000 + 999999999"

lemma as_millis_from_millis [simp]: "as_millis (from_millis n) = n"
  by (simp add: as_millis_def from_millis_def)

lemma from_millis_mono [simp]: "from_millis a \<le> from_millis b \<longleftrightarrow> a \<le> b"
  by (simp add: from_millis_def)

lemma from_millis_as_millis_le: "from_millis (as_millis d) \<le> d"
  by (simp add: from_millis_def as_millis_def)

lemma as_secs_subsec: "as_secs d * 1000000000 + subsec_nanos d = d"
  by (simp add: as_secs_def subsec_nanos_def)

text \<open>\<open>Duration::clamp\<close> (which panics when the bounds cross; every call below has \<open>lo \<le> hi\<close>).\<close>

definition clamp :: "nat \<Rightarrow> nat \<Rightarrow> nat \<Rightarrow> nat" where
  "clamp lo hi x = (if x < lo then lo else if hi < x then hi else x)"

lemma clamp_bounds: "lo \<le> hi \<Longrightarrow> lo \<le> clamp lo hi x \<and> clamp lo hi x \<le> hi"
  by (auto simp: clamp_def)

lemma clamp_id [simp]: "lo \<le> x \<Longrightarrow> x \<le> hi \<Longrightarrow> clamp lo hi x = x"
  by (auto simp: clamp_def)

lemma clamp_mono: "lo \<le> hi \<Longrightarrow> x \<le> y \<Longrightarrow> clamp lo hi x \<le> clamp lo hi y"
  by (auto simp: clamp_def)

text \<open>The smaller of an optional and a definite wait (\<open>match current \{ Some(c) => c.min(r), None => r \}\<close>).\<close>

definition min_wait :: "duration option \<Rightarrow> duration \<Rightarrow> duration option" where
  "min_wait w r = Some (case w of None \<Rightarrow> r | Some c \<Rightarrow> min c r)"

lemma min_wait_not_None [simp]: "min_wait w r \<noteq> None"
  by (simp add: min_wait_def)

section \<open>Deadlines that expire lazily\<close>

text \<open>\<open>clear\<close> in \<open>router.rs\<close>: an expired deadline is forgotten when it is next looked at.\<close>

definition clear :: "instant option \<Rightarrow> instant \<Rightarrow> instant option" where
  "clear slot now = (case slot of
      None \<Rightarrow> None
    | Some until \<Rightarrow> if until \<le> now then None else Some until)"

text \<open>The time a deadline still has to run, as the code reports it after clearing.\<close>

definition remaining :: "instant option \<Rightarrow> instant \<Rightarrow> duration option" where
  "remaining slot now = map_option (\<lambda>until. until - now) (clear slot now)"

lemma clear_simps [simp]:
  "clear None now = None"
  "clear (Some u) now = (if u \<le> now then None else Some u)"
  by (simp_all add: clear_def)

lemma clear_clear [simp]: "clear (clear s now) now = clear s now"
  by (simp add: clear_def split: option.splits)

lemma clear_later: "now \<le> later \<Longrightarrow> clear (clear s now) later = clear s later"
  by (simp add: clear_def split: option.splits)

lemma clear_eq_None: "clear s now = None \<longleftrightarrow> (\<forall>u. s = Some u \<longrightarrow> u \<le> now)"
  by (auto simp: clear_def split: option.splits)

lemma clear_eq_Some: "clear s now = Some u \<longleftrightarrow> s = Some u \<and> now < u"
  by (auto simp: clear_def split: option.splits)

lemma clear_None_mono: "clear s now = None \<Longrightarrow> now \<le> later \<Longrightarrow> clear s later = None"
  by (auto simp: clear_def split: option.splits if_splits)

lemma remaining_clear [simp]: "remaining (clear s now) now = remaining s now"
  by (simp add: remaining_def)

lemma remaining_eq_None: "remaining s now = None \<longleftrightarrow> clear s now = None"
  by (simp add: remaining_def)

lemma remaining_pos: "remaining s now = Some r \<Longrightarrow> 0 < r"
  by (auto simp: remaining_def clear_eq_Some)

section \<open>Association lists as bounded tables\<close>

text \<open>\<open>HashMap::retain\<close> and \<open>HashMap::remove\<close> on a table kept as an association list.\<close>

definition al_remove :: "'k \<Rightarrow> ('k \<times> 'v) list \<Rightarrow> ('k \<times> 'v) list" where
  "al_remove k al = filter (\<lambda>e. fst e \<noteq> k) al"

definition al_insert :: "'k \<Rightarrow> 'v \<Rightarrow> ('k \<times> 'v) list \<Rightarrow> ('k \<times> 'v) list" where
  "al_insert k v al = (k, v) # al_remove k al"

lemma map_of_filter_eq: "distinct (map fst al) \<Longrightarrow>
  map_of (filter P al) k = (case map_of al k of None \<Rightarrow> None | Some v \<Rightarrow> if P (k, v) then Some v else None)"
  by (induction al) (force simp: map_of_eq_None_iff split: option.splits)+

lemma map_of_al_remove [simp]: "map_of (al_remove k al) = (map_of al)(k := None)"
  by (induction al) (auto simp: al_remove_def)

lemma map_of_al_insert [simp]: "map_of (al_insert k v al) = (map_of al)(k \<mapsto> v)"
  by (simp add: al_insert_def)

lemma distinct_filter_fst: "distinct (map fst al) \<Longrightarrow> distinct (map fst (filter P al))"
  by (induction al) auto

lemma distinct_al_remove: "distinct (map fst al) \<Longrightarrow> distinct (map fst (al_remove k al))"
  unfolding al_remove_def by (rule distinct_filter_fst)

lemma distinct_al_insert: "distinct (map fst al) \<Longrightarrow> distinct (map fst (al_insert k v al))"
  by (auto simp: al_insert_def distinct_al_remove) (auto simp: al_remove_def)

lemma length_al_remove_le: "length (al_remove k al) \<le> length al"
  by (simp add: al_remove_def)

lemma length_al_remove_less: "k \<in> fst ` set al \<Longrightarrow> length (al_remove k al) < length al"
proof -
  assume "k \<in> fst ` set al"
  then obtain e where e: "e \<in> set al" "fst e = k" by auto
  then show ?thesis unfolding al_remove_def by (intro length_filter_less [of e]) auto
qed

lemma al_remove_absent: "k \<notin> fst ` set al \<Longrightarrow> al_remove k al = al"
  unfolding al_remove_def by (induction al) auto

section \<open>Strings\<close>

text \<open>\<open>u8::to_ascii_lowercase\<close> and \<open>str::to_ascii_lowercase\<close>: only the bytes A to Z move.\<close>

definition ascii_lower :: "char \<Rightarrow> char" where
  "ascii_lower c = (let n = (of_char c :: nat) in if 65 \<le> n \<and> n \<le> 90 then char_of (n + 32) else c)"

definition to_ascii_lowercase :: "string \<Rightarrow> string" where
  "to_ascii_lowercase s = map ascii_lower s"

definition is_ascii_digit :: "char \<Rightarrow> bool" where
  "is_ascii_digit c = (let n = (of_char c :: nat) in 48 \<le> n \<and> n \<le> 57)"

text \<open>\<open>u8::is_ascii_whitespace\<close>: space, tab, line feed, form feed, carriage return.\<close>

definition is_ascii_whitespace :: "char \<Rightarrow> bool" where
  "is_ascii_whitespace c = (let n = (of_char c :: nat) in n = 32 \<or> n = 9 \<or> n = 10 \<or> n = 12 \<or> n = 13)"

definition starts_with :: "string \<Rightarrow> string \<Rightarrow> bool" where
  "starts_with p s = (take (length p) s = p)"

definition ends_with :: "string \<Rightarrow> string \<Rightarrow> bool" where
  "ends_with p s = (length p \<le> length s \<and> drop (length s - length p) s = p)"

definition strip_prefix :: "string \<Rightarrow> string \<Rightarrow> string option" where
  "strip_prefix p s = (if starts_with p s then Some (drop (length p) s) else None)"

text \<open>\<open>str::find\<close> for a pattern, cut after the first occurrence; \<open>str::contains\<close>.\<close>

fun after_first :: "string \<Rightarrow> string \<Rightarrow> string option" where
  "after_first p [] = (if p = [] then Some [] else None)"
| "after_first p (c # s) =
     (if starts_with p (c # s) then Some (drop (length p) (c # s)) else after_first p s)"

definition contains_str :: "string \<Rightarrow> string \<Rightarrow> bool" where
  "contains_str p s = (after_first p s \<noteq> None)"

lemma starts_with_append [simp]: "starts_with p (p @ s)"
  by (simp add: starts_with_def)

lemma starts_with_iff: "starts_with p s \<longleftrightarrow> (\<exists>r. s = p @ r)"
  by (metis append_eq_conv_conj starts_with_def)

lemma strip_prefix_append [simp]: "strip_prefix p (p @ s) = Some s"
  by (simp add: strip_prefix_def)

lemma strip_prefix_eq_Some: "strip_prefix p s = Some r \<longleftrightarrow> s = p @ r"
  by (auto simp: strip_prefix_def starts_with_iff)

lemma after_first_Some: "after_first p s = Some r \<Longrightarrow> \<exists>a. s = a @ p @ r"
proof (induction p s rule: after_first.induct)
  case (1 p)
  then show ?case by (auto split: if_splits)
next
  case (2 p c s)
  show ?case
  proof (cases "starts_with p (c # s)")
    case True
    with 2 have "r = drop (length p) (c # s)" by simp
    moreover from True have "c # s = p @ drop (length p) (c # s)"
      by (metis append_take_drop_id starts_with_def)
    ultimately show ?thesis by (intro exI [of _ "[]"]) simp
  next
    case False
    with 2 obtain a where "s = a @ p @ r" by auto
    then show ?thesis by (intro exI [of _ "c # a"]) simp
  qed
qed

lemma after_first_prefix: "starts_with p s \<Longrightarrow> after_first p s \<noteq> None"
  by (cases s) (auto simp: starts_with_def)

lemma after_first_infix: "after_first p (a @ p @ r) \<noteq> None"
proof (induction a)
  case Nil
  show ?case using after_first_prefix [of p "p @ r"] by simp
next
  case (Cons c a)
  then show ?case by simp
qed

lemma contains_str_iff: "contains_str p s \<longleftrightarrow> (\<exists>a b. s = a @ p @ b)"
proof
  assume "contains_str p s"
  then obtain r where r: "after_first p s = Some r" by (auto simp: contains_str_def)
  from after_first_Some [OF r] obtain a where "s = a @ p @ r" ..
  then show "\<exists>a b. s = a @ p @ b" by (intro exI)
next
  assume "\<exists>a b. s = a @ p @ b"
  then obtain a b where s: "s = a @ p @ b" by blast
  show "contains_str p s" unfolding contains_str_def s by (rule after_first_infix)
qed

lemma after_first_length: "after_first p s = Some r \<Longrightarrow> length r \<le> length s"
  by (drule after_first_Some) auto

text \<open>\<open>[String]::join\<close>.\<close>

fun join_with :: "string \<Rightarrow> string list \<Rightarrow> string" where
  "join_with sep [] = []"
| "join_with sep [w] = w"
| "join_with sep (w # v # ws) = w @ sep @ join_with sep (v # ws)"

text \<open>\<open>to_string\<close> of an unsigned integer.\<close>

function decimal :: "nat \<Rightarrow> string" where
  "decimal n = (if n < 10 then [char_of (48 + n)] else decimal (n div 10) @ [char_of (48 + n mod 10)])"
  by pat_completeness auto
termination by (relation "measure id") auto

declare decimal.simps [simp del]

section \<open>The FNV-1a hash\<close>

text \<open>\<open>hash_name\<close> of \<open>router.rs\<close> and \<open>fnv1a64\<close> of \<open>server.rs\<close>: the same loop over the bytes.\<close>

definition fnv_step :: "64 word \<Rightarrow> char \<Rightarrow> 64 word" where
  "fnv_step hash byte = (hash XOR of_nat (of_char byte)) * 0x100000001b3"

definition hash_name :: "string \<Rightarrow> 64 word" where
  "hash_name value = fold (\<lambda>byte hash. fnv_step hash byte) value 0xcbf29ce484222325"

section \<open>Transition systems\<close>

text \<open>What a step keeps, every run keeps.\<close>

locale preserved =
  fixes step :: "'s \<Rightarrow> 's \<Rightarrow> bool" and inv :: "'s \<Rightarrow> bool"
  assumes step_inv: "step s s' \<Longrightarrow> inv s \<Longrightarrow> inv s'"
begin

lemma run_inv: "step\<^sup>*\<^sup>* s s' \<Longrightarrow> inv s \<Longrightarrow> inv s'"
  by (induction rule: rtranclp_induct) (auto intro: step_inv)

end

end
