(* ===== verification/Utf8.thy ===== *)
theory Utf8
  imports Prelude
begin

text \<open>
  UTF-8 as the program sees it: splitting a \<open>str\<close> into characters, Unicode white space,
  \<open>trim\<close> and \<open>split_whitespace\<close>, and \<open>String::from_utf8_lossy\<close>.  A Rust \<open>str\<close> is always valid
  UTF-8, so splitting at the lead bytes is splitting into Unicode scalar values.
\<close>

section \<open>Characters of a string\<close>

definition byte :: "char \<Rightarrow> nat" where "byte c = of_char c"

text \<open>Bytes in the encoding that a lead byte announces.\<close>

definition utf8_len :: "char \<Rightarrow> nat" where
  "utf8_len c = (if byte c < 192 then 1 else if byte c < 224 then 2 else if byte c < 240 then 3 else 4)"

fun utf8_chars :: "string \<Rightarrow> string list" where
  "utf8_chars [] = []"
| "utf8_chars (c # s) = (c # take (utf8_len c - 1) s) # utf8_chars (drop (utf8_len c - 1) s)"

lemma concat_utf8_chars [simp]: "concat (utf8_chars s) = s"
  by (induction s rule: utf8_chars.induct) auto

definition is_ascii :: "string \<Rightarrow> bool" where
  "is_ascii s = list_all (\<lambda>c. byte c < 128) s"

lemma utf8_chars_ascii: "is_ascii s \<Longrightarrow> utf8_chars s = map (\<lambda>c. [c]) s"
  by (induction s) (auto simp: is_ascii_def utf8_len_def)

text \<open>\<open>char::is_whitespace\<close> (the Unicode property White_Space) on one encoded character.\<close>

definition is_whitespace :: "string \<Rightarrow> bool" where
  "is_whitespace ch = (case map byte ch of
      [a] \<Rightarrow> (9 \<le> a \<and> a \<le> 13) \<or> a = 32
    | [a, b] \<Rightarrow> a = 0xC2 \<and> (b = 0x85 \<or> b = 0xA0)
    | [a, b, c] \<Rightarrow>
        (a = 0xE1 \<and> b = 0x9A \<and> c = 0x80)
      \<or> (a = 0xE2 \<and> b = 0x80 \<and> ((0x80 \<le> c \<and> c \<le> 0x8A) \<or> c = 0xA8 \<or> c = 0xA9 \<or> c = 0xAF))
      \<or> (a = 0xE2 \<and> b = 0x81 \<and> c = 0x9F)
      \<or> (a = 0xE3 \<and> b = 0x80 \<and> c = 0x80)
    | _ \<Rightarrow> False)"

definition trim_start :: "string \<Rightarrow> string" where
  "trim_start s = concat (dropWhile is_whitespace (utf8_chars s))"

definition trim :: "string \<Rightarrow> string" where
  "trim s = concat (rev (dropWhile is_whitespace (rev (dropWhile is_whitespace (utf8_chars s)))))"

lemma trim_Nil [simp]: "trim [] = []"
  by (simp add: trim_def)

lemma concat_utf8_chars_nonempty: "c \<in> set (utf8_chars s) \<Longrightarrow> c \<noteq> []"
  by (induction s rule: utf8_chars.induct) auto

text \<open>A trimmed string is empty exactly when it holds nothing but white space.\<close>

lemma trim_eq_Nil: "trim s = [] \<longleftrightarrow> list_all is_whitespace (utf8_chars s)"
proof -
  have nn: "\<forall>c \<in> set (utf8_chars s). c \<noteq> []" by (simp add: concat_utf8_chars_nonempty)
  let ?d = "dropWhile is_whitespace (utf8_chars s)"
  have sub: "set (rev (dropWhile is_whitespace (rev ?d))) \<subseteq> set (utf8_chars s)"
    by (auto dest!: set_dropWhileD)
  have "trim s = [] \<longleftrightarrow> rev (dropWhile is_whitespace (rev ?d)) = []"
  proof -
    have "\<And>xs :: string list. \<forall>x \<in> set xs. x \<noteq> [] \<Longrightarrow> concat xs = [] \<longleftrightarrow> xs = []"
      by (case_tac xs) auto
    then show ?thesis unfolding trim_def using nn sub by blast
  qed
  also have "\<dots> \<longleftrightarrow> list_all is_whitespace ?d" by (auto simp: list_all_iff dropWhile_eq_Nil_conv)
  also have "\<dots> \<longleftrightarrow> list_all is_whitespace (utf8_chars s)"
    by (metis dropWhile_eq_Nil_conv hd_dropWhile hd_in_set list_all_iff set_dropWhileD)
  finally show ?thesis .
qed

section \<open>Words\<close>

text \<open>\<open>str::split_whitespace\<close>: the maximal runs of characters that are not white space.\<close>

function words_of :: "string list \<Rightarrow> string list" where
  "words_of cs = (case dropWhile is_whitespace cs of
      [] \<Rightarrow> []
    | c # r \<Rightarrow> concat (takeWhile (\<lambda>x. \<not> is_whitespace x) (c # r))
               # words_of (dropWhile (\<lambda>x. \<not> is_whitespace x) (c # r)))"
  by pat_completeness auto
termination
proof (relation "measure length")
  fix cs c r
  assume d: "dropWhile is_whitespace cs = c # r"
  then have "\<not> is_whitespace c" using hd_dropWhile [of is_whitespace cs] by simp
  moreover have "length (c # r) \<le> length cs" using length_dropWhile_le [of is_whitespace cs] d by simp
  moreover have "length (dropWhile (\<lambda>x. \<not> is_whitespace x) r) \<le> length r" by (rule length_dropWhile_le)
  ultimately show "(dropWhile (\<lambda>x. \<not> is_whitespace x) (c # r), cs) \<in> measure length" by simp
qed simp

declare words_of.simps [simp del]

definition split_whitespace :: "string \<Rightarrow> string list" where
  "split_whitespace s = words_of (utf8_chars s)"

section \<open>Lossy decoding\<close>

text \<open>
  \<open>String::from_utf8_lossy\<close>: a maximal prefix of an ill-formed sequence becomes one
  replacement character (\<open>EF BF BD\<close>).  \<open>utf8_second_ok\<close> is the range the second byte must lie
  in for each lead byte (no overlong forms, no surrogates, nothing beyond U+10FFFF).
\<close>

definition replacement :: string where
  "replacement = map char_of [0xEF, 0xBF, 0xBD :: nat]"

definition is_cont :: "char \<Rightarrow> bool" where
  "is_cont c = (128 \<le> byte c \<and> byte c < 192)"

definition utf8_second_ok :: "char \<Rightarrow> char \<Rightarrow> bool" where
  "utf8_second_ok c d = (let a = byte c; b = byte d in
      if a = 0xE0 then 0xA0 \<le> b \<and> b \<le> 0xBF
      else if a = 0xED then 0x80 \<le> b \<and> b \<le> 0x9F
      else if a = 0xF0 then 0x90 \<le> b \<and> b \<le> 0xBF
      else if a = 0xF4 then 0x80 \<le> b \<and> b \<le> 0x8F
      else 0x80 \<le> b \<and> b \<le> 0xBF)"

text \<open>How many bytes to consume at the front, and whether they form a character.\<close>

definition utf8_front :: "char \<Rightarrow> string \<Rightarrow> nat \<times> bool" where
  "utf8_front c s = (let a = byte c in
      if a < 128 then (1, True)
      else if a < 0xC2 \<or> 0xF4 < a then (1, False)
      else (case s of
          [] \<Rightarrow> (1, False)
        | d # s' \<Rightarrow>
            if \<not> utf8_second_ok c d then (1, False)
            else if a < 0xE0 then (2, True)
            else (case s' of
                [] \<Rightarrow> (2, False)
              | e # s'' \<Rightarrow>
                  if \<not> is_cont e then (2, False)
                  else if a < 0xF0 then (3, True)
                  else (case s'' of
                      [] \<Rightarrow> (3, False)
                    | f # _ \<Rightarrow> if is_cont f then (4, True) else (3, False)))))"

function from_utf8_lossy :: "string \<Rightarrow> string" where
  "from_utf8_lossy [] = []"
| "from_utf8_lossy (c # s) = (case utf8_front c s of (n, ok) \<Rightarrow>
     (if ok then take n (c # s) else replacement) @ from_utf8_lossy (drop (n - 1) s))"
  by pat_completeness auto
termination
  by (relation "measure length") auto

lemma from_utf8_lossy_ascii_Cons [simp]:
  "byte c < 128 \<Longrightarrow> from_utf8_lossy (c # s) = c # from_utf8_lossy s"
  by (simp add: utf8_front_def)

lemma from_utf8_lossy_ascii: "is_ascii s \<Longrightarrow> from_utf8_lossy s = s"
  by (induction s) (auto simp: is_ascii_def utf8_front_def)

end
