(* ===== verification/Config.thy ===== *)
theory Config
  imports Utf8
begin

text \<open>
  \<open>src/config.rs\<close>: the configuration structures, their documented defaults, the built-in
  routing profiles, startup validation, and what the rest of the program reads from a
  configuration.  A \<open>BTreeMap\<close> is an association list in key order.  Parsing of socket
  addresses, URLs and tracing filters belongs to other crates: their verdicts are the fields of
  \<^theory_text>\<open>parsers\<close>, a parameter of validation.
\<close>

section \<open>Structures and defaults\<close>

record server_config =
  server_bind :: string
  server_api_key :: string

record upstream_config =
  base_url :: string
  messages_path :: string
  anthropic_version :: string
  timeout_secs :: nat
  connect_timeout_secs :: nat
  first_byte_timeout_secs :: nat

record sensenova_key_config =
  key_name :: string
  key_secret :: string
  key_enabled :: bool
  key_quota_group :: string

record models_config =
  models_default :: string
  map_unknown_to_default :: bool
  aliases :: "(string \<times> string) list"

record tier_config =
  tier_models :: "string list"

record profile_config =
  latency_optimized :: bool
  allow_lower_tier_on_unavailable :: bool
  tiers :: "tier_config list"

type_synonym profiles = "(string \<times> profile_config) list"

record routing_config =
  cfg_max_route_attempts :: nat
  cfg_soft_affinity_secs :: nat
  cfg_max_affinity_entries :: nat
  cfg_same_route_429_retries :: nat
  cfg_route_cooldown_initial_secs :: nat
  cfg_route_cooldown_max_secs :: nat
  cfg_model_trip_distinct_groups :: nat
  cfg_model_trip_window_secs :: nat
  cfg_model_open_secs :: nat
  cfg_retry_after_max_secs :: nat
  cfg_max_model_cooldown_secs :: nat
  cfg_model_missing_distinct_groups :: nat
  cfg_model_missing_window_secs :: nat
  cfg_model_missing_cooldown_secs :: nat
  cfg_profiles :: profiles

record retry_config =
  max_attempts :: nat
  max_same_key_retries :: nat
  backoff_initial_ms :: nat
  backoff_max_ms :: nat
  retry_429_with_short_retry_after :: bool
  max_retry_after_secs_for_retry :: nat
  rate_limit_fallback_initial_secs :: nat
  rate_limit_fallback_max_secs :: nat

record concurrency_config =
  conc_initial :: nat
  conc_minimum :: nat
  conc_maximum :: nat
  conc_queue_capacity :: nat
  conc_queue_timeout_secs :: nat

record circuit_config =
  cc_overload_threshold :: nat
  cc_overload_window_secs :: nat
  cc_overload_open_secs :: nat
  cc_max_quota_cooldown_secs :: nat

datatype log_format = Pretty | Json

record runtime_config =
  max_request_bytes :: nat
  log_level :: string
  log_format :: log_format
  stream_ping_secs :: nat
  shutdown_timeout_secs :: nat

record config =
  server :: server_config
  upstream :: upstream_config
  sensenova_api_keys :: "sensenova_key_config list"
  models :: models_config
  routing :: routing_config
  retry :: retry_config
  concurrency :: concurrency_config
  circuit_cfg :: circuit_config
  runtime :: runtime_config

definition max_upstream_response_bytes :: nat where "max_upstream_response_bytes = 16 * 1024 * 1024"
definition max_error_body_bytes :: nat where "max_error_body_bytes = 64 * 1024"

definition hard_profile :: string where "hard_profile = ''claude-coding-hard''"
definition fast_profile :: string where "fast_profile = ''claude-coding-fast''"

definition builtin_profiles :: profiles where
  "builtin_profiles =
    [(fast_profile,
      \<lparr>latency_optimized = True, allow_lower_tier_on_unavailable = False,
       tiers = [\<lparr>tier_models = [''deepseek-v4-flash'', ''sensenova-6.8-flash-lite'']\<rparr>]\<rparr>),
     (hard_profile,
      \<lparr>latency_optimized = False, allow_lower_tier_on_unavailable = True,
       tiers = [\<lparr>tier_models = [''glm-5.2'', ''deepseek-v4-pro'']\<rparr>,
                \<lparr>tier_models = [''kimi-k3'']\<rparr>]\<rparr>)]"

definition default_server :: server_config where
  "default_server = \<lparr>server_bind = ''127.0.0.1:8789'', server_api_key = []\<rparr>"

definition default_upstream :: upstream_config where
  "default_upstream = \<lparr>base_url = ''https://token.sensenova.cn'', messages_path = ''/v1/messages'',
     anthropic_version = ''2023-06-01'', timeout_secs = 600, connect_timeout_secs = 20,
     first_byte_timeout_secs = 120\<rparr>"

definition default_key :: sensenova_key_config where
  "default_key = \<lparr>key_name = [], key_secret = [], key_enabled = True, key_quota_group = ''default''\<rparr>"

definition default_models :: models_config where
  "default_models = \<lparr>models_default = ''sensenova-6.8-flash-lite'', map_unknown_to_default = True,
     aliases = []\<rparr>"

definition default_routing :: routing_config where
  "default_routing = \<lparr>cfg_max_route_attempts = 4, cfg_soft_affinity_secs = 300,
     cfg_max_affinity_entries = 4096, cfg_same_route_429_retries = 0,
     cfg_route_cooldown_initial_secs = 10, cfg_route_cooldown_max_secs = 120,
     cfg_model_trip_distinct_groups = 2, cfg_model_trip_window_secs = 20,
     cfg_model_open_secs = 30, cfg_retry_after_max_secs = 120,
     cfg_max_model_cooldown_secs = 86400, cfg_model_missing_distinct_groups = 2,
     cfg_model_missing_window_secs = 300, cfg_model_missing_cooldown_secs = 3600,
     cfg_profiles = builtin_profiles\<rparr>"

definition default_retry :: retry_config where
  "default_retry = \<lparr>max_attempts = 4, max_same_key_retries = 1, backoff_initial_ms = 1000,
     backoff_max_ms = 5000, retry_429_with_short_retry_after = True,
     max_retry_after_secs_for_retry = 10, rate_limit_fallback_initial_secs = 5,
     rate_limit_fallback_max_secs = 60\<rparr>"

definition default_concurrency :: concurrency_config where
  "default_concurrency = \<lparr>conc_initial = 2, conc_minimum = 1, conc_maximum = 8,
     conc_queue_capacity = 32, conc_queue_timeout_secs = 120\<rparr>"

definition default_circuit :: circuit_config where
  "default_circuit = \<lparr>cc_overload_threshold = 5, cc_overload_window_secs = 60,
     cc_overload_open_secs = 30, cc_max_quota_cooldown_secs = 86400\<rparr>"

definition default_runtime :: runtime_config where
  "default_runtime = \<lparr>max_request_bytes = 32 * 1024 * 1024, log_level = ''info'',
     log_format = Pretty, stream_ping_secs = 15, shutdown_timeout_secs = 30\<rparr>"

definition default_config :: config where
  "default_config = \<lparr>server = default_server, upstream = default_upstream,
     sensenova_api_keys = [], models = default_models, routing = default_routing,
     retry = default_retry, concurrency = default_concurrency, circuit_cfg = default_circuit,
     runtime = default_runtime\<rparr>"

section \<open>Profiles written with the deprecated field name\<close>

text \<open>
  The hand-written \<open>Deserialize\<close> of a profile: the deprecated \<open>allow_cross_tier_fallback\<close> is
  an alias, naming both is an error, naming neither means false.
\<close>

record raw_profile =
  raw_latency_optimized :: bool
  raw_allow_lower_tier_on_unavailable :: "bool option"
  raw_allow_cross_tier_fallback :: "bool option"
  raw_tiers :: "tier_config list"

definition profile_of_raw :: "raw_profile \<Rightarrow> profile_config option" where
  "profile_of_raw raw =
     (if raw_allow_lower_tier_on_unavailable raw \<noteq> None \<and> raw_allow_cross_tier_fallback raw \<noteq> None
      then None
      else Some \<lparr>latency_optimized = raw_latency_optimized raw,
             allow_lower_tier_on_unavailable =
               (case raw_allow_lower_tier_on_unavailable raw of
                  Some b \<Rightarrow> b
                | None \<Rightarrow> (case raw_allow_cross_tier_fallback raw of Some b \<Rightarrow> b | None \<Rightarrow> False)),
             tiers = raw_tiers raw\<rparr>)"

section \<open>Validation\<close>

text \<open>
  One constructor per message of \<open>bail!\<close>, with the values the message prints: indices, profile
  names and model names, never a key.
\<close>

datatype config_error =
    BindNotASocketAddress
  | ServerKeyEmpty
  | NotHeaderSafe string
  | BaseUrlInvalid | BaseUrlNotHttp | BaseUrlQueryOrFragment | BaseUrlCredentials
  | MessagesPathInvalid | AnthropicVersionEmpty | TimeoutZero
  | NoKeys | KeyNameEmpty nat | KeySecretEmpty nat | QuotaGroupEmpty nat | KeyNameDuplicate nat
  | NoEnabledKey
  | DefaultModelEmpty | AliasEmpty
  | MaxAttemptsRange | SameKeyRetriesRange | RateLimitFallbackRange | BackoffZero | BackoffOrder
  | ConcurrencyRange nat nat nat | QueueZero
  | CircuitZero | RuntimeZero | LogLevelInvalid
  | RouteAttemptsRange | AffinitySecsRange | AffinityEntriesRange | SameRouteRange
  | RouteCooldownRange | TripGroupsRange | TripWindowRange | OpenSecsRange | RetryAfterRange
  | ModelCooldownRange | MissingGroupsRange | MissingWindowRange | MissingCooldownRange
  | ProfileNameEmpty | TiersEmpty string | LowerTierMeaningless string
  | TierModelsEmpty string nat | TierModelEmpty string nat | ModelInTwoTiers string string

text \<open>
  What other crates say about a configuration's strings: \<open>url\<close> is the scheme, host presence,
  query or fragment presence, and credential presence of a parsed URL.
\<close>

record parsed_url =
  url_scheme :: string
  url_has_host :: bool
  url_has_query_or_fragment :: bool
  url_has_credentials :: bool

record parsers =
  socket_addr_is_loopback :: "string \<Rightarrow> bool option"
  url_parse :: "string \<Rightarrow> parsed_url option"
  env_filter_ok :: "string \<Rightarrow> bool"

text \<open>Rust's \<open>?\<close>: the first error wins.\<close>

definition first_error :: "(bool \<times> config_error) list \<Rightarrow> config_error option" where
  "first_error checks = map_option snd (find fst checks)"

definition orelse :: "'a option \<Rightarrow> 'a option \<Rightarrow> 'a option" where
  "orelse a b = (case a of None \<Rightarrow> b | Some x \<Rightarrow> Some x)"

definition blank :: "string \<Rightarrow> bool" where "blank s = (trim s = [])"

text \<open>\<open>validate_header_safe\<close>: no control character; every control character is one byte.\<close>

definition header_safe :: "string \<Rightarrow> bool" where
  "header_safe value = list_all (\<lambda>c. \<not> (byte c < 0x20 \<or> byte c = 0x7f)) value"

definition validate_server :: "parsers \<Rightarrow> server_config \<Rightarrow> config_error option" where
  "validate_server ps s = first_error
     [(socket_addr_is_loopback ps (server_bind s) = None, BindNotASocketAddress),
      (blank (server_api_key s), ServerKeyEmpty),
      (\<not> header_safe (server_api_key s), NotHeaderSafe ''server.api_key'')]"

definition validate_upstream :: "parsers \<Rightarrow> upstream_config \<Rightarrow> config_error option" where
  "validate_upstream ps u = (case url_parse ps (base_url u) of
      None \<Rightarrow> Some BaseUrlInvalid
    | Some url \<Rightarrow> first_error
       [(\<not> (url_scheme url = ''http'' \<or> url_scheme url = ''https'') \<or> \<not> url_has_host url, BaseUrlNotHttp),
        (url_has_query_or_fragment url, BaseUrlQueryOrFragment),
        (url_has_credentials url, BaseUrlCredentials),
        (\<not> starts_with ''/'' (messages_path u) \<or> contains_str ''?'' (messages_path u)
           \<or> contains_str ''#'' (messages_path u), MessagesPathInvalid),
        (blank (anthropic_version u), AnthropicVersionEmpty),
        (timeout_secs u = 0 \<or> connect_timeout_secs u = 0 \<or> first_byte_timeout_secs u = 0, TimeoutZero)])"

fun validate_keys :: "nat \<Rightarrow> string list \<Rightarrow> sensenova_key_config list \<Rightarrow> config_error option" where
  "validate_keys index names [] = None"
| "validate_keys index names (key # ks) =
     (if blank (key_name key) then Some (KeyNameEmpty index)
      else if blank (key_secret key) then Some (KeySecretEmpty index)
      else if \<not> header_safe (key_secret key) then Some (NotHeaderSafe ''sensenova_api_keys entry'')
      else if blank (key_quota_group key) then Some (QuotaGroupEmpty index)
      else if key_name key \<in> set names then Some (KeyNameDuplicate index)
      else validate_keys (Suc index) (key_name key # names) ks)"

definition validate_retry :: "retry_config \<Rightarrow> config_error option" where
  "validate_retry r = first_error
     [(max_attempts r = 0 \<or> 4 < max_attempts r, MaxAttemptsRange),
      (3 < max_same_key_retries r, SameKeyRetriesRange),
      (rate_limit_fallback_initial_secs r = 0 \<or> rate_limit_fallback_max_secs r = 0
         \<or> rate_limit_fallback_max_secs r < rate_limit_fallback_initial_secs r
         \<or> 3600 < rate_limit_fallback_max_secs r, RateLimitFallbackRange),
      (backoff_initial_ms r = 0 \<or> backoff_max_ms r = 0, BackoffZero),
      (backoff_max_ms r < backoff_initial_ms r, BackoffOrder)]"

definition validate_concurrency :: "concurrency_config \<Rightarrow> config_error option" where
  "validate_concurrency c = first_error
     [(conc_minimum c = 0 \<or> conc_initial c < conc_minimum c \<or> conc_maximum c < conc_initial c
         \<or> 64 < conc_maximum c,
       ConcurrencyRange (conc_minimum c) (conc_initial c) (conc_maximum c)),
      (conc_queue_capacity c = 0 \<or> conc_queue_timeout_secs c = 0, QueueZero)]"

text \<open>The scalar checks of \<open>validate_routing\<close>.\<close>

definition validate_routing_scalars :: "routing_config \<Rightarrow> config_error option" where
  "validate_routing_scalars r = first_error
     [(cfg_max_route_attempts r = 0 \<or> 8 < cfg_max_route_attempts r, RouteAttemptsRange),
      (86400 < cfg_soft_affinity_secs r, AffinitySecsRange),
      (cfg_max_affinity_entries r = 0 \<or> 1000000 < cfg_max_affinity_entries r, AffinityEntriesRange),
      (3 < cfg_same_route_429_retries r, SameRouteRange),
      (cfg_route_cooldown_initial_secs r = 0 \<or> cfg_route_cooldown_max_secs r = 0
         \<or> cfg_route_cooldown_max_secs r < cfg_route_cooldown_initial_secs r
         \<or> 3600 < cfg_route_cooldown_max_secs r, RouteCooldownRange),
      (cfg_model_trip_distinct_groups r = 0 \<or> 16 < cfg_model_trip_distinct_groups r, TripGroupsRange),
      (cfg_model_trip_window_secs r = 0 \<or> 3600 < cfg_model_trip_window_secs r, TripWindowRange),
      (cfg_model_open_secs r = 0 \<or> 3600 < cfg_model_open_secs r, OpenSecsRange),
      (cfg_retry_after_max_secs r = 0 \<or> 3600 < cfg_retry_after_max_secs r, RetryAfterRange),
      (cfg_max_model_cooldown_secs r = 0 \<or> 366 * 24 * 3600 < cfg_max_model_cooldown_secs r, ModelCooldownRange),
      (cfg_model_missing_distinct_groups r = 0 \<or> 16 < cfg_model_missing_distinct_groups r, MissingGroupsRange),
      (cfg_model_missing_window_secs r = 0 \<or> 86400 < cfg_model_missing_window_secs r, MissingWindowRange),
      (cfg_model_missing_cooldown_secs r = 0 \<or> 366 * 24 * 3600 < cfg_model_missing_cooldown_secs r, MissingCooldownRange)]"

text \<open>The models of one tier, against the models seen so far in the profile.\<close>

fun validate_models :: "string \<Rightarrow> nat \<Rightarrow> string list \<Rightarrow> string list \<Rightarrow> config_error + string list" where
  "validate_models name index seen [] = Inr seen"
| "validate_models name index seen (model # ms) =
     (if blank model then Inl (TierModelEmpty name index)
      else if model \<in> set seen then Inl (ModelInTwoTiers name model)
      else validate_models name index (model # seen) ms)"

fun validate_tiers :: "string \<Rightarrow> nat \<Rightarrow> string list \<Rightarrow> tier_config list \<Rightarrow> config_error option" where
  "validate_tiers name index seen [] = None"
| "validate_tiers name index seen (tier # ts) =
     (if tier_models tier = [] then Some (TierModelsEmpty name index)
      else (case validate_models name index seen (tier_models tier) of
              Inl e \<Rightarrow> Some e
            | Inr seen' \<Rightarrow> validate_tiers name (Suc index) seen' ts))"

definition validate_profile :: "string \<Rightarrow> profile_config \<Rightarrow> config_error option" where
  "validate_profile name p =
     (if blank name then Some ProfileNameEmpty
      else if tiers p = [] then Some (TiersEmpty name)
      else if allow_lower_tier_on_unavailable p \<and> length (tiers p) < 2 then Some (LowerTierMeaningless name)
      else validate_tiers name 0 [] (tiers p))"

fun validate_profiles :: "profiles \<Rightarrow> config_error option" where
  "validate_profiles [] = None"
| "validate_profiles ((name, p) # ps) = orelse (validate_profile name p) (validate_profiles ps)"

definition validate_routing :: "routing_config \<Rightarrow> config_error option" where
  "validate_routing r = orelse (validate_routing_scalars r) (validate_profiles (cfg_profiles r))"

definition validate :: "parsers \<Rightarrow> config \<Rightarrow> config_error option" where
  "validate ps c =
     orelse (validate_server ps (server c))
    (orelse (validate_upstream ps (upstream c))
    (orelse (if sensenova_api_keys c = [] then Some NoKeys else None)
    (orelse (validate_keys 0 [] (sensenova_api_keys c))
    (orelse (if \<not> list_ex key_enabled (sensenova_api_keys c) then Some NoEnabledKey else None)
    (orelse (first_error
       [(blank (models_default (models c)), DefaultModelEmpty),
        (list_ex (\<lambda>(alias, model). blank alias \<or> blank model) (aliases (models c)), AliasEmpty)])
    (orelse (validate_retry (retry c))
    (orelse (validate_concurrency (concurrency c))
    (orelse (first_error
       [(cc_overload_threshold (circuit_cfg c) = 0 \<or> cc_overload_window_secs (circuit_cfg c) = 0
          \<or> cc_overload_open_secs (circuit_cfg c) = 0 \<or> cc_max_quota_cooldown_secs (circuit_cfg c) = 0,
         CircuitZero),
        (max_request_bytes (runtime c) = 0 \<or> shutdown_timeout_secs (runtime c) = 0, RuntimeZero)])
    (orelse (validate_routing (routing c))
            (if \<not> env_filter_ok ps (log_level (runtime c)) then Some LogLevelInvalid else None))))))))))"

section \<open>What the program reads from a configuration\<close>

definition profiles_of :: "config \<Rightarrow> profiles" where
  "profiles_of c = (if cfg_profiles (routing c) = [] then builtin_profiles else cfg_profiles (routing c))"

definition default_profile :: "config \<Rightarrow> string" where
  "default_profile c = hard_profile"

definition binds_loopback :: "parsers \<Rightarrow> config \<Rightarrow> bool" where
  "binds_loopback ps c = (case socket_addr_is_loopback ps (server_bind (server c)) of
      Some loopback \<Rightarrow> loopback | None \<Rightarrow> False)"

text \<open>\<open>messages_url\<close> before it is parsed: the base without trailing slashes, then the path.\<close>

definition messages_url_text :: "config \<Rightarrow> string" where
  "messages_url_text c =
     rev (dropWhile (\<lambda>ch. ch = CHR ''/'') (rev (base_url (upstream c)))) @ messages_path (upstream c)"

end
