(* ===== verification/Float64.thy ===== *)
theory Float64
  imports Prelude Complex_Main "HOL-Library.Log_Nat"
begin

text \<open>
  The part of \<open>f64\<close> arithmetic the router uses: non-negative finite values, each operation
  rounding to nearest, ties to even, with a 53-bit significand (IEEE 754 binary64).  A value is
  the rational number it denotes.  Every value the router computes (jitter factors, latencies in
  milliseconds, cooldowns up to a day) lies far from the subnormal range and from overflow, so
  the exponent is not bounded here.
\<close>

section \<open>Rounding\<close>

type_synonym f64 = rat

text \<open>The exponent of the leading bit: \<open>2 powi expo x \<le> x < 2 powi (expo x + 1)\<close>.\<close>

definition expo :: "rat \<Rightarrow> int" where
  "expo x = (let (p, q) = quotient_of x; e = bitlen p - bitlen q
             in if 2 powi e \<le> x then e else e - 1)"

text \<open>Round to an integer, ties to even.\<close>

definition round_even :: "rat \<Rightarrow> int" where
  "round_even x = (let f = \<lfloor>x\<rfloor>; d = x - of_int f
     in if d < 1/2 then f else if 1/2 < d then f + 1 else if even f then f else f + 1)"

definition f64_round :: "rat \<Rightarrow> f64" where
  "f64_round x = (if x \<le> 0 then 0
     else let e = expo x - 52 in of_int (round_even (x * 2 powi (- e))) * 2 powi e)"

definition f64_add :: "f64 \<Rightarrow> f64 \<Rightarrow> f64" where "f64_add a b = f64_round (a + b)"
definition f64_mul :: "f64 \<Rightarrow> f64 \<Rightarrow> f64" where "f64_mul a b = f64_round (a * b)"
definition f64_div :: "f64 \<Rightarrow> f64 \<Rightarrow> f64" where "f64_div a b = f64_round (a / b)"

text \<open>\<open>n as f64\<close> and \<open>x as u64\<close> (truncation) for values within the target's range.\<close>

definition f64_of_nat :: "nat \<Rightarrow> f64" where "f64_of_nat n = f64_round (of_nat n)"
definition f64_to_nat :: "f64 \<Rightarrow> nat" where "f64_to_nat x = nat \<lfloor>x\<rfloor>"

text \<open>\<open>f64::clamp\<close>.\<close>

definition f64_clamp :: "f64 \<Rightarrow> f64 \<Rightarrow> f64 \<Rightarrow> f64" where
  "f64_clamp lo hi x = (if x < lo then lo else if hi < x then hi else x)"

text \<open>\<open>Duration::as_secs_f64\<close>: seconds plus nanoseconds over \<open>1e9\<close>.\<close>

definition as_secs_f64 :: "duration \<Rightarrow> f64" where
  "as_secs_f64 d = f64_add (f64_of_nat (as_secs d))
                           (f64_div (f64_of_nat (subsec_nanos d)) (f64_of_nat 1000000000))"

section \<open>Rounding is monotone and exact on small integers\<close>

lemma round_even_of_int [simp]: "round_even (of_int n) = n"
  by (simp add: round_even_def)

lemma round_even_bounds: "of_int (round_even x) - 1/2 \<le> x \<and> x \<le> of_int (round_even x) + 1/2"
proof -
  have f: "of_int \<lfloor>x\<rfloor> \<le> x" "x < of_int \<lfloor>x\<rfloor> + 1" by linarith+
  then show ?thesis by (simp add: round_even_def Let_def) linarith
qed

lemma round_even_mono: "x \<le> y \<Longrightarrow> round_even x \<le> round_even y"
proof -
  assume le: "x \<le> y"
  then have fl: "\<lfloor>x\<rfloor> \<le> \<lfloor>y\<rfloor>" by (rule floor_mono)
  show ?thesis
  proof (cases "\<lfloor>x\<rfloor> = \<lfloor>y\<rfloor>")
    case True
    with le show ?thesis by (simp add: round_even_def Let_def)
  next
    case False
    with fl have "\<lfloor>x\<rfloor> + 1 \<le> \<lfloor>y\<rfloor>" by linarith
    moreover have "round_even x \<le> \<lfloor>x\<rfloor> + 1" by (simp add: round_even_def Let_def)
    moreover have "\<lfloor>y\<rfloor> \<le> round_even y" by (simp add: round_even_def Let_def)
    ultimately show ?thesis by linarith
  qed
qed

lemma bitlen_bound: "0 < p \<Longrightarrow> 2 powi (bitlen p - 1) \<le> (of_int p :: rat) \<and> (of_int p :: rat) < 2 powi bitlen p"
proof -
  assume p: "0 < (p :: int)"
  have b: "2 ^ nat (bitlen p - 1) \<le> p \<and> p < 2 ^ nat (bitlen p)" by (rule bitlen_bounds [OF p])
  have pos: "0 \<le> bitlen p - 1" using p bitlen_ge_iff_power [of 1 p] by simp
  have "(2 :: rat) ^ nat (bitlen p - 1) \<le> of_int p"
    using b of_int_le_iff [where ?'a = rat, of "2 ^ nat (bitlen p - 1)" p] by simp
  moreover have "of_int p < (2 :: rat) ^ nat (bitlen p)"
    using b of_int_less_iff [where ?'a = rat, of p "2 ^ nat (bitlen p)"] by simp
  ultimately show ?thesis using pos by (simp add: power_int_def)
qed

lemma expo_bounds:
  assumes "0 < x"
  shows "2 powi expo x \<le> x" and "x < 2 powi (expo x + 1)"
proof -
  obtain p q where pq: "quotient_of x = (p, q)" by (cases "quotient_of x")
  then have q: "0 < q" and x: "x = of_int p / of_int q"
    by (auto dest: quotient_of_denom_pos quotient_of_div)
  with assms have p: "0 < p" by (simp add: zero_less_divide_iff)
  define e where "e = bitlen p - bitlen q"
  note bp = bitlen_bound [OF p] and bq = bitlen_bound [OF q]
  have pos: "0 < (of_int q :: rat)" using q by simp
  have "x < 2 powi bitlen p / 2 powi (bitlen q - 1)"
    unfolding x using bp bq p by (intro frac_less) auto
  also have "\<dots> = 2 powi (bitlen p - (bitlen q - 1))" by (rule power_int_diff [symmetric]) simp
  also have "bitlen p - (bitlen q - 1) = e + 1" by (simp add: e_def)
  finally have up: "x < 2 powi (e + 1)" .
  have e1: "e - 1 = bitlen p - 1 - bitlen q" by (simp add: e_def)
  have "2 powi (e - 1) = (2 powi (bitlen p - 1) / 2 powi bitlen q :: rat)"
    unfolding e1 by (rule power_int_diff) simp
  also have "\<dots> \<le> x" unfolding x using bp bq p pos by (intro frac_le) auto
  finally have lo: "2 powi (e - 1) \<le> x" .
  have ex: "expo x = (if 2 powi e \<le> x then e else e - 1)"
    by (simp add: expo_def pq e_def)
  show "2 powi expo x \<le> x" using lo by (simp add: ex)
  show "x < 2 powi (expo x + 1)" using up by (simp add: ex)
qed

lemma expo_mono: "0 < x \<Longrightarrow> x \<le> y \<Longrightarrow> expo x \<le> expo y"
proof (rule ccontr)
  assume *: "0 < x" "x \<le> y" "\<not> expo x \<le> expo y"
  have "y < 2 powi (expo y + 1)" using * by (intro expo_bounds) simp
  also have "\<dots> \<le> 2 powi expo x" using * by (intro power_int_increasing) auto
  also have "\<dots> \<le> x" using * by (intro expo_bounds)
  finally show False using * by simp
qed

lemma scaled_bounds:
  assumes "0 < x"
  shows "2 ^ 52 \<le> x * 2 powi (52 - expo x)" and "x * 2 powi (52 - expo x) < 2 ^ 53"
proof -
  have "2 powi expo x * 2 powi (52 - expo x) \<le> x * 2 powi (52 - expo x)"
    using expo_bounds(1) [OF assms] by (intro mult_right_mono) auto
  moreover have "2 powi expo x * 2 powi (52 - expo x) = (2 ^ 52 :: rat)"
    by (simp flip: power_int_add)
  ultimately show "2 ^ 52 \<le> x * 2 powi (52 - expo x)" by linarith
  have "x * 2 powi (52 - expo x) < 2 powi (expo x + 1) * 2 powi (52 - expo x)"
    using expo_bounds(2) [OF assms] by (intro mult_strict_right_mono) auto
  moreover have "2 powi (expo x + 1) * 2 powi (52 - expo x) = (2 ^ 53 :: rat)"
    by (simp flip: power_int_add)
  ultimately show "x * 2 powi (52 - expo x) < 2 ^ 53" by linarith
qed

lemma f64_round_pos: "0 < x \<Longrightarrow>
  f64_round x = of_int (round_even (x * 2 powi (52 - expo x))) * 2 powi (expo x - 52)"
  by (simp add: f64_round_def Let_def)

lemma f64_round_between:
  assumes "0 < x"
  shows "2 powi expo x \<le> f64_round x" and "f64_round x \<le> 2 powi (expo x + 1)"
proof -
  let ?r = "round_even (x * 2 powi (52 - expo x))"
  have "round_even (of_int (2 ^ 52)) \<le> ?r"
    using scaled_bounds [OF assms] by (intro round_even_mono) simp
  then have "2 ^ 52 \<le> ?r" by (simp only: round_even_of_int)
  then have "(2 ^ 52 :: rat) \<le> of_int ?r" using of_int_le_iff [where ?'a = rat, of "2 ^ 52" ?r] by simp
  then have "2 ^ 52 * 2 powi (expo x - 52) \<le> of_int ?r * (2 :: rat) powi (expo x - 52)"
    by (intro mult_right_mono) auto
  moreover have "(2 ^ 52 :: rat) * 2 powi (expo x - 52) = 2 powi expo x"
    by (simp add: power_int_diff)
  ultimately show "2 powi expo x \<le> f64_round x" by (simp only: f64_round_pos [OF assms])
  have "?r \<le> round_even (of_int (2 ^ 53))"
    using scaled_bounds [OF assms] by (intro round_even_mono) simp
  then have "?r \<le> 2 ^ 53" by (simp only: round_even_of_int)
  then have "of_int ?r \<le> (2 ^ 53 :: rat)" using of_int_le_iff [where ?'a = rat, of ?r "2 ^ 53"] by simp
  then have "of_int ?r * (2 :: rat) powi (expo x - 52) \<le> 2 ^ 53 * 2 powi (expo x - 52)"
    by (intro mult_right_mono) auto
  moreover have "(2 ^ 53 :: rat) * 2 powi (expo x - 52) = 2 powi (expo x + 1)"
    by (simp add: power_int_diff power_int_add)
  ultimately show "f64_round x \<le> 2 powi (expo x + 1)" by (simp only: f64_round_pos [OF assms])
qed

lemma f64_round_nonneg [simp]: "0 \<le> f64_round x"
proof (cases "0 < x")
  case True
  have "(0 :: rat) \<le> 2 powi expo x" by simp
  also have "\<dots> \<le> f64_round x" using f64_round_between [OF True] by simp
  finally show ?thesis .
qed (simp add: f64_round_def)

lemma f64_round_mono: "x \<le> y \<Longrightarrow> f64_round x \<le> f64_round y"
proof (cases "0 < x")
  case False
  then show ?thesis using f64_round_nonneg [of y] by (simp add: f64_round_def [of x])
next
  case True
  assume le: "x \<le> y"
  with True have y: "0 < y" by simp
  have ex: "expo x \<le> expo y" using True le by (rule expo_mono)
  show ?thesis
  proof (cases "expo x = expo y")
    case eq: True
    have "round_even (x * 2 powi (52 - expo y)) \<le> round_even (y * 2 powi (52 - expo y))"
      using le by (intro round_even_mono mult_right_mono) auto
    then have "(of_int (round_even (x * 2 powi (52 - expo y))) :: rat) * 2 powi (expo y - 52)
             \<le> of_int (round_even (y * 2 powi (52 - expo y))) * 2 powi (expo y - 52)"
      by (intro mult_right_mono) auto
    then show ?thesis using True y eq by (simp add: f64_round_pos)
  next
    case False
    have "f64_round x \<le> 2 powi (expo x + 1)" by (rule f64_round_between [OF True])
    also have "\<dots> \<le> 2 powi expo y" using ex False by (intro power_int_increasing) auto
    also have "\<dots> \<le> f64_round y" by (rule f64_round_between [OF y])
    finally show ?thesis .
  qed
qed

lemma f64_round_of_nat:
  assumes "n < 2 ^ 53"
  shows "f64_round (of_nat n) = of_nat n"
proof (cases "n = 0")
  case False
  then have x: "0 < (of_nat n :: rat)" by simp
  let ?e = "expo (of_nat n)"
  have "?e < 53"
  proof (rule ccontr)
    assume "\<not> ?e < 53"
    then have "(2 :: rat) powi 53 \<le> 2 powi ?e" by (intro power_int_increasing) auto
    also have "\<dots> \<le> of_nat n" by (rule expo_bounds [OF x])
    finally have "(of_nat (2 ^ 53) :: rat) \<le> of_nat n" by simp
    then have "2 ^ 53 \<le> n" by (simp only: of_nat_le_iff)
    with assms show False by simp
  qed
  then have p: "(2 :: rat) powi (52 - ?e) = of_int (2 ^ nat (52 - ?e))"
    by (simp add: power_int_def)
  have "of_nat n * (2 :: rat) powi (52 - ?e) = of_int (int n * 2 ^ nat (52 - ?e))"
    by (simp add: p)
  then have "round_even (of_nat n * 2 powi (52 - ?e)) = int n * 2 ^ nat (52 - ?e)"
    by (simp only: round_even_of_int)
  then have "f64_round (of_nat n) = of_int (int n * 2 ^ nat (52 - ?e)) * 2 powi (?e - 52)"
    by (simp add: f64_round_pos [OF x])
  also have "\<dots> = of_nat n * (2 powi (52 - ?e) * 2 powi (?e - 52))" by (simp add: p)
  also have "2 powi (52 - ?e) * 2 powi (?e - 52) = (1 :: rat)" by (simp flip: power_int_add)
  finally show ?thesis by simp
qed (simp add: f64_round_def)

lemma f64_of_nat_exact: "n < 2 ^ 53 \<Longrightarrow> f64_of_nat n = of_nat n"
  by (simp add: f64_of_nat_def f64_round_of_nat)

lemma f64_clamp_bounds: "lo \<le> hi \<Longrightarrow> lo \<le> f64_clamp lo hi x \<and> f64_clamp lo hi x \<le> hi"
  by (auto simp: f64_clamp_def)

text \<open>Scaling a small integer by a factor of at least one never loses anything.\<close>

lemma f64_scale_up:
  assumes "n < 2 ^ 53" and "1 \<le> m"
  shows "n \<le> f64_to_nat (f64_mul (f64_of_nat n) m)"
proof -
  have "(of_nat n :: rat) = f64_round (of_nat n)" using assms by (simp add: f64_round_of_nat)
  also have "\<dots> \<le> f64_round (of_nat n * m)"
  proof (rule f64_round_mono)
    have "of_nat n * (1 :: rat) \<le> of_nat n * m" using assms by (intro mult_left_mono) auto
    then show "(of_nat n :: rat) \<le> of_nat n * m" by simp
  qed
  also have "\<dots> = f64_mul (f64_of_nat n) m" using assms by (simp add: f64_mul_def f64_of_nat_exact)
  finally have "int n \<le> \<lfloor>f64_mul (f64_of_nat n) m\<rfloor>" by (simp add: le_floor_iff)
  then show ?thesis by (simp add: f64_to_nat_def)
qed

lemma f64_one_plus: "0 \<le> x \<Longrightarrow> 1 \<le> f64_add 1 x"
proof -
  assume "0 \<le> x"
  then have "f64_round 1 \<le> f64_round (1 + x)" by (intro f64_round_mono) simp
  moreover have "f64_round 1 = 1" using f64_round_of_nat [of 1] by simp
  ultimately show ?thesis by (simp add: f64_add_def)
qed

end
