(* ===== verification/Metrics.thy ===== *)
theory Metrics
  imports Prelude
begin

text \<open>
  \<open>src/metrics.rs\<close>: the counters and gauges.  An \<open>AtomicU64\<close> counter is a \<open>64 word\<close>, whose
  addition wraps as \<open>fetch_add\<close> does; a gauge (\<open>AtomicI64\<close>) is an \<open>int\<close>, whose range no run of
  the program can leave.  The page of the Prometheus exposition format is rendered as text.
\<close>

record metrics =
  requests_total :: "64 word"
  requests_active :: int
  requests_queued :: int
  upstream_requests_total :: "64 word"
  upstream_429_total :: "64 word"
  quota_exhaustion_total :: "64 word"
  upstream_5xx_total :: "64 word"
  upstream_transport_errors_total :: "64 word"
  stream_interruptions_total :: "64 word"
  stream_protocol_errors_total :: "64 word"
  retries_total :: "64 word"
  cross_group_failovers_total :: "64 word"
  route_attempts_total :: "64 word"
  route_failovers_total :: "64 word"
  model_failovers_total :: "64 word"
  model_account_429_total :: "64 word"
  model_circuit_open_total :: "64 word"
  routing_exhausted_total :: "64 word"
  affinity_hits_total :: "64 word"
  affinity_breaks_total :: "64 word"
  cross_model_failovers_total :: "64 word"
  tier_steps_total :: "64 word"
  health_excluded_total :: "64 word"
  tool_calls_total :: "64 word"
  queue_rejections_total :: "64 word"
  circuit_state_gauge :: int
  concurrency_limit_gauge :: "64 word"
  queue_wait_us_total :: "64 word"
  queue_wait_samples :: "64 word"
  request_duration_us_total :: "64 word"
  request_duration_samples :: "64 word"
  time_to_first_event_us_total :: "64 word"
  time_to_first_event_samples :: "64 word"
  last_failure :: "(string \<times> nat) option"

text \<open>\<open>Metrics::new\<close>: the derived \<open>Default\<close>.\<close>

definition new_metrics :: metrics where
  "new_metrics = \<lparr>requests_total = 0, requests_active = 0, requests_queued = 0,
     upstream_requests_total = 0, upstream_429_total = 0, quota_exhaustion_total = 0,
     upstream_5xx_total = 0, upstream_transport_errors_total = 0, stream_interruptions_total = 0,
     stream_protocol_errors_total = 0, retries_total = 0, cross_group_failovers_total = 0,
     route_attempts_total = 0, route_failovers_total = 0, model_failovers_total = 0,
     model_account_429_total = 0, model_circuit_open_total = 0, routing_exhausted_total = 0,
     affinity_hits_total = 0, affinity_breaks_total = 0, cross_model_failovers_total = 0,
     tier_steps_total = 0, health_excluded_total = 0, tool_calls_total = 0,
     queue_rejections_total = 0, circuit_state_gauge = 0, concurrency_limit_gauge = 0,
     queue_wait_us_total = 0, queue_wait_samples = 0, request_duration_us_total = 0,
     request_duration_samples = 0, time_to_first_event_us_total = 0,
     time_to_first_event_samples = 0, last_failure = None\<rparr>"

definition inc_requests :: "metrics \<Rightarrow> metrics" where
  "inc_requests m = m\<lparr>requests_total := requests_total m + 1, requests_active := requests_active m + 1\<rparr>"

definition dec_requests :: "metrics \<Rightarrow> metrics" where
  "dec_requests m = m\<lparr>requests_active := requests_active m - 1\<rparr>"

definition set_queue_depth :: "nat \<Rightarrow> metrics \<Rightarrow> metrics" where
  "set_queue_depth depth m = m\<lparr>requests_queued := int depth\<rparr>"

definition set_circuit_state :: "int \<Rightarrow> metrics \<Rightarrow> metrics" where
  "set_circuit_state code m = m\<lparr>circuit_state_gauge := code\<rparr>"

definition set_concurrency_limit :: "nat \<Rightarrow> metrics \<Rightarrow> metrics" where
  "set_concurrency_limit limit m = m\<lparr>concurrency_limit_gauge := of_nat limit\<rparr>"

definition note_queue_wait :: "duration \<Rightarrow> metrics \<Rightarrow> metrics" where
  "note_queue_wait wait m = m\<lparr>queue_wait_us_total := queue_wait_us_total m + of_nat (as_micros wait),
     queue_wait_samples := queue_wait_samples m + 1\<rparr>"

definition note_request_duration :: "duration \<Rightarrow> metrics \<Rightarrow> metrics" where
  "note_request_duration d m = m\<lparr>request_duration_us_total := request_duration_us_total m + of_nat (as_micros d),
     request_duration_samples := request_duration_samples m + 1\<rparr>"

definition note_time_to_first_event :: "duration \<Rightarrow> metrics \<Rightarrow> metrics" where
  "note_time_to_first_event d m = m\<lparr>time_to_first_event_us_total := time_to_first_event_us_total m + of_nat (as_micros d),
     time_to_first_event_samples := time_to_first_event_samples m + 1\<rparr>"

text \<open>\<open>note_failure\<close>: the class and the Unix time in seconds.\<close>

definition note_failure :: "string \<Rightarrow> nat \<Rightarrow> metrics \<Rightarrow> metrics" where
  "note_failure cls unix_secs m = m\<lparr>last_failure := Some (cls, unix_secs)\<rparr>"

text \<open>\<open>mean\<close>: a mean in milliseconds, (0, 0) when there is no sample.\<close>

definition mean :: "64 word \<Rightarrow> 64 word \<Rightarrow> int \<times> 64 word" where
  "mean total_us samples = (if samples = 0 then (0, 0)
     else (int (unat (total_us div samples) div 1000), samples))"

section \<open>The Prometheus page\<close>

text \<open>A number as the formatter prints it.\<close>

definition signed_decimal :: "int \<Rightarrow> string" where
  "signed_decimal i = (if i < 0 then CHR ''-'' # decimal (nat (- i)) else decimal (nat i))"

definition metric_text :: "string \<Rightarrow> string \<Rightarrow> string \<Rightarrow> int \<Rightarrow> string" where
  "metric_text kind name help value = ''# HELP '' @ name @ '' '' @ help @ [CHR 0x0A]
     @ ''# TYPE '' @ name @ '' '' @ kind @ [CHR 0x0A] @ name @ '' '' @ signed_decimal value @ [CHR 0x0A]"

definition metric_counter :: "string \<Rightarrow> string \<Rightarrow> int \<Rightarrow> string \<times> string" where
  "metric_counter name help value = (name, metric_text ''counter'' name help value)"

definition metric_gauge :: "string \<Rightarrow> string \<Rightarrow> int \<Rightarrow> string \<times> string" where
  "metric_gauge name help value = (name, metric_text ''gauge'' name help value)"

definition rendered_counters :: "metrics \<Rightarrow> (string \<times> string) list" where
  "rendered_counters m = [
      metric_counter ''sensenova_proxy_requests_total'' ''Client requests accepted.'' (uint (requests_total m)),
      metric_gauge ''sensenova_proxy_requests_active'' ''Client requests currently in flight.'' (requests_active m),
      metric_gauge ''sensenova_proxy_requests_queued'' ''Client requests currently waiting for a concurrency permit.'' (requests_queued m),
      metric_counter ''sensenova_proxy_upstream_requests_total'' ''Upstream HTTP requests attempted.'' (uint (upstream_requests_total m)),
      metric_counter ''sensenova_proxy_upstream_429_total'' ''Upstream responses classified as rate limited.'' (uint (upstream_429_total m)),
      metric_counter ''sensenova_proxy_quota_exhaustion_total'' ''Upstream responses classified as explicit quota exhaustion.'' (uint (quota_exhaustion_total m)),
      metric_counter ''sensenova_proxy_upstream_5xx_total'' ''Upstream 5xx responses.'' (uint (upstream_5xx_total m)),
      metric_counter ''sensenova_proxy_upstream_transport_errors_total'' ''Upstream transport failures.'' (uint (upstream_transport_errors_total m)),
      metric_counter ''sensenova_proxy_stream_interruptions_total'' ''Upstream streams that failed after commit.'' (uint (stream_interruptions_total m)),
      metric_counter ''sensenova_proxy_stream_protocol_errors_total'' ''Upstream stream protocol violations (malformed SSE/JSON).'' (uint (stream_protocol_errors_total m)),
      metric_counter ''sensenova_proxy_retries_total'' ''Upstream retry attempts performed.'' (uint (retries_total m)),
      metric_counter ''sensenova_proxy_cross_group_failovers_total'' ''Failovers that switched to a different quota group.'' (uint (cross_group_failovers_total m)),
      metric_counter ''sensenova_proxy_route_attempts_total'' ''Route attempts dialed under the dynamic routing profile.'' (uint (route_attempts_total m)),
      metric_counter ''sensenova_proxy_route_failovers_total'' ''Failovers to a different (model, quota_group) route.'' (uint (route_failovers_total m)),
      metric_counter ''sensenova_proxy_model_failovers_total'' ''Failovers that changed the upstream model within one request.'' (uint (model_failovers_total m)),
      metric_counter ''sensenova_proxy_cross_model_failovers_total'' ''Failovers that changed the upstream model (alias of model_failovers_total).'' (uint (cross_model_failovers_total m)),
      metric_counter ''sensenova_proxy_model_account_429_total'' ''Generic 429 responses attributed to one (model, quota_group) route.'' (uint (model_account_429_total m)),
      metric_counter ''sensenova_proxy_model_circuit_open_total'' ''Model-wide circuit openings (distinct quota groups tripped the model).'' (uint (model_circuit_open_total m)),
      metric_counter ''sensenova_proxy_routing_exhausted_total'' ''Logical requests whose route-attempt budget was exhausted.'' (uint (routing_exhausted_total m)),
      metric_counter ''sensenova_proxy_affinity_hits_total'' ''Attempts that reused the session's affinity route.'' (uint (affinity_hits_total m)),
      metric_counter ''sensenova_proxy_affinity_breaks_total'' ''Affinities dropped because a route became unhealthy.'' (uint (affinity_breaks_total m)),
      metric_counter ''sensenova_proxy_tier_steps_total'' ''Times a request had to step down to a lower quality tier.'' (uint (tier_steps_total m)),
      metric_counter ''sensenova_proxy_health_excluded_total'' ''Candidates excluded by a health gate (cooldown or open circuit).'' (uint (health_excluded_total m)),
      metric_counter ''sensenova_proxy_tool_calls_total'' ''tool_use blocks observed in responses.'' (uint (tool_calls_total m)),
      metric_counter ''sensenova_proxy_queue_rejections_total'' ''Requests rejected by the admission queue.'' (uint (queue_rejections_total m))]"

definition rendered_gauges :: "metrics \<Rightarrow> (string \<times> string) list" where
  "rendered_gauges m = [
      metric_gauge ''sensenova_proxy_circuit_state'' ''Circuit breaker state (0 closed, 1 half open, 2 open).'' (circuit_state_gauge m),
      metric_gauge ''sensenova_proxy_concurrency_limit'' ''Configured concurrency limit.'' (sint (concurrency_limit_gauge m)),
      metric_gauge ''sensenova_proxy_queue_wait_ms_mean'' ''Mean queue wait in milliseconds.'' (fst (mean (queue_wait_us_total m) (queue_wait_samples m))),
      metric_gauge ''sensenova_proxy_queue_wait_samples'' ''Queue wait samples.'' (sint (snd (mean (queue_wait_us_total m) (queue_wait_samples m)))),
      metric_gauge ''sensenova_proxy_request_duration_ms_mean'' ''Mean total request duration in milliseconds.'' (fst (mean (request_duration_us_total m) (request_duration_samples m))),
      metric_gauge ''sensenova_proxy_request_duration_samples'' ''Request duration samples.'' (sint (snd (mean (request_duration_us_total m) (request_duration_samples m)))),
      metric_gauge ''sensenova_proxy_time_to_first_event_ms_mean'' ''Mean time to first upstream event in milliseconds.'' (fst (mean (time_to_first_event_us_total m) (time_to_first_event_samples m))),
      metric_gauge ''sensenova_proxy_time_to_first_event_samples'' ''Time-to-first-event samples.'' (sint (snd (mean (time_to_first_event_us_total m) (time_to_first_event_samples m))))]"

definition rendered_failure :: "metrics \<Rightarrow> string" where
  "rendered_failure m = (case last_failure m of None \<Rightarrow> []
    | Some (cls, at) \<Rightarrow>
        ''# HELP sensenova_proxy_last_failure_class Class of the most recent upstream failure.'' @ [CHR 0x0A]
      @ ''# TYPE sensenova_proxy_last_failure_class gauge'' @ [CHR 0x0A]
      @ ''sensenova_proxy_last_failure_class{class='' @ [CHR 0x22] @ cls @ [CHR 0x22] @ ''} 1'' @ [CHR 0x0A]
      @ ''# HELP sensenova_proxy_last_failure_unix_seconds Unix time of the most recent upstream failure.'' @ [CHR 0x0A]
      @ ''# TYPE sensenova_proxy_last_failure_unix_seconds gauge'' @ [CHR 0x0A]
      @ ''sensenova_proxy_last_failure_unix_seconds '' @ decimal at @ [CHR 0x0A])"

definition render :: "metrics \<Rightarrow> string" where
  "render m = concat (map snd (rendered_counters m @ rendered_gauges m)) @ rendered_failure m"

end
