(* ===== verification/RouterState.thy ===== *)
theory RouterState
  imports Config Float64 Metrics
begin

text \<open>
  \<open>src/router.rs\<close>, the data: routing tunables, the failure domains (credential, quota group,
  (model, quota group) route, model) and the route table that owns their state, with the views
  through which the planner reads them.  The table's mutexes are fields of one record; an
  operation of the table is a function from a table to a result and a new table.
\<close>

section \<open>Tunables\<close>

definition retry_after_margin :: duration where "retry_after_margin = from_millis 250"
definition healthy_route_step :: duration where "healthy_route_step = from_millis 250"
definition backoff_max_shift :: nat where "backoff_max_shift = 32"
definition max_route_wait :: duration where "max_route_wait = from_secs 86400"
definition max_parsed_cooldown :: duration where "max_parsed_cooldown = from_secs (366 * 24 * 60 * 60)"

record route_config =
  max_route_attempts :: nat
  soft_affinity :: duration
  max_affinity_entries :: nat
  same_route_429_retries :: nat
  route_cooldown_initial :: duration
  route_cooldown_max :: duration
  model_trip_distinct_groups :: nat
  model_trip_window :: duration
  model_open :: duration
  retry_after_max :: duration
  max_model_cooldown :: duration
  model_missing_distinct_groups :: nat
  model_missing_window :: duration
  model_missing_cooldown :: duration

definition route_config_of :: "routing_config \<Rightarrow> route_config" where
  "route_config_of c = \<lparr>
     max_route_attempts = max (cfg_max_route_attempts c) 1,
     soft_affinity = from_secs (cfg_soft_affinity_secs c),
     max_affinity_entries = max (cfg_max_affinity_entries c) 1,
     same_route_429_retries = cfg_same_route_429_retries c,
     route_cooldown_initial = from_secs (max (cfg_route_cooldown_initial_secs c) 1),
     route_cooldown_max = from_secs (max (cfg_route_cooldown_max_secs c) 1),
     model_trip_distinct_groups = max (cfg_model_trip_distinct_groups c) 1,
     model_trip_window = from_secs (max (cfg_model_trip_window_secs c) 1),
     model_open = from_secs (max (cfg_model_open_secs c) 1),
     retry_after_max = from_secs (max (cfg_retry_after_max_secs c) 1),
     max_model_cooldown = from_secs (max (cfg_max_model_cooldown_secs c) 1),
     model_missing_distinct_groups = max (cfg_model_missing_distinct_groups c) 1,
     model_missing_window = from_secs (max (cfg_model_missing_window_secs c) 1),
     model_missing_cooldown = from_secs (max (cfg_model_missing_cooldown_secs c) 1)\<rparr>"

section \<open>Enumerations\<close>

datatype gate_reason =
  ModelOpen | ModelDisabled | RouteDisabled | RouteCooling | QuotaGroupCooling | KeyCooling | KeyUnusable

fun gate_as_str :: "gate_reason \<Rightarrow> string" where
  "gate_as_str ModelOpen = ''model_circuit_open''"
| "gate_as_str ModelDisabled = ''model_disabled''"
| "gate_as_str RouteDisabled = ''route_disabled''"
| "gate_as_str RouteCooling = ''route_cooling''"
| "gate_as_str QuotaGroupCooling = ''quota_group_cooling''"
| "gate_as_str KeyCooling = ''key_cooling''"
| "gate_as_str KeyUnusable = ''key_unusable''"

datatype circuit_transition = NoTransition | Opened | Reopened | ClosedNow

definition opens_circuit :: "circuit_transition \<Rightarrow> bool" where
  "opens_circuit tr = (tr = Opened \<or> tr = Reopened)"

datatype tier_availability = TemporarilyUnavailable duration | HardBlocked

datatype circuit_state = Closed | Open | HalfOpen

datatype dialability = Ready | Cooling duration | Blocked gate_reason

datatype resolution = ResolvedProfile string | ResolvedLiteral string

datatype route_spec = Profile string | Literal string

fun label :: "route_spec \<Rightarrow> string" where
  "label (Profile name) = name"
| "label (Literal name) = name"

section \<open>Targets\<close>

record selected_key =
  sk_index :: nat
  sk_configured_index :: nat
  sk_name :: string
  sk_quota_group :: string
  sk_api_key :: string

definition new_selected_key :: "nat \<Rightarrow> string \<Rightarrow> string \<Rightarrow> string \<Rightarrow> selected_key" where
  "new_selected_key i name grp secret = \<lparr>sk_index = i, sk_configured_index = i, sk_name = name,
     sk_quota_group = grp, sk_api_key = secret\<rparr>"

record route_target =
  rt_model :: string
  rt_quota_group :: string
  rt_key :: selected_key
  rt_tier :: nat

type_synonym identity = "64 word \<times> 64 word \<times> nat"
type_synonym route_id = "64 word \<times> 64 word"

definition identity :: "route_target \<Rightarrow> identity" where
  "identity r = (hash_name (rt_model r), hash_name (rt_quota_group r), sk_index (rt_key r))"

definition route_id :: "route_target \<Rightarrow> route_id" where
  "route_id r = (hash_name (rt_model r), hash_name (rt_quota_group r))"

record candidate =
  c_model :: string
  c_model_hash :: "64 word"
  c_group :: string
  c_group_hash :: "64 word"
  c_a_index :: nat
  c_b_index :: "nat option"
  c_ordinal :: "nat \<times> nat"

definition c_route_id :: "candidate \<Rightarrow> route_id" where
  "c_route_id c = (c_model_hash c, c_group_hash c)"

definition order_key :: "candidate \<Rightarrow> nat" where
  "order_key c = fst (c_ordinal c)"

text \<open>The credentials a candidate may dial: its first choice, then its alternative.\<close>

definition key_choices :: "candidate \<Rightarrow> nat list" where
  "key_choices c = (case c_b_index c of
      Some b \<Rightarrow> if b \<noteq> c_a_index c then [c_a_index c, b] else [c_a_index c]
    | None \<Rightarrow> [c_a_index c])"

section \<open>Failure domains\<close>

record key_state =
  ks_cooling_until :: "instant option"
  ks_unusable :: bool
  ks_streak :: nat
  ks_ttft_ms :: "f64 option"
  ks_latency_ms :: "f64 option"
  ks_inflight :: nat

record key_entry =
  ke_index :: nat
  ke_name :: string
  ke_api_key :: string
  ke_group :: string
  ke_state :: key_state

record route_state =
  rs_cooling_until :: "instant option"
  rs_disabled_until :: "instant option"

record group_entry =
  ge_cooling_until :: "instant option"

record model_entry =
  me_state :: circuit_state
  me_open_until :: "instant option"
  me_open_reason :: string
  me_disabled :: bool
  me_disabled_until :: "instant option"
  me_probe_in_flight :: bool
  me_failing_groups :: "(64 word \<times> instant) list"
  me_missing_groups :: "(64 word \<times> instant) list"

record affinity_entry =
  ae_route :: route_id
  ae_expires :: instant

text \<open>The derived \<open>Default\<close> implementations.\<close>

instantiation key_state_ext :: (default) default
begin
definition default_key_state_ext :: "'a key_state_scheme" where
  "default_key_state_ext = key_state_ext None False 0 None None 0 default"
instance ..
end

instantiation route_state_ext :: (default) default
begin
definition default_route_state_ext :: "'a route_state_scheme" where
  "default_route_state_ext = route_state_ext None None default"
instance ..
end

instantiation group_entry_ext :: (default) default
begin
definition default_group_entry_ext :: "'a group_entry_scheme" where
  "default_group_entry_ext = group_entry_ext None default"
instance ..
end

instantiation model_entry_ext :: (default) default
begin
definition default_model_entry_ext :: "'a model_entry_scheme" where
  "default_model_entry_ext = model_entry_ext Closed None [] False None False [] [] default"
instance ..
end

lemmas default_defs = default_key_state_ext_def default_route_state_ext_def
  default_group_entry_ext_def default_model_entry_ext_def

lemma default_key_state_sel [simp]:
  "ks_cooling_until default = None" "\<not> ks_unusable default" "ks_streak default = 0"
  "ks_ttft_ms default = None" "ks_latency_ms default = None" "ks_inflight default = 0"
  by (simp_all add: default_defs)

lemma default_route_state_sel [simp]:
  "rs_cooling_until default = None" "rs_disabled_until default = None"
  by (simp_all add: default_defs)

lemma default_group_entry_sel [simp]: "ge_cooling_until default = None"
  by (simp add: default_defs)

lemma default_model_entry_sel [simp]:
  "me_state default = Closed" "me_open_until default = None" "me_open_reason default = []"
  "\<not> me_disabled default" "me_disabled_until default = None" "\<not> me_probe_in_flight default"
  "me_failing_groups default = []" "me_missing_groups default = []"
  by (simp_all add: default_defs)

section \<open>The route table\<close>

text \<open>
  \<open>rt_affinity\<close> is the affinity \<open>HashMap\<close> as an association list: the list order stands for the
  map's iteration order, which Rust leaves open and nothing below relies on.
\<close>

record route_table =
  t_keys :: "key_entry list"
  t_routes :: "route_id \<Rightarrow> route_state option"
  t_models :: "string \<Rightarrow> model_entry option"
  t_groups :: "string \<Rightarrow> group_entry option"
  t_affinity :: "(string \<times> affinity_entry) list"
  t_round_robin :: "64 word"
  t_affinity_breaks :: "64 word"
  t_config :: route_config
  t_profiles :: profiles

text \<open>\<open>enumerate\<close> and \<open>filter\<close>: a key keeps its index in the configuration, not in the table.\<close>

definition enabled_entries :: "sensenova_key_config list \<Rightarrow> key_entry list" where
  "enabled_entries ks = map (\<lambda>(i, k). \<lparr>ke_index = i, ke_name = key_name k, ke_api_key = key_secret k,
       ke_group = key_quota_group k, ke_state = default\<rparr>)
     (filter (\<lambda>(i, k). key_enabled k) (enumerate 0 ks))"

definition new_table :: "config \<Rightarrow> route_table" where
  "new_table c = \<lparr>t_keys = enabled_entries (sensenova_api_keys c), t_routes = Map.empty,
     t_models = Map.empty, t_groups = Map.empty, t_affinity = [], t_round_robin = 0,
     t_affinity_breaks = 0, t_config = route_config_of (routing c), t_profiles = profiles_of c\<rparr>"

text \<open>\<open>key_entry\<close>: positional access, \<open>None\<close> out of range.\<close>

definition key_entry_at :: "route_table \<Rightarrow> nat \<Rightarrow> key_entry option" where
  "key_entry_at t i = (if i < length (t_keys t) then Some (t_keys t ! i) else None)"

definition map_key_state :: "nat \<Rightarrow> (key_state \<Rightarrow> key_state) \<Rightarrow> route_table \<Rightarrow> route_table" where
  "map_key_state i f t = (if i < length (t_keys t)
     then t\<lparr>t_keys := (t_keys t)[i := (t_keys t ! i)\<lparr>ke_state := f (ke_state (t_keys t ! i))\<rparr>]\<rparr>
     else t)"

text \<open>The \<open>entry(k).or_default()\<close> idiom.\<close>

definition or_default :: "'a :: default option \<Rightarrow> 'a" where
  "or_default slot = (case slot of None \<Rightarrow> default | Some x \<Rightarrow> x)"

lemma or_default_simps [simp]: "or_default None = default" "or_default (Some x) = x"
  by (simp_all add: or_default_def)

section \<open>Views\<close>

record model_view =
  mv_state :: circuit_state
  mv_open_until :: "instant option"
  mv_disabled :: bool
  mv_probe_in_flight :: bool

record route_view =
  rv_cooling :: "duration option"
  rv_disabled :: bool

text \<open>The lazy transitions of a model entry: an elapsed open window becomes half-open, an
  elapsed missing state is lifted.\<close>

definition refresh_circuit :: "instant \<Rightarrow> model_entry \<Rightarrow> model_entry" where
  "refresh_circuit now e =
     (if me_state e = Open \<and> (case me_open_until e of Some u \<Rightarrow> u \<le> now | None \<Rightarrow> False)
      then e\<lparr>me_state := HalfOpen, me_open_until := None, me_probe_in_flight := False\<rparr> else e)"

definition refresh_missing :: "instant \<Rightarrow> model_entry \<Rightarrow> model_entry" where
  "refresh_missing now e =
     (if me_disabled e \<and> (case me_disabled_until e of Some u \<Rightarrow> u \<le> now | None \<Rightarrow> False)
      then e\<lparr>me_disabled := False, me_disabled_until := None, me_missing_groups := []\<rparr> else e)"

definition refresh_model :: "instant \<Rightarrow> model_entry \<Rightarrow> model_entry" where
  "refresh_model now e = refresh_missing now (refresh_circuit now e)"

definition view_of_model :: "model_entry \<Rightarrow> model_view" where
  "view_of_model e = \<lparr>mv_state = me_state e, mv_open_until = me_open_until e,
     mv_disabled = me_disabled e, mv_probe_in_flight = me_probe_in_flight e\<rparr>"

definition model_view :: "string \<Rightarrow> instant \<Rightarrow> route_table \<Rightarrow> model_view \<times> route_table" where
  "model_view m now t =
     (let e = refresh_model now (or_default (t_models t m))
      in (view_of_model e, t\<lparr>t_models := (t_models t)(m \<mapsto> e)\<rparr>))"

definition refresh_route :: "instant \<Rightarrow> route_state \<Rightarrow> route_state" where
  "refresh_route now e = e\<lparr>rs_cooling_until := clear (rs_cooling_until e) now,
     rs_disabled_until := clear (rs_disabled_until e) now\<rparr>"

definition view_of_route :: "instant \<Rightarrow> route_state \<Rightarrow> route_view" where
  "view_of_route now e = \<lparr>rv_cooling = map_option (\<lambda>u. u - now) (rs_cooling_until e),
     rv_disabled = (rs_disabled_until e \<noteq> None)\<rparr>"

definition route_view :: "candidate \<Rightarrow> instant \<Rightarrow> route_table \<Rightarrow> route_view \<times> route_table" where
  "route_view c now t =
     (let e = refresh_route now (or_default (t_routes t (c_route_id c)))
      in (view_of_route now e, t\<lparr>t_routes := (t_routes t)(c_route_id c \<mapsto> e)\<rparr>))"

definition group_view :: "string \<Rightarrow> instant \<Rightarrow> route_table \<Rightarrow> duration option \<times> route_table" where
  "group_view g now t =
     (let e = or_default (t_groups t g); e' = e\<lparr>ge_cooling_until := clear (ge_cooling_until e) now\<rparr>
      in (map_option (\<lambda>u. u - now) (ge_cooling_until e'), t\<lparr>t_groups := (t_groups t)(g \<mapsto> e')\<rparr>))"

definition clear_key :: "instant \<Rightarrow> key_state \<Rightarrow> key_state" where
  "clear_key now s = s\<lparr>ks_cooling_until := clear (ks_cooling_until s) now\<rparr>"

definition key_ready :: "nat \<Rightarrow> instant \<Rightarrow> route_table \<Rightarrow> nat option \<times> route_table" where
  "key_ready i now t = (case key_entry_at t i of
      None \<Rightarrow> (None, t)
    | Some e \<Rightarrow>
        let s = clear_key now (ke_state e)
        in (if ks_unusable s \<or> ks_cooling_until s \<noteq> None then None else Some i,
            map_key_state i (clear_key now) t))"

definition key_cooling :: "nat \<Rightarrow> instant \<Rightarrow> route_table \<Rightarrow> duration option \<times> route_table" where
  "key_cooling i now t = (case key_entry_at t i of
      None \<Rightarrow> (None, t)
    | Some e \<Rightarrow>
        (map_option (\<lambda>u. u - now) (ks_cooling_until (clear_key now (ke_state e))),
         map_key_state i (clear_key now) t))"

definition all_keys_unusable :: "candidate \<Rightarrow> route_table \<Rightarrow> bool" where
  "all_keys_unusable c t = list_all (\<lambda>i. case key_entry_at t i of
      Some e \<Rightarrow> ks_unusable (ke_state e) | None \<Rightarrow> False) (key_choices c)"

end
