(* ===== verification/Json.thy ===== *)
theory Json
  imports Prelude
begin

text \<open>
  \<open>serde_json::Value\<close> as the sources use it.  The constructors are those the sources match on.
  A number is what the sources observe of it: its value as \<open>u64\<close> and as \<open>i64\<close>, if it has one, and
  its text.  An object is a \<open>BTreeMap\<close> (the crate is built without \<open>preserve_order\<close>): an
  association list in increasing byte order of the keys.  Parsing and printing stay parameters.
\<close>

record json_number =
  num_u64 :: "nat option"
  num_i64 :: "int option"
  num_text :: string

datatype json =
    JNull
  | JBool bool
  | JNumber json_number
  | JString string
  | JArray "json list"
  | JObject "(string \<times> json) list"

definition jget :: "string \<Rightarrow> json \<Rightarrow> json option" where
  "jget k v = (case v of JObject fs \<Rightarrow> map_of fs k | _ \<Rightarrow> None)"

definition as_str :: "json \<Rightarrow> string option" where
  "as_str v = (case v of JString s \<Rightarrow> Some s | _ \<Rightarrow> None)"

definition as_i64 :: "json \<Rightarrow> int option" where
  "as_i64 v = (case v of JNumber n \<Rightarrow> num_i64 n | _ \<Rightarrow> None)"

definition as_u64 :: "json \<Rightarrow> nat option" where
  "as_u64 v = (case v of JNumber n \<Rightarrow> num_u64 n | _ \<Rightarrow> None)"

definition as_bool :: "json \<Rightarrow> bool option" where
  "as_bool v = (case v of JBool b \<Rightarrow> Some b | _ \<Rightarrow> None)"

definition is_array :: "json \<Rightarrow> bool" where
  "is_array v = (case v of JArray _ \<Rightarrow> True | _ \<Rightarrow> False)"

text \<open>\<open>a.and_then(f)\<close>.\<close>

definition and_then :: "'a option \<Rightarrow> ('a \<Rightarrow> 'b option) \<Rightarrow> 'b option" where
  "and_then a f = (case a of None \<Rightarrow> None | Some x \<Rightarrow> f x)"

lemma and_then_simps [simp]: "and_then None f = None" "and_then (Some x) f = f x"
  by (simp_all add: and_then_def)

lemma and_then_eq_Some: "and_then a f = Some y \<longleftrightarrow> (\<exists>x. a = Some x \<and> f x = Some y)"
  by (cases a) auto

section \<open>Object updates\<close>

text \<open>Byte-wise order of keys and insertion at the key's place.\<close>

fun str_less :: "string \<Rightarrow> string \<Rightarrow> bool" where
  "str_less [] [] = False"
| "str_less [] (d # t) = True"
| "str_less (c # s) [] = False"
| "str_less (c # s) (d # t) = ((of_char c :: nat) < of_char d \<or> c = d \<and> str_less s t)"

fun obj_insert :: "string \<Rightarrow> json \<Rightarrow> (string \<times> json) list \<Rightarrow> (string \<times> json) list" where
  "obj_insert k v [] = [(k, v)]"
| "obj_insert k v ((k', v') # fs) =
     (if k = k' then (k, v) # fs
      else if str_less k k' then (k, v) # (k', v') # fs
      else (k', v') # obj_insert k v fs)"

definition obj_remove :: "string \<Rightarrow> (string \<times> json) list \<Rightarrow> (string \<times> json) list" where
  "obj_remove k fs = al_remove k fs"

lemma map_of_obj_insert [simp]: "map_of (obj_insert k v fs) = (map_of fs)(k \<mapsto> v)"
  by (induction k v fs rule: obj_insert.induct) auto

lemma map_of_obj_remove [simp]: "map_of (obj_remove k fs) = (map_of fs)(k := None)"
  by (simp add: obj_remove_def)

text \<open>An object as the crate keeps it: keys strictly increasing.\<close>

lemma str_less_irrefl [simp]: "\<not> str_less s s"
  by (induction s) auto

lemma str_less_trans: "str_less a b \<Longrightarrow> str_less b c \<Longrightarrow> str_less a c"
proof (induction a c arbitrary: b rule: str_less.induct)
  case (4 x s y t)
  then show ?case by (cases b) auto
qed (auto elim: str_less.elims)

lemma str_less_linear: "str_less a b \<or> a = b \<or> str_less b a"
proof (induction a b rule: str_less.induct)
  case (4 c s d t)
  have "(of_char c :: nat) = of_char d \<Longrightarrow> c = d" by (metis char_of_char)
  with 4 show ?case by (metis linorder_neqE_nat str_less.simps(4))
qed auto

definition sorted_keys :: "(string \<times> json) list \<Rightarrow> bool" where
  "sorted_keys fs = sorted_wrt str_less (map fst fs)"

lemma set_obj_insert: "fst ` set (obj_insert k v fs) = insert k (fst ` set fs)"
  by (induction k v fs rule: obj_insert.induct) auto

lemma sorted_obj_insert: "sorted_keys fs \<Longrightarrow> sorted_keys (obj_insert k v fs)"
proof (induction k v fs rule: obj_insert.induct)
  case (2 k v k' v' fs)
  show ?case
  proof (cases "k = k' \<or> str_less k k'")
    case True
    with 2 show ?thesis by (auto simp: sorted_keys_def intro: str_less_trans)
  next
    case False
    then have "str_less k' k" using str_less_linear by blast
    moreover from False 2 have "sorted_keys (obj_insert k v fs)" by (simp add: sorted_keys_def)
    moreover have "\<forall>x \<in> fst ` set fs. str_less k' x" using 2 by (auto simp: sorted_keys_def)
    ultimately show ?thesis using False set_obj_insert [of k v fs]
      by (auto simp: sorted_keys_def)
  qed
qed (simp add: sorted_keys_def)

end
