(* ===== verification/RateLimit.thy ===== *)
theory RateLimit
  imports RouterState Json
begin

text \<open>
  \<open>src/rate_limit.rs\<close>: classification of upstream errors and retry hints.  Parsing of JSON and
  of HTTP dates are parameters (fields of \<open>externals\<close>); a header map is the lookup
  of a header's first value as text (\<open>None\<close> when absent or not visible ASCII).
\<close>

type_synonym headers = "string \<Rightarrow> string option"

record externals =
  x_parse_json :: "string \<Rightarrow> json option"
  x_render_json :: "json \<Rightarrow> string option"
  x_http_date :: "string \<Rightarrow> instant option"

datatype error_class =
  RateLimited | QuotaExhausted | Authentication | Permission | InvalidRequest | NotFound
| QueueTimeout | ServerTransient | TransportTransient | StreamInterrupted | Unknown

fun class_as_str :: "error_class \<Rightarrow> string" where
  "class_as_str RateLimited = ''rate_limited''"
| "class_as_str QuotaExhausted = ''quota_exhausted''"
| "class_as_str Authentication = ''authentication''"
| "class_as_str Permission = ''permission''"
| "class_as_str InvalidRequest = ''invalid_request''"
| "class_as_str NotFound = ''not_found''"
| "class_as_str QueueTimeout = ''queue_timeout''"
| "class_as_str ServerTransient = ''server_transient''"
| "class_as_str TransportTransient = ''transport_transient''"
| "class_as_str StreamInterrupted = ''stream_interrupted''"
| "class_as_str Unknown = ''unknown''"

datatype hint_source = RetryAfterHeader | StructuredJson | HumanText | Fallback

fun source_as_str :: "hint_source \<Rightarrow> string" where
  "source_as_str RetryAfterHeader = ''retry_after_header''"
| "source_as_str StructuredJson = ''structured_json''"
| "source_as_str HumanText = ''human_text''"
| "source_as_str Fallback = ''fallback''"

datatype reason =
  Http429RateLimit | ResourceExhaustedCode | ExplicitQuotaEvidence
| ExplicitQuotaEvidenceOffStatus | HttpStatus | UnknownBody

fun reason_as_str :: "reason \<Rightarrow> string" where
  "reason_as_str Http429RateLimit = ''http_429''"
| "reason_as_str ResourceExhaustedCode = ''resource_exhausted_code''"
| "reason_as_str ExplicitQuotaEvidence = ''explicit_quota_evidence''"
| "reason_as_str ExplicitQuotaEvidenceOffStatus = ''explicit_quota_evidence_off_429''"
| "reason_as_str HttpStatus = ''http_status''"
| "reason_as_str UnknownBody = ''unknown_body''"

record retry_hint =
  rh_duration :: duration
  rh_source :: hint_source

record classified =
  cl_class :: error_class
  cl_retry_hint :: "retry_hint option"
  cl_quota_group_exhausted :: bool
  cl_reason :: reason
  cl_numeric_code :: "int option"
  cl_error_kind :: "string option"

section \<open>Durations in text\<close>

definition duration_with_cap :: "duration \<Rightarrow> duration option" where
  "duration_with_cap d = (if d \<le> max_parsed_cooldown then Some d else None)"

definition digit_value :: "char \<Rightarrow> nat" where "digit_value c = of_char c - 48"

definition digits_value :: "string \<Rightarrow> nat" where
  "digits_value ds = fold (\<lambda>c n. n * 10 + digit_value c) ds 0"

text \<open>\<open>str::parse\<close> for an unsigned type with a largest value: an optional plus, digits, no overflow.\<close>

definition parse_unsigned :: "nat \<Rightarrow> string \<Rightarrow> nat option" where
  "parse_unsigned limit s =
     (let ds = (case s of c # r \<Rightarrow> if c = CHR ''+'' then r else s | [] \<Rightarrow> [])
      in if ds \<noteq> [] \<and> list_all is_ascii_digit ds \<and> digits_value ds \<le> limit
         then Some (digits_value ds) else None)"

definition parse_retry_after_header :: "externals \<Rightarrow> instant \<Rightarrow> string \<Rightarrow> duration option" where
  "parse_retry_after_header x wall input =
     (let s = trim input in case parse_unsigned u64_max s of
        Some secs \<Rightarrow> duration_with_cap (from_secs secs)
      | None \<Rightarrow> and_then (x_http_date x s) (\<lambda>due. duration_with_cap (due - wall)))"

definition unit_at :: "string \<Rightarrow> (nat \<times> nat) option" where
  "unit_at s = (if starts_with ''ms'' s then Some (1, 2)
     else (case s of [] \<Rightarrow> None
       | c # _ \<Rightarrow> if c = CHR ''d'' then Some (86400000, 1)
           else if c = CHR ''h'' then Some (3600000, 1)
           else if c = CHR ''m'' then Some (60000, 1)
           else if c = CHR ''s'' then Some (1000, 1) else None))"

definition skip_separators :: "string \<Rightarrow> string" where
  "skip_separators = dropWhile (\<lambda>c. is_ascii_whitespace c \<or> c = CHR '','')"

definition checked_mul128 :: "nat \<Rightarrow> nat \<Rightarrow> nat option" where
  "checked_mul128 a b = (if a * b \<le> u128_max then Some (a * b) else None)"

definition checked_add128 :: "nat \<Rightarrow> nat \<Rightarrow> nat option" where
  "checked_add128 a b = (if a + b \<le> u128_max then Some (a + b) else None)"

text \<open>
  The component loop: \<open>Some (total, components)\<close> when it stops, \<open>None\<close> on a number that
  overflows (the \<open>?\<close> operators).
\<close>

function parse_components :: "string \<Rightarrow> nat \<Rightarrow> nat \<Rightarrow> (nat \<times> nat) option" where
  "parse_components s total_ms components =
     (let s1 = skip_separators s in
      if s1 = [] \<or> \<not> is_ascii_digit (hd s1) then Some (total_ms, components)
      else
        let ds = takeWhile is_ascii_digit s1;
            s3 = dropWhile is_ascii_whitespace (dropWhile is_ascii_digit s1)
        in if u128_max < digits_value ds then None
           else (case unit_at s3 of
               None \<Rightarrow> Some (total_ms, components)
             | Some (unit_ms, unit_len) \<Rightarrow>
                 and_then (checked_mul128 (digits_value ds) unit_ms) (\<lambda>part.
                 and_then (checked_add128 total_ms part) (\<lambda>total'.
                   parse_components (drop unit_len s3) total' (Suc components)))))"
  by pat_completeness auto
termination
proof (relation "measure (\<lambda>(s, t, c). length s)")
  fix s s1 ds s3 p unit_ms unit_len part total' components and total_ms :: nat
  assume s1: "s1 = skip_separators s" and ne: "\<not> (s1 = [] \<or> \<not> is_ascii_digit (hd s1))"
    and s3: "s3 = dropWhile is_ascii_whitespace (dropWhile is_ascii_digit s1)"
  have "length (dropWhile is_ascii_digit s1) < length s1"
    using ne length_dropWhile_le [of is_ascii_digit "tl s1"] by (cases s1) auto
  moreover have "length s3 \<le> length (dropWhile is_ascii_digit s1)"
    unfolding s3 by (rule length_dropWhile_le)
  moreover have "length s1 \<le> length s" unfolding s1 skip_separators_def by (rule length_dropWhile_le)
  ultimately have "length s3 < length s" by linarith
  then show "((drop unit_len s3, total', Suc components), s, total_ms, components)
      \<in> measure (\<lambda>(s, t, c). length s)" by simp
qed simp

declare parse_components.simps [simp del]

definition retry_markers :: "string list" where
  "retry_markers = [''try again in'', ''retry after'', ''retry in'']"

text \<open>The text after the first marker (in the order of the list) that occurs, or the whole text.\<close>

fun after_marker :: "string list \<Rightarrow> string \<Rightarrow> string" where
  "after_marker [] s = s"
| "after_marker (m # ms) s = (case after_first m s of Some r \<Rightarrow> r | None \<Rightarrow> after_marker ms s)"

definition parse_retry_duration :: "string \<Rightarrow> duration option" where
  "parse_retry_duration input =
     (let cand = trim_start (after_marker retry_markers (to_ascii_lowercase input))
      in if starts_with ''-'' cand then None
         else and_then (parse_components cand 0 0) (\<lambda>(total_ms, components).
           if components = 0 then None
           else if total_ms \<le> u64_max then duration_with_cap (from_millis total_ms) else None))"

section \<open>Retry fields in JSON\<close>

definition normalized_field :: "string \<Rightarrow> string" where
  "normalized_field name = filter (\<lambda>c. c \<noteq> CHR ''-'' \<and> c \<noteq> CHR ''_'') (to_ascii_lowercase name)"

definition is_retry_field :: "string \<Rightarrow> bool" where
  "is_retry_field f = (f \<in> set [''retryafter'', ''retryafterseconds'', ''retryin'', ''retryinseconds'',
      ''retryafterms'', ''retryinms'', ''cooldown'', ''cooldownseconds''])"

definition field_duration :: "string \<Rightarrow> json \<Rightarrow> duration option" where
  "field_duration name v =
     (let f = normalized_field name; milliseconds = (f = ''retryafterms'' \<or> f = ''retryinms'')
      in if is_retry_field f
         then (case v of
             JNumber n \<Rightarrow> and_then (num_u64 n) (\<lambda>amount.
                duration_with_cap (if milliseconds then from_millis amount else from_secs amount))
           | JString s \<Rightarrow> parse_retry_duration s
           | _ \<Rightarrow> None)
         else None)"

text \<open>The first loop of the object case: the first direct retry field with a usable value.\<close>

fun direct_retry :: "(string \<times> json) list \<Rightarrow> duration option" where
  "direct_retry [] = None"
| "direct_retry ((name, v) # fs) = (case field_duration name v of Some d \<Rightarrow> Some d | None \<Rightarrow> direct_retry fs)"

fun structured_retry_duration :: "json \<Rightarrow> duration option"
and structured_values :: "(string \<times> json) list \<Rightarrow> duration option"
and structured_items :: "json list \<Rightarrow> duration option" where
  "structured_retry_duration (JObject fs) =
     (case direct_retry fs of Some d \<Rightarrow> Some d | None \<Rightarrow> structured_values fs)"
| "structured_retry_duration (JArray vs) = structured_items vs"
| "structured_retry_duration _ = None"
| "structured_values [] = None"
| "structured_values ((k, v) # fs) =
     (case structured_retry_duration v of Some d \<Rightarrow> Some d | None \<Rightarrow> structured_values fs)"
| "structured_items [] = None"
| "structured_items (v # vs) =
     (case structured_retry_duration v of Some d \<Rightarrow> Some d | None \<Rightarrow> structured_items vs)"

definition retry_hint :: "externals \<Rightarrow> instant \<Rightarrow> headers \<Rightarrow> string \<Rightarrow> json option \<Rightarrow> duration \<Rightarrow> retry_hint" where
  "retry_hint x wall hs message body fallback =
     (case and_then (hs ''retry-after'') (parse_retry_after_header x wall) of
        Some d \<Rightarrow> \<lparr>rh_duration = d, rh_source = RetryAfterHeader\<rparr>
      | None \<Rightarrow> (case and_then body structured_retry_duration of
          Some d \<Rightarrow> \<lparr>rh_duration = d, rh_source = StructuredJson\<rparr>
        | None \<Rightarrow> (case parse_retry_duration message of
            Some d \<Rightarrow> \<lparr>rh_duration = d, rh_source = HumanText\<rparr>
          | None \<Rightarrow> \<lparr>rh_duration = min fallback max_parsed_cooldown, rh_source = Fallback\<rparr>)))"

section \<open>Evidence in the body\<close>

definition utf8_bytes :: "nat list \<Rightarrow> string" where "utf8_bytes = map char_of"

text \<open>The last four are the Chinese phrases, in UTF-8.\<close>

definition quota_phrases :: "string list" where
  "quota_phrases = [''free_quota_exhausted'', ''free quota exhausted'', ''quota exhausted'',
     ''quota_exhausted'', ''quota has been exhausted'', ''quota exceeded'', ''insufficient quota'',
     utf8_bytes [0xE9, 0xA2, 0x9D, 0xE5, 0xBA, 0xA6, 0xE5, 0xB7, 0xB2, 0xE8, 0x80, 0x97, 0xE5, 0xB0, 0xBD],
     utf8_bytes [0xE7, 0xA7, 0xAF, 0xE5, 0x88, 0x86, 0xE5, 0xB7, 0xB2, 0xE8, 0x80, 0x97, 0xE5, 0xB0, 0xBD],
     utf8_bytes [0xE7, 0xA7, 0xAF, 0xE5, 0x88, 0x86, 0xE4, 0xB8, 0x8D, 0xE8, 0xB6, 0xB3],
     utf8_bytes [0xE4, 0xBD, 0x99, 0xE9, 0xA2, 0x9D, 0xE4, 0xB8, 0x8D, 0xE8, 0xB6, 0xB3]]"

definition is_explicit_quota_exhaustion :: "string \<Rightarrow> bool" where
  "is_explicit_quota_exhaustion message =
     list_ex (\<lambda>phrase. contains_str phrase (to_ascii_lowercase message)) quota_phrases"

definition error_kind_marker :: "json \<Rightarrow> string option" where
  "error_kind_marker v = (case v of
      JObject fs \<Rightarrow>
        (case and_then (and_then (map_of fs ''error'') (jget ''type'')) as_str of
           Some kind \<Rightarrow> Some kind
         | None \<Rightarrow> and_then (map_of fs ''error_key'') as_str)
    | _ \<Rightarrow> None)"

definition numeric_error_code :: "json \<Rightarrow> int option" where
  "numeric_error_code v = and_then (and_then (jget ''error'' v) (jget ''code'')) as_i64"

definition first_text :: "(string \<times> json) list \<Rightarrow> string option" where
  "first_text fs = (case and_then (map_of fs ''message'') as_str of Some s \<Rightarrow> Some s
     | None \<Rightarrow> (case and_then (map_of fs ''detail'') as_str of Some s \<Rightarrow> Some s
     | None \<Rightarrow> and_then (map_of fs ''error_description'') as_str))"

fun extract_error_message :: "json \<Rightarrow> string option"
and extract_from_error :: "(string \<times> json) list \<Rightarrow> string option" where
  "extract_error_message (JString s) = Some s"
| "extract_error_message (JObject fs) =
     (case first_text fs of Some s \<Rightarrow> Some s | None \<Rightarrow> extract_from_error fs)"
| "extract_error_message _ = None"
| "extract_from_error [] = None"
| "extract_from_error ((k, v) # fs) = (if k = ''error'' then extract_error_message v else extract_from_error fs)"

definition error_message_of :: "json option \<Rightarrow> string \<Rightarrow> string" where
  "error_message_of value body = (case and_then value extract_error_message of
      Some s \<Rightarrow> s
    | None \<Rightarrow> trim (from_utf8_lossy body))"

section \<open>Classification\<close>

definition verdict :: "nat \<Rightarrow> bool \<Rightarrow> int option \<Rightarrow> error_class \<times> bool \<times> reason" where
  "verdict status explicit_quota numeric_code =
     (if status = 429 then
        (if explicit_quota then (QuotaExhausted, True, ExplicitQuotaEvidence)
         else if numeric_code = Some 8 then (RateLimited, False, ResourceExhaustedCode)
         else (RateLimited, False, Http429RateLimit))
      else if status = 401 then (Authentication, False, HttpStatus)
      else if status = 403 then (Permission, False, HttpStatus)
      else if status \<in> set [400, 405, 413, 422] then (InvalidRequest, False, HttpStatus)
      else if status = 404 then (NotFound, False, HttpStatus)
      else if status = 408 then (QueueTimeout, False, HttpStatus)
      else if status \<in> set [500, 502, 503, 504] then (ServerTransient, False, HttpStatus)
      else if explicit_quota then (QuotaExhausted, True, ExplicitQuotaEvidenceOffStatus)
      else (Unknown, False, UnknownBody))"

definition classify_upstream_error :: "externals \<Rightarrow> instant \<Rightarrow> nat \<Rightarrow> headers \<Rightarrow> string \<Rightarrow> duration \<Rightarrow> classified" where
  "classify_upstream_error x wall status hs body fallback =
     (let value = x_parse_json x body;
          message = error_message_of value body;
          code = and_then value numeric_error_code
      in (case verdict status (is_explicit_quota_exhaustion message) code of (cls, exhausted, why) \<Rightarrow>
           \<lparr>cl_class = cls,
            cl_retry_hint = (if cls = RateLimited \<or> cls = QuotaExhausted
               then Some (retry_hint x wall hs message value fallback) else None),
            cl_quota_group_exhausted = exhausted, cl_reason = why, cl_numeric_code = code,
            cl_error_kind = and_then value error_kind_marker\<rparr>))"

text \<open>\<open>transport_error_class\<close> over the predicates of a transport error.\<close>

record transport_error =
  te_timeout :: bool
  te_connect :: bool
  te_body :: bool
  te_decode :: bool
  te_request :: bool

definition transport_error_class :: "transport_error \<Rightarrow> string" where
  "transport_error_class e =
     (if te_timeout e then ''timeout'' else if te_connect e then ''connect''
      else if te_body e \<or> te_decode e then ''body'' else if te_request e then ''request''
      else ''transport'')"

end
