(* ===== verification/ClassifyFacts.thy ===== *)
theory ClassifyFacts
  imports RateLimit
begin

text \<open>
  Classification of upstream errors: what counts as quota evidence, the bounds of every retry
  hint, and the durations that upstream messages spell out.
\<close>

section \<open>Bounds of parsed durations\<close>

lemma duration_with_cap_le: "duration_with_cap d = Some e \<Longrightarrow> e \<le> max_parsed_cooldown"
  by (auto simp: duration_with_cap_def split: if_splits)

lemma and_then_Some: "and_then x f = Some y \<longleftrightarrow> (\<exists>a. x = Some a \<and> f a = Some y)"
  by (cases x) (simp_all add: and_then_def)

lemma parse_retry_duration_le: "parse_retry_duration s = Some d \<Longrightarrow> d \<le> max_parsed_cooldown"
  by (auto simp: parse_retry_duration_def Let_def and_then_Some duration_with_cap_le split: if_splits prod.splits)

lemma parse_retry_after_header_le: "parse_retry_after_header x w s = Some d \<Longrightarrow> d \<le> max_parsed_cooldown"
  by (auto simp: parse_retry_after_header_def Let_def and_then_Some duration_with_cap_le split: option.splits)

lemma field_duration_le: "field_duration name v = Some d \<Longrightarrow> d \<le> max_parsed_cooldown"
  by (auto simp: field_duration_def Let_def and_then_Some duration_with_cap_le parse_retry_duration_le
      split: if_splits json.splits)

lemma direct_retry_le: "direct_retry fs = Some d \<Longrightarrow> d \<le> max_parsed_cooldown"
  by (induction fs rule: direct_retry.induct) (auto simp: field_duration_le split: option.splits)

lemma structured_le:
  "structured_retry_duration v = Some d \<Longrightarrow> d \<le> max_parsed_cooldown"
  "structured_values fs = Some d \<Longrightarrow> d \<le> max_parsed_cooldown"
  "structured_items vs = Some d \<Longrightarrow> d \<le> max_parsed_cooldown"
  by (induction v and fs and vs rule: structured_retry_duration_structured_values_structured_items.induct)
    (auto simp: direct_retry_le split: option.splits)

lemma retry_hint_le: "rh_duration (retry_hint x w hs msg body fb) \<le> max_parsed_cooldown"
  by (auto simp: retry_hint_def and_then_Some parse_retry_after_header_le structured_le parse_retry_duration_le
      split: option.splits)

section \<open>Printing durations\<close>

datatype time_unit = Days | Hours | Minutes | Seconds | Millis

fun unit_text :: "time_unit \<Rightarrow> string" where
  "unit_text Days = ''d''"
| "unit_text Hours = ''h''"
| "unit_text Minutes = ''m''"
| "unit_text Seconds = ''s''"
| "unit_text Millis = ''ms''"

fun unit_millis :: "time_unit \<Rightarrow> nat" where
  "unit_millis Days = 86400000"
| "unit_millis Hours = 3600000"
| "unit_millis Minutes = 60000"
| "unit_millis Seconds = 1000"
| "unit_millis Millis = 1"

text \<open>\<open>2h 30m\<close>: the components in order, each a number and a unit, a space between them.\<close>

fun render_components :: "(nat \<times> time_unit) list \<Rightarrow> string" where
  "render_components [] = []"
| "render_components [(n, u)] = decimal n @ unit_text u"
| "render_components ((n, u) # c # cs) = decimal n @ unit_text u @ '' '' @ render_components (c # cs)"

definition total_millis :: "(nat \<times> time_unit) list \<Rightarrow> nat" where
  "total_millis cs = (\<Sum>(n, u) \<leftarrow> cs. n * unit_millis u)"

lemma total_millis_simps [simp]:
  "total_millis [] = 0" "total_millis ((n, u) # cs) = n * unit_millis u + total_millis cs"
  by (simp_all add: total_millis_def)

lemma digit_char: "n < 10 \<Longrightarrow> of_char (char_of (48 + n) :: char) = (48 + n :: nat)"
  by simp

lemma digit_is_digit: "n < 10 \<Longrightarrow> is_ascii_digit (char_of (48 + n :: nat))"
  by (simp add: is_ascii_digit_def Let_def)

lemma decimal_digits: "list_all is_ascii_digit (decimal n)" "decimal n \<noteq> []"
proof (induction n rule: decimal.induct)
  case (1 n)
  { case 1 show ?case using "1.IH" by (subst decimal.simps) (auto simp: digit_is_digit)
  next case 2 show ?case by (subst decimal.simps) auto }
qed

lemma digits_value_snoc: "digits_value (ds @ [c]) = digits_value ds * 10 + digit_value c"
  by (simp add: digits_value_def)

lemma digits_value_decimal: "digits_value (decimal n) = n"
proof (induction n rule: decimal.induct)
  case (1 n)
  show ?case
  proof (cases "n < 10")
    case True
    then show ?thesis by (subst decimal.simps) (simp add: digits_value_def digit_value_def)
  next
    case False
    then show ?thesis using 1 by (subst decimal.simps) (simp add: digits_value_snoc digit_value_def)
  qed
qed

lemma digit_not_space: "is_ascii_digit c \<Longrightarrow> \<not> is_ascii_whitespace c \<and> c \<noteq> CHR '',''"
  by (auto simp: is_ascii_digit_def is_ascii_whitespace_def Let_def)

lemma unit_text_head: "\<not> is_ascii_digit (hd (unit_text u @ rest)) \<and> \<not> is_ascii_whitespace (hd (unit_text u @ rest))"
  by (cases u) (simp_all add: is_ascii_digit_def is_ascii_whitespace_def Let_def)

lemma unit_text_ne: "unit_text u \<noteq> []" by (cases u) simp_all

lemma unit_at_text: "rest = [] \<or> hd rest = CHR '' '' \<Longrightarrow> unit_at (unit_text u @ rest) = Some (unit_millis u, length (unit_text u))"
  by (cases u; cases rest) (simp_all add: unit_at_def starts_with_def)

lemma parse_components_step:
  assumes "rest = [] \<or> hd rest = CHR '' ''" "t + n * unit_millis u \<le> u128_max" "n \<le> u128_max"
  shows "parse_components (decimal n @ unit_text u @ rest) t c = parse_components rest (t + n * unit_millis u) (Suc c)"
proof -
  let ?s = "decimal n @ unit_text u @ rest"
  obtain d ds where ds: "decimal n = d # ds" "is_ascii_digit d"
    using decimal_digits [of n] by (cases "decimal n") auto
  have skip: "skip_separators ?s = ?s" using ds digit_not_space by (simp add: skip_separators_def)
  have stop: "takeWhile is_ascii_digit (unit_text u @ rest) = []" "dropWhile is_ascii_digit (unit_text u @ rest) = unit_text u @ rest"
    "dropWhile is_ascii_whitespace (unit_text u @ rest) = unit_text u @ rest"
    using unit_text_head [of u rest] unit_text_ne [of u] by (cases "unit_text u"; simp)+
  have h: "?s \<noteq> []" "is_ascii_digit (hd ?s)" using ds by simp_all
  have all: "\<forall>x \<in> set (decimal n). is_ascii_digit x" using decimal_digits(1) by (simp add: list_all_iff)
  have tk: "takeWhile is_ascii_digit ?s = decimal n" "dropWhile is_ascii_digit ?s = unit_text u @ rest"
    using all stop by (simp_all add: takeWhile_append dropWhile_append)
  have "n * unit_millis u \<le> u128_max" using assms(2) by linarith
  then show ?thesis
    using h decimal_digits(2) [of n] assms(2,3) tk stop(3) unit_at_text [OF assms(1)]
    by (subst parse_components.simps)
      (simp add: Let_def skip digits_value_decimal checked_mul128_def checked_add128_def and_then_def)
qed

lemma parse_components_space: "parse_components (CHR '' '' # s) t c = parse_components s t c"
  by (subst (1 2) parse_components.simps) (simp add: skip_separators_def is_ascii_whitespace_def)

lemma parse_components_Nil: "parse_components [] t c = Some (t, c)"
  by (subst parse_components.simps) (simp add: skip_separators_def)

lemma unit_millis_pos: "0 < unit_millis u" by (cases u) simp_all

lemma parse_render:
  "t + total_millis cs \<le> u128_max \<Longrightarrow> parse_components (render_components cs) t c = Some (t + total_millis cs, c + length cs)"
proof (induction cs arbitrary: t c rule: render_components.induct)
  case (2 n u)
  then have "n \<le> u128_max" using unit_millis_pos [of u] by (simp add: order_trans [of n "n * unit_millis u"])
  with 2 show ?case using parse_components_step [of "[]" t n u c] by (simp add: parse_components_Nil)
next
  case (3 n u d cs)
  have b: "t + n * unit_millis u \<le> u128_max" using 3(2) by simp
  then have "n \<le> u128_max" using unit_millis_pos [of u] by (simp add: order_trans [of n "n * unit_millis u"])
  with b have "parse_components (render_components ((n, u) # d # cs)) t c
      = parse_components (render_components (d # cs)) (t + n * unit_millis u) (Suc c)"
    using parse_components_step [of "'' '' @ render_components (d # cs)" t n u c]
    by (simp add: parse_components_space)
  with 3 show ?case by (simp add: add.assoc)
qed (simp add: parse_components_Nil)

lemma lower_text: "list_all (\<lambda>c. \<not> (65 \<le> byte c \<and> byte c \<le> 90)) s \<Longrightarrow> to_ascii_lowercase s = s"
  by (induction s) (auto simp: to_ascii_lowercase_def ascii_lower_def byte_def Let_def)

text \<open>What a rendered duration is made of: lower-case letters, digits and spaces, a digit first.\<close>

definition plain_char :: "char \<Rightarrow> bool" where
  "plain_char c = (byte c < 128 \<and> \<not> (65 \<le> byte c \<and> byte c \<le> 90))"

lemma decimal_plain: "list_all plain_char (decimal n)"
  using decimal_digits(1) [of n] by (auto simp: list_all_iff is_ascii_digit_def plain_char_def byte_def Let_def)

lemma unit_plain: "list_all plain_char (unit_text u)" "plain_char (CHR '' '')"
  by (cases u) (simp_all add: plain_char_def byte_def)

lemma render_plain: "list_all plain_char (render_components cs)"
  by (induction cs rule: render_components.induct) (simp_all add: decimal_plain unit_plain)

lemma plain_ascii: "list_all plain_char s \<Longrightarrow> is_ascii s"
  by (simp add: is_ascii_def plain_char_def list_all_iff)

lemma render_head: "cs \<noteq> [] \<Longrightarrow> \<exists>d r. render_components cs = d # r \<and> is_ascii_digit d"
proof (induction cs rule: render_components.induct)
  case (2 n u)
  then show ?case using decimal_digits [of n] by (cases "decimal n") auto
next
  case (3 n u d cs)
  then show ?case using decimal_digits [of n] by (cases "decimal n") auto
qed simp

lemma trim_start_ascii: "is_ascii s \<Longrightarrow> trim_start s = dropWhile (\<lambda>c. is_whitespace [c]) s"
  by (simp add: trim_start_def utf8_chars_ascii dropWhile_map comp_def)

lemma whitespace_one: "is_whitespace [c] = (9 \<le> byte c \<and> byte c \<le> 13 \<or> byte c = 32)"
  by (simp add: is_whitespace_def)

lemma trim_start_space:
  assumes "is_ascii (d # r)" "is_ascii_digit d"
  shows "trim_start (CHR '' '' # d # r) = d # r"
proof -
  have "is_ascii (CHR '' '' # d # r)" using assms(1) by (simp add: is_ascii_def byte_def)
  then show ?thesis using assms(2)
    by (auto simp: trim_start_ascii whitespace_one byte_def is_ascii_digit_def Let_def)
qed

section \<open>The properties\<close>

text \<open>C25: Quota evidence.  A whole quota group is only declared exhausted on an explicit phrase in
  the answer, and never for a status that has a meaning of its own (400, 401, 403, 404, 405, 408,
  413, 422, 500, 502, 503, 504); a 429 without a phrase only limits its route; and exactly these
  two classes carry a retry hint.\<close>

theorem quota_needs_evidence:
  defines "evidence \<equiv> \<lambda>x body. is_explicit_quota_exhaustion (error_message_of (x_parse_json x body) body)"
  shows "(cl_class (classify_upstream_error x wall status hs body fb) = QuotaExhausted)
      = (evidence x body \<and> status \<notin> set [400, 401, 403, 404, 405, 408, 413, 422, 500, 502, 503, 504])
    \<and> cl_quota_group_exhausted (classify_upstream_error x wall status hs body fb)
      = (cl_class (classify_upstream_error x wall status hs body fb) = QuotaExhausted)
    \<and> (cl_class (classify_upstream_error x wall status hs body fb) = RateLimited) = (status = 429 \<and> \<not> evidence x body)
    \<and> (cl_retry_hint (classify_upstream_error x wall status hs body fb) = None)
      = (cl_class (classify_upstream_error x wall status hs body fb) \<notin> {RateLimited, QuotaExhausted})"
  unfolding classify_upstream_error_def evidence_def Let_def verdict_def by auto

text \<open>Bounds of a hint.  Whatever an upstream sends as a header, a JSON field or a text, the
  hint is at most 366 days, a usable header wins, and the configured fallback is only used
  when the header, the JSON fields and the text say nothing usable.\<close>

theorem retry_hints_bounded:
  assumes "cl_retry_hint (classify_upstream_error x wall status hs body fb) = Some h"
  shows "rh_duration h \<le> max_parsed_cooldown
    \<and> (rh_source h = RetryAfterHeader) = (and_then (hs ''retry-after'') (parse_retry_after_header x wall) \<noteq> None)
    \<and> (rh_source h = Fallback) = (and_then (hs ''retry-after'') (parse_retry_after_header x wall) = None
          \<and> and_then (x_parse_json x body) structured_retry_duration = None
          \<and> parse_retry_duration (error_message_of (x_parse_json x body) body) = None)"
proof -
  let ?v = "x_parse_json x body"
  have h: "h = retry_hint x wall hs (error_message_of ?v body) ?v fb"
    using assms by (auto simp: classify_upstream_error_def Let_def split: prod.splits if_splits)
  have "rh_duration h \<le> max_parsed_cooldown" unfolding h by (rule retry_hint_le)
  moreover have "(rh_source h = RetryAfterHeader) = (and_then (hs ''retry-after'') (parse_retry_after_header x wall) \<noteq> None)"
    unfolding h retry_hint_def by (simp split: option.splits)
  moreover have "(rh_source h = Fallback) = (and_then (hs ''retry-after'') (parse_retry_after_header x wall) = None
      \<and> and_then ?v structured_retry_duration = None \<and> parse_retry_duration (error_message_of ?v body) = None)"
    unfolding h retry_hint_def by (simp split: option.splits)
  ultimately show ?thesis by blast
qed

text \<open>C37: Durations in text.  Any duration written as days, hours, minutes, seconds and
  milliseconds in any order and number is read back exactly, up to the cap of 366 days.\<close>

theorem retry_text_roundtrip:
  assumes "cs \<noteq> []" and "from_millis (total_millis cs) \<le> max_parsed_cooldown"
  shows "parse_retry_duration (''Try again in '' @ render_components cs) = Some (from_millis (total_millis cs))"
proof -
  have plain: "list_all plain_char (render_components cs)" by (rule render_plain)
  have "to_ascii_lowercase (render_components cs) = render_components cs"
    using plain by (intro lower_text) (simp add: list_all_iff plain_char_def)
  then have low: "to_ascii_lowercase (''Try again in '' @ render_components cs) = ''try again in'' @ '' '' @ render_components cs"
  proof -
    have "to_ascii_lowercase ''Try again in '' = ''try again in '' " by code_simp
    with \<open>to_ascii_lowercase (render_components cs) = _\<close> show ?thesis by (simp add: to_ascii_lowercase_def)
  qed
  obtain d r where d: "render_components cs = d # r" "is_ascii_digit d" using render_head [OF assms(1)] by blast
  have cand: "trim_start (after_marker retry_markers (''try again in'' @ '' '' @ render_components cs)) = render_components cs"
    using trim_start_space [of d r] plain_ascii [OF plain] d
    by (simp add: retry_markers_def starts_with_def)
  have bound: "total_millis cs \<le> u64_max" "0 + total_millis cs \<le> u128_max"
    using assms(2) by (simp_all add: max_parsed_cooldown_def from_millis_def from_secs_def u64_max_def u128_max_def)
  have "\<not> starts_with ''-'' (render_components cs)"
    using d by (auto simp: starts_with_def is_ascii_digit_def)
  then show ?thesis
    using assms bound(1) parse_render [OF bound(2), of 0]
    unfolding parse_retry_duration_def low Let_def cand by (simp add: and_then_def duration_with_cap_def)
qed

theorem retry_text_roundtrip_witness:
  "parse_retry_duration (''Try again in '' @ render_components [(2, Hours), (30, Minutes)]) = Some (from_secs 9000)"
  using retry_text_roundtrip [of "[(2, Hours), (30, Minutes)]"]
  by (simp add: max_parsed_cooldown_def from_millis_def from_secs_def)

definition sample_externals :: externals where
  "sample_externals = \<lparr>x_parse_json = (\<lambda>s. None), x_render_json = (\<lambda>v. None), x_http_date = (\<lambda>s. None)\<rparr>"

lemma quota_evidence_429: "\<exists>h. cl_retry_hint (classify_upstream_error x wall 429 hs body fb) = Some h"
  by (simp add: classify_upstream_error_def Let_def verdict_def)

theorem retry_hints_bounded_witness:
  "\<exists>h. cl_retry_hint (classify_upstream_error sample_externals 0 429 (\<lambda>h. None) [] 7) = Some h
    \<and> rh_duration h \<le> max_parsed_cooldown"
proof -
  obtain h where "cl_retry_hint (classify_upstream_error sample_externals 0 429 (\<lambda>h. None) [] 7) = Some h"
    using quota_evidence_429 by blast
  with retry_hints_bounded [OF this] show ?thesis by blast
qed

end
