(* ===== verification/RouterPlan.thy ===== *)
theory RouterPlan
  imports RouterState
begin

text \<open>
  \<open>src/router.rs\<close>, the planner: candidates per (model, quota group), the health gates
  (\<open>dialability\<close>), scoring, ordering, and \<open>plan\<close>, which walks the quality tiers.

  Clock readings.  \<open>plan\<close> reads the clock once at its start and again while it picks the
  credential of the chosen candidate; the two readings are the parameters \<open>now\<close> and \<open>now2\<close>.
\<close>

section \<open>Candidates\<close>

text \<open>The credentials of each group, groups in order of first appearance (\<open>by_group\<close>).\<close>

fun push_group :: "string \<Rightarrow> nat \<Rightarrow> (string \<times> nat list) list \<Rightarrow> (string \<times> nat list) list" where
  "push_group g i [] = [(g, [i])]"
| "push_group g i ((h, is) # gs) = (if h = g then (h, is @ [i]) # gs else (h, is) # push_group g i gs)"

definition by_group :: "key_entry list \<Rightarrow> (string \<times> nat list) list" where
  "by_group ks = fold (\<lambda>k gs. push_group (ke_group k) (ke_index k) gs) ks []"

definition candidate_at :: "64 word \<Rightarrow> string \<Rightarrow> nat \<Rightarrow> string \<times> nat list \<Rightarrow> candidate" where
  "candidate_at rotation m ordinal g = (case g of (grp, indexes) \<Rightarrow>
     (let a = indexes ! (unat rotation mod length indexes)
      in \<lparr>c_model = m, c_model_hash = hash_name m, c_group = grp, c_group_hash = hash_name grp,
          c_a_index = a,
          c_b_index = (if 1 < length indexes
             then Some (indexes ! (unat (rotation + 1) mod length indexes)) else None),
          c_ordinal = (ordinal, a)\<rparr>))"

definition candidates_at :: "route_table \<Rightarrow> string \<Rightarrow> nat \<Rightarrow> candidate list" where
  "candidates_at t m ordinal = map (candidate_at (t_round_robin t) m ordinal) (by_group (t_keys t))"

definition candidates :: "route_table \<Rightarrow> string \<Rightarrow> candidate list" where
  "candidates t m = candidates_at t m 0"

text \<open>Every (model, group) pair of the profiles, first appearance of each pair of hashes only.\<close>

fun dedup_candidates :: "route_id set \<Rightarrow> candidate list \<Rightarrow> (string \<times> string) list" where
  "dedup_candidates seen [] = []"
| "dedup_candidates seen (c # cs) =
     (if c_route_id c \<in> seen then dedup_candidates seen cs
      else (c_model c, c_group c) # dedup_candidates (insert (c_route_id c) seen) cs)"

definition profile_models :: "profile_config \<Rightarrow> string list" where
  "profile_models p = concat (map tier_models (tiers p))"

definition all_candidates :: "route_table \<Rightarrow> (string \<times> string) list" where
  "all_candidates t = dedup_candidates {}
     (concat (map (candidates t) (concat (map (\<lambda>(name, p). profile_models p) (t_profiles t)))))"

section \<open>Health gates\<close>

text \<open>Whether any credential of a list is ready; stops at the first that is.\<close>

fun any_key_ready :: "nat list \<Rightarrow> instant \<Rightarrow> route_table \<Rightarrow> bool \<times> route_table" where
  "any_key_ready [] now t = (False, t)"
| "any_key_ready (i # is) now t = (case key_ready i now t of (r, t') \<Rightarrow>
     if r \<noteq> None then (True, t') else any_key_ready is now t')"

text \<open>The loop over the credentials: the first ready one wins, else the shortest cooldown.\<close>

fun dial_keys :: "nat list \<Rightarrow> instant \<Rightarrow> (nat \<times> duration) option \<Rightarrow> route_table
    \<Rightarrow> bool \<times> (nat \<times> duration) option \<times> route_table" where
  "dial_keys [] now best t = (False, best, t)"
| "dial_keys (i # is) now best t = (case key_ready i now t of (r, t1) \<Rightarrow>
     if r \<noteq> None then (True, best, t1)
     else (case key_cooling i now t1 of
         (None, t2) \<Rightarrow> dial_keys is now best t2
       | (Some rem, t2) \<Rightarrow> dial_keys is now (case best of
             Some (_, current) \<Rightarrow> if current \<le> rem then Some (i, current) else Some (i, rem)
           | None \<Rightarrow> Some (i, rem)) t2))"

text \<open>The last part of \<open>dialability\<close>: the half-open probe slot, then the credentials.\<close>

definition dial_probe :: "candidate \<Rightarrow> instant \<Rightarrow> bool \<Rightarrow> bool \<Rightarrow> route_table
    \<Rightarrow> (dialability \<times> (nat \<times> duration) option) \<times> route_table" where
  "dial_probe c now half_open probe t =
     (if half_open \<and> probe then ((Blocked ModelOpen, None), t)
      else (case dial_keys (key_choices c) now None t of
          (True, best, t') \<Rightarrow> ((Ready, best), t')
        | (False, Some (i, rem), t') \<Rightarrow> ((Cooling rem, Some (i, rem)), t')
        | (False, None, t') \<Rightarrow>
            if all_keys_unusable c t' then ((Blocked KeyUnusable, None), t')
            else ((Blocked KeyCooling, None), t')))"

definition dialability :: "candidate \<Rightarrow> instant \<Rightarrow> route_table
    \<Rightarrow> (dialability \<times> (nat \<times> duration) option) \<times> route_table" where
  "dialability c now t = (case model_view (c_model c) now t of (model, t1) \<Rightarrow>
     if mv_disabled model then ((Blocked ModelDisabled, None), t1)
     else
       let (half_open, open_until) = (case mv_state model of
               Open \<Rightarrow> (False, mv_open_until model)
             | HalfOpen \<Rightarrow> (True, None)
             | Closed \<Rightarrow> (False, None))
       in (case clear open_until now of
           Some u \<Rightarrow> ((Blocked ModelOpen, Some (c_a_index c, u - now)), t1)
         | None \<Rightarrow> (case route_view c now t1 of (view, t2) \<Rightarrow>
             if rv_disabled view then ((Blocked RouteDisabled, None), t2)
             else (case group_view (c_group c) now t2 of
                 (Some rem, t3) \<Rightarrow> ((Blocked QuotaGroupCooling, Some (c_a_index c, rem)), t3)
               | (None, t3) \<Rightarrow> (case rv_cooling view of
                     None \<Rightarrow> dial_probe c now half_open (mv_probe_in_flight model) t3
                   | Some rem \<Rightarrow> (case any_key_ready (key_choices c) now t3 of (sibling, t4) \<Rightarrow>
                       if \<not> (half_open \<and> sibling)
                       then ((Blocked RouteCooling, Some (c_a_index c, rem)), t4)
                       else dial_probe c now half_open (mv_probe_in_flight model) t4))))))"

section \<open>Scores and order\<close>

text \<open>The load of one credential; \<open>inflight * 1_000_000\<close> is a \<open>u64\<close> product.\<close>

definition key_score :: "bool \<Rightarrow> key_state \<Rightarrow> nat \<Rightarrow> nat" where
  "key_score lat s score =
     (let s1 = sat_add u64_max score ((ks_inflight s * 1000000) mod 2 ^ 64);
          s2 = sat_add u64_max s1 (ks_streak s * 100000)
      in if \<not> lat then s2
         else
           let s3 = (case ks_ttft_ms s of None \<Rightarrow> s2
                 | Some x \<Rightarrow> sat_add u64_max s2 (f64_to_nat (f64_clamp 0 60000 x)))
           in (case ks_latency_ms s of None \<Rightarrow> s3
                 | Some x \<Rightarrow> sat_add u64_max s3 (f64_to_nat (f64_div (f64_clamp 0 600000 x) 10))))"

definition score :: "route_table \<Rightarrow> candidate \<Rightarrow> route_id option \<Rightarrow> bool \<Rightarrow> nat" where
  "score t c affinity lat =
     (let base = fold (\<lambda>i acc. case key_entry_at t i of
            None \<Rightarrow> acc | Some e \<Rightarrow> key_score lat (ke_state e) acc) (key_choices c) 0
      in if affinity = Some (c_route_id c) then base - 1 else base)"

text \<open>
  The sort key: affinity first, then the score, then the model's place in its tier, then the
  rotated position.  \<open>sort_key\<close> is stable, as \<open>sort_by_key\<close> is.
\<close>

definition rank :: "route_id option \<Rightarrow> 64 word \<Rightarrow> nat \<Rightarrow> nat \<times> candidate \<times> nat \<Rightarrow> bool \<times> nat \<times> nat \<times> nat" where
  "rank affinity rotation count e = (case e of (position, c, sc) \<Rightarrow>
     (affinity \<noteq> Some (c_route_id c), sc, order_key c,
      unat (of_nat position + rotation) mod max count 1))"

definition order :: "(candidate \<times> nat) list \<Rightarrow> route_id option \<Rightarrow> 64 word \<Rightarrow> (candidate \<times> nat) list" where
  "order scored affinity rotation =
     map snd (sort_key (rank affinity rotation (length scored)) (enumerate 0 scored))"

section \<open>The scan of one tier\<close>

record scan =
  sc_available :: "(candidate \<times> nat) list"
  sc_wait :: "duration option"
  sc_hard_blocked :: bool
  sc_gate :: "gate_reason option"

definition all_skipped :: "identity set \<Rightarrow> candidate \<Rightarrow> bool" where
  "all_skipped skipped c = list_all (\<lambda>i. (c_model_hash c, c_group_hash c, i) \<in> skipped) (key_choices c)"

definition scan_candidate :: "identity set \<Rightarrow> route_id option \<Rightarrow> bool \<Rightarrow> instant \<Rightarrow> candidate
    \<Rightarrow> scan \<times> route_table \<Rightarrow> scan \<times> route_table" where
  "scan_candidate skipped affinity lat now c st = (case st of (s, t) \<Rightarrow>
     if all_skipped skipped c then (s, t)
     else (case dialability c now t of ((d, wait), t') \<Rightarrow> (case d of
         Ready \<Rightarrow> (s\<lparr>sc_available := sc_available s @ [(c, score t' c affinity lat)]\<rparr>, t')
       | Cooling rem \<Rightarrow> (s\<lparr>sc_wait := min_wait (sc_wait s) rem\<rparr>, t')
       | Blocked reason \<Rightarrow>
           let s' = s\<lparr>sc_gate := (case sc_gate s of None \<Rightarrow> Some reason | Some g \<Rightarrow> Some g)\<rparr>
           in (case wait of
               Some (_, rem) \<Rightarrow> (s'\<lparr>sc_wait := min_wait (sc_wait s') rem\<rparr>, t')
             | None \<Rightarrow> (s'\<lparr>sc_hard_blocked := True\<rparr>, t')))))"

text \<open>The candidates of a tier: its models in order, each over the groups.\<close>

definition tier_candidates :: "route_table \<Rightarrow> string list \<Rightarrow> candidate list" where
  "tier_candidates t ms = concat (map (\<lambda>(ordinal, m). candidates_at t m ordinal) (enumerate 0 ms))"

definition scan_tier :: "identity set \<Rightarrow> route_id option \<Rightarrow> bool \<Rightarrow> instant \<Rightarrow> gate_reason option
    \<Rightarrow> string list \<Rightarrow> route_table \<Rightarrow> scan \<times> route_table" where
  "scan_tier skipped affinity lat now gate ms t =
     fold (scan_candidate skipped affinity lat now) (tier_candidates t ms)
       (\<lparr>sc_available = [], sc_wait = None, sc_hard_blocked = False, sc_gate = gate\<rparr>, t)"

definition availability :: "scan \<Rightarrow> tier_availability" where
  "availability s = (case sc_wait s of Some wait \<Rightarrow> TemporarilyUnavailable wait | None \<Rightarrow> HardBlocked)"

section \<open>The plan\<close>

record plan =
  p_target :: route_target
  p_stepped_down :: nat
  p_gate :: "gate_reason option"
  p_next_alternative :: "duration option"

text \<open>\<open>Result<Plan, WaitablePlan>\<close>, and the panic of indexing the key table out of range.\<close>

datatype plan_result = Planned plan | Waitable "duration option" | PlanPanic

fun find_ready_key :: "nat list \<Rightarrow> instant \<Rightarrow> route_table \<Rightarrow> nat option \<times> route_table" where
  "find_ready_key [] now t = (None, t)"
| "find_ready_key (i # is) now t = (case key_ready i now t of (r, t') \<Rightarrow>
     if r \<noteq> None then (Some i, t') else find_ready_key is now t')"

definition target_of :: "candidate \<Rightarrow> nat \<Rightarrow> instant \<Rightarrow> route_table \<Rightarrow> route_target option \<times> route_table" where
  "target_of c tier now t = (case find_ready_key (key_choices c) now t of (r, t') \<Rightarrow>
     (map_option (\<lambda>e. \<lparr>rt_model = c_model c, rt_quota_group = c_group c,
          rt_key = new_selected_key (ke_index e) (ke_name e) (ke_group e) (ke_api_key e),
          rt_tier = tier\<rparr>)
        (key_entry_at t' (case r of Some i \<Rightarrow> i | None \<Rightarrow> c_a_index c)), t'))"

text \<open>A tier with a ready candidate: count, order, advance the rotation, build the target.\<close>

definition choose_route :: "nat \<Rightarrow> route_id option \<Rightarrow> instant \<Rightarrow> scan \<Rightarrow> route_table \<Rightarrow> metrics
    \<Rightarrow> plan_result \<times> route_table \<times> metrics" where
  "choose_route tier affinity now2 s t m =
     (let m1 = (if 0 < tier then m\<lparr>tier_steps_total := tier_steps_total m + 1\<rparr> else m);
          m2 = (if sc_gate s \<noteq> None then m1\<lparr>health_excluded_total := health_excluded_total m1 + 1\<rparr> else m1);
          chosen = fst (hd (order (sc_available s) affinity (t_round_robin t)));
          t1 = t\<lparr>t_round_robin := t_round_robin t + 1\<rparr>;
          m3 = (if affinity \<noteq> None \<and> Some (c_route_id chosen) = affinity
                then m2\<lparr>affinity_hits_total := affinity_hits_total m2 + 1\<rparr> else m2)
      in (case target_of chosen tier now2 t1 of
          (None, t2) \<Rightarrow> (PlanPanic, t2, m3)
        | (Some target, t2) \<Rightarrow>
            (Planned \<lparr>p_target = target, p_stepped_down = tier, p_gate = sc_gate s,
               p_next_alternative = sc_wait s\<rparr>, t2, m3)))"

fun plan_tiers :: "identity set \<Rightarrow> route_id option \<Rightarrow> bool \<Rightarrow> bool \<Rightarrow> instant \<Rightarrow> instant \<Rightarrow> nat
    \<Rightarrow> tier_config list \<Rightarrow> gate_reason option \<Rightarrow> duration option \<Rightarrow> route_table \<Rightarrow> metrics
    \<Rightarrow> plan_result \<times> route_table \<times> metrics" where
  "plan_tiers skipped affinity lat lower now now2 tier [] gate wait t m = (Waitable wait, t, m)"
| "plan_tiers skipped affinity lat lower now now2 tier (cfg # cfgs) gate wait t m =
     (case scan_tier skipped affinity lat now gate (tier_models cfg) t of (s, t') \<Rightarrow>
        if sc_available s \<noteq> [] then choose_route tier affinity now2 s t' m
        else (case availability s of
            TemporarilyUnavailable w \<Rightarrow>
              if lower
              then plan_tiers skipped affinity lat lower now now2 (Suc tier) cfgs (sc_gate s) (min_wait wait w) t' m
              else (Waitable (min_wait wait w), t', m)
          | HardBlocked \<Rightarrow>
              plan_tiers skipped affinity lat lower now now2 (Suc tier) cfgs (sc_gate s) wait t' m))"

definition sess_none :: string where "sess_none = ''sess_none''"

definition affinity_route :: "string \<Rightarrow> instant \<Rightarrow> route_table \<Rightarrow> route_id option \<times> route_table" where
  "affinity_route tag now t =
     (if tag = [] \<or> tag = sess_none then (None, t)
      else (case map_of (t_affinity t) tag of
          None \<Rightarrow> (None, t)
        | Some e \<Rightarrow>
            if ae_expires e \<le> now then (None, t\<lparr>t_affinity := al_remove tag (t_affinity t)\<rparr>)
            else (Some (ae_route e), t)))"

text \<open>The tiers a request may use, with the two policy flags of its profile.\<close>

fun spec_tiers :: "profiles \<Rightarrow> route_spec \<Rightarrow> (tier_config list \<times> bool \<times> bool) option" where
  "spec_tiers ps (Literal m) = Some ([\<lparr>tier_models = [m]\<rparr>], False, False)"
| "spec_tiers ps (Profile name) =
     map_option (\<lambda>p. (tiers p, latency_optimized p, allow_lower_tier_on_unavailable p)) (map_of ps name)"

definition plan :: "route_spec \<Rightarrow> string \<Rightarrow> identity set \<Rightarrow> instant \<Rightarrow> instant \<Rightarrow> route_table \<Rightarrow> metrics
    \<Rightarrow> plan_result \<times> route_table \<times> metrics" where
  "plan spec tag skipped now now2 t m = (case spec_tiers (t_profiles t) spec of
      None \<Rightarrow> (Waitable None, t, m)
    | Some (ts, lat, lower) \<Rightarrow> (case affinity_route tag now t of (affinity, t1) \<Rightarrow>
        plan_tiers skipped affinity lat lower now now2 0 ts None None t1 m))"

end
