(* ===== verification/RouterHealth.thy ===== *)
theory RouterHealth
  imports RouterPlan
begin

text \<open>
  \<open>src/router.rs\<close>, the writers: the cooldown ladder, the outcomes an attempt reports
  (\<open>note_*\<close>), the model circuit's transitions, session affinity, in-flight accounting with its
  drop guard, the follow-up decision, and the counts that readiness reports.
\<close>

section \<open>Cooldowns\<close>

text \<open>\<open>deadline\<close>: a bounded wait from now.\<close>

definition deadline :: "instant \<Rightarrow> duration \<Rightarrow> instant option" where
  "deadline now wait = Some (now + min wait max_route_wait)"

text \<open>\<open>initial_ms.saturating_mul(1 << step).min(max_ms)\<close> on \<open>u128\<close>.\<close>

definition ladder_base :: "nat \<Rightarrow> nat \<Rightarrow> nat \<Rightarrow> nat" where
  "ladder_base initial_ms step max_ms = min (min u128_max (initial_ms * 2 ^ step)) max_ms"

definition ladder_step :: "nat \<Rightarrow> nat \<Rightarrow> nat" where
  "ladder_step attempt streak = min (max (attempt - 1) streak) backoff_max_shift"

definition barrier_duration :: "nat \<Rightarrow> duration \<Rightarrow> duration \<Rightarrow> duration \<Rightarrow> nat \<Rightarrow> duration option \<Rightarrow> f64 \<Rightarrow> duration" where
  "barrier_duration attempt initial mx hint_cap streak hint jitter =
     (let cap = max (min mx max_route_wait) (from_millis 1)
      in (case hint of
          Some h \<Rightarrow> clamp (from_millis 1) (max (min hint_cap max_route_wait) (from_millis 1)) h
        | None \<Rightarrow>
            (let initial_ms = max (as_millis initial) 1; max_ms = as_millis cap;
                 base = ladder_base initial_ms (ladder_step attempt streak) max_ms;
                 jittered = f64_mul (f64_of_nat base) (f64_add 1 (f64_mul (1/2) (f64_clamp 0 1 jitter)));
                 ms = min u64_max (min (f64_to_nat jittered) max_ms)
             in clamp (from_millis 1) cap (from_millis ms))))"

definition retry_after_for :: "duration \<Rightarrow> duration" where
  "retry_after_for wait = sat_add duration_max wait retry_after_margin"

definition cap_cooldown :: "duration \<Rightarrow> duration \<Rightarrow> duration" where
  "cap_cooldown cooldown mx =
     max (min (min cooldown (min mx max_route_wait)) max_parsed_cooldown) (from_millis 1)"

section \<open>The model circuit\<close>

definition transition_model_circuit :: "instant \<Rightarrow> duration \<Rightarrow> model_entry \<Rightarrow> circuit_transition \<times> model_entry" where
  "transition_model_circuit now open_for e = (case me_state e of
      Closed \<Rightarrow> (Opened, e\<lparr>me_state := Open, me_open_until := deadline now open_for,
         me_open_reason := ''distinct_quota_groups'', me_probe_in_flight := False,
         me_failing_groups := []\<rparr>)
    | HalfOpen \<Rightarrow> (Reopened, e\<lparr>me_state := Open, me_open_until := deadline now open_for,
         me_open_reason := ''probe_failed'', me_probe_in_flight := False\<rparr>)
    | Open \<Rightarrow> (NoTransition, e))"

definition close_model_circuit :: "model_entry \<Rightarrow> circuit_transition \<times> model_entry" where
  "close_model_circuit e = (if me_state e = Closed then (NoTransition, e)
     else (ClosedNow, e\<lparr>me_state := Closed, me_open_reason := [], me_probe_in_flight := False,
        me_failing_groups := []\<rparr>))"

text \<open>
  Evidence by distinct groups inside a window: a group's older entry is replaced, entries
  older than the window are dropped (\<open>retain_mut\<close> then \<open>push_back\<close>).
\<close>

definition push_evidence :: "64 word \<Rightarrow> instant \<Rightarrow> duration \<Rightarrow> (64 word \<times> instant) list \<Rightarrow> (64 word \<times> instant) list" where
  "push_evidence g now window ev = filter (\<lambda>(h, stamp). h \<noteq> g \<and> now - stamp \<le> window) ev @ [(g, now)]"

definition record_failure_entry :: "route_config \<Rightarrow> 64 word \<Rightarrow> instant \<Rightarrow> model_entry \<Rightarrow> circuit_transition \<times> model_entry" where
  "record_failure_entry cfg g now e =
     (if me_state e = HalfOpen then transition_model_circuit now (model_open cfg) e
      else let e' = e\<lparr>me_failing_groups := push_evidence g now (model_trip_window cfg) (me_failing_groups e)\<rparr>
           in if model_trip_distinct_groups cfg \<le> length (me_failing_groups e')
              then transition_model_circuit now (model_open cfg) e'
              else (NoTransition, e'))"

definition update_model :: "string \<Rightarrow> model_entry \<Rightarrow> route_table \<Rightarrow> route_table" where
  "update_model m e t = t\<lparr>t_models := (t_models t)(m \<mapsto> e)\<rparr>"

definition update_route :: "route_id \<Rightarrow> route_state \<Rightarrow> route_table \<Rightarrow> route_table" where
  "update_route r e t = t\<lparr>t_routes := (t_routes t)(r \<mapsto> e)\<rparr>"

definition update_group :: "string \<Rightarrow> group_entry \<Rightarrow> route_table \<Rightarrow> route_table" where
  "update_group g e t = t\<lparr>t_groups := (t_groups t)(g \<mapsto> e)\<rparr>"

definition record_route_failure :: "route_target \<Rightarrow> instant \<Rightarrow> route_table \<Rightarrow> circuit_transition \<times> route_table" where
  "record_route_failure target now t =
     (case record_failure_entry (t_config t) (hash_name (rt_quota_group target)) now
             (or_default (t_models t (rt_model target))) of
        (tr, e) \<Rightarrow> (tr, update_model (rt_model target) e t))"

definition count_opening :: "circuit_transition \<Rightarrow> metrics \<Rightarrow> metrics" where
  "count_opening tr m = (if opens_circuit tr
     then m\<lparr>model_circuit_open_total := model_circuit_open_total m + 1\<rparr> else m)"

section \<open>Outcomes of an attempt\<close>

text \<open>The EWMA of a latency sample, in milliseconds.\<close>

definition ewma :: "f64 option \<Rightarrow> f64 \<Rightarrow> f64" where
  "ewma previous sample = (case previous of
      None \<Rightarrow> sample
    | Some p \<Rightarrow> f64_add (f64_mul p (f64_round (7/10))) (f64_mul sample (f64_round (3/10))))"

definition success_key :: "duration option \<Rightarrow> duration \<Rightarrow> key_state \<Rightarrow> key_state" where
  "success_key ttft elapsed s =
     (let s1 = s\<lparr>ks_streak := 0, ks_cooling_until := None\<rparr>;
          s2 = (case ttft of None \<Rightarrow> s1
                | Some d \<Rightarrow> s1\<lparr>ks_ttft_ms := Some (ewma (ks_ttft_ms s1) (f64_mul (as_secs_f64 d) 1000))\<rparr>)
      in s2\<lparr>ks_latency_ms := Some (ewma (ks_latency_ms s2) (f64_mul (as_secs_f64 elapsed) 1000))\<rparr>)"

definition success_model :: "model_entry \<Rightarrow> model_entry" where
  "success_model e = snd (close_model_circuit
     (e\<lparr>me_disabled := False, me_disabled_until := None, me_missing_groups := []\<rparr>))"

definition note_success :: "route_target \<Rightarrow> duration option \<Rightarrow> duration \<Rightarrow> route_table \<Rightarrow> route_table" where
  "note_success target ttft elapsed t =
     (let t1 = map_key_state (sk_index (rt_key target)) (success_key ttft elapsed) t;
          t2 = (case t_routes t1 (route_id target) of None \<Rightarrow> t1
                | Some e \<Rightarrow> update_route (route_id target) (e\<lparr>rs_cooling_until := None, rs_disabled_until := None\<rparr>) t1);
          t3 = (case t_groups t2 (rt_quota_group target) of None \<Rightarrow> t2
                | Some e \<Rightarrow> update_group (rt_quota_group target) (e\<lparr>ge_cooling_until := None\<rparr>) t2)
      in (case t_models t3 (rt_model target) of None \<Rightarrow> t3
          | Some e \<Rightarrow> update_model (rt_model target) (success_model e) t3))"

definition note_rate_limited :: "route_target \<Rightarrow> nat \<Rightarrow> nat \<Rightarrow> duration option \<Rightarrow> f64 \<Rightarrow> instant
    \<Rightarrow> route_table \<Rightarrow> metrics \<Rightarrow> duration \<times> route_table \<times> metrics" where
  "note_rate_limited target attempt streak hint jitter now t m =
     (let cfg = t_config t;
          cooldown = barrier_duration attempt (route_cooldown_initial cfg) (route_cooldown_max cfg)
                       (max_model_cooldown cfg) streak hint jitter;
          t1 = map_key_state (sk_index (rt_key target)) (\<lambda>s. s\<lparr>ks_streak := sat_add u32_max streak 1\<rparr>) t;
          t2 = update_route (route_id target)
                 ((or_default (t_routes t1 (route_id target)))\<lparr>rs_cooling_until := deadline now cooldown\<rparr>) t1
      in (case record_route_failure target now t2 of (tr, t3) \<Rightarrow> (cooldown, t3, count_opening tr m)))"

definition break_affinity_where :: "(affinity_entry \<Rightarrow> bool) \<Rightarrow> route_table \<Rightarrow> route_table" where
  "break_affinity_where hit t = t\<lparr>t_affinity := filter (\<lambda>(tag, e). \<not> hit e) (t_affinity t)\<rparr>"

definition break_affinity_for_route :: "route_target \<Rightarrow> route_table \<Rightarrow> route_table" where
  "break_affinity_for_route target = break_affinity_where (\<lambda>e. ae_route e = route_id target)"

definition break_affinity_for_group :: "string \<Rightarrow> route_table \<Rightarrow> route_table" where
  "break_affinity_for_group g = break_affinity_where (\<lambda>e. snd (ae_route e) = hash_name g)"

definition cool_group_keys :: "string \<Rightarrow> instant option \<Rightarrow> route_table \<Rightarrow> route_table" where
  "cool_group_keys g until t = t\<lparr>t_keys := map (\<lambda>k. if ke_group k = g
       then k\<lparr>ke_state := (ke_state k)\<lparr>ks_cooling_until := until\<rparr>\<rparr> else k) (t_keys t)\<rparr>"

definition note_quota_exhausted :: "route_target \<Rightarrow> duration \<Rightarrow> instant \<Rightarrow> route_table \<Rightarrow> route_table" where
  "note_quota_exhausted target cooldown now t =
     (let g = rt_quota_group target;
          t1 = update_group g ((or_default (t_groups t g))\<lparr>ge_cooling_until := deadline now cooldown\<rparr>) t
      in break_affinity_for_group g (cool_group_keys g (deadline now cooldown) t1))"

definition note_authentication_failure :: "route_target \<Rightarrow> route_table \<Rightarrow> route_table" where
  "note_authentication_failure target t = break_affinity_for_route target
     (map_key_state (sk_index (rt_key target)) (\<lambda>s. s\<lparr>ks_unusable := True, ks_cooling_until := None\<rparr>) t)"

definition missing_entry :: "route_config \<Rightarrow> 64 word \<Rightarrow> instant \<Rightarrow> model_entry \<Rightarrow> model_entry" where
  "missing_entry cfg g now e =
     (let ev = push_evidence g now (model_missing_window cfg) (me_missing_groups e)
      in if length ev < model_missing_distinct_groups cfg then e\<lparr>me_missing_groups := ev\<rparr>
         else e\<lparr>me_disabled := True, me_disabled_until := deadline now (model_missing_cooldown cfg),
                me_missing_groups := []\<rparr>)"

definition note_model_missing :: "route_target \<Rightarrow> instant \<Rightarrow> route_table \<Rightarrow> route_table" where
  "note_model_missing target now t =
     (let t1 = break_affinity_for_route target t;
          t2 = update_route (route_id target) ((or_default (t_routes t1 (route_id target)))
                 \<lparr>rs_disabled_until := deadline now (model_missing_cooldown (t_config t))\<rparr>) t1
      in update_model (rt_model target)
           (missing_entry (t_config t) (hash_name (rt_quota_group target)) now
              (or_default (t_models t2 (rt_model target)))) t2)"

definition key_has_alternatives :: "route_target \<Rightarrow> route_table \<Rightarrow> bool" where
  "key_has_alternatives target t = list_ex (\<lambda>k. ke_index k \<noteq> sk_index (rt_key target)
      \<and> ke_group k \<noteq> rt_quota_group target) (t_keys t)"

definition note_transient_failure :: "route_target \<Rightarrow> nat \<Rightarrow> duration option \<Rightarrow> f64 \<Rightarrow> instant
    \<Rightarrow> route_table \<Rightarrow> metrics \<Rightarrow> duration \<times> route_table \<times> metrics" where
  "note_transient_failure target attempt hint jitter now t m =
     (let cfg = t_config t;
          full = barrier_duration attempt (route_cooldown_initial cfg) (route_cooldown_max cfg)
                   (max_model_cooldown cfg) 0 hint jitter;
          alternatives = key_has_alternatives target t;
          cooldown = (if alternatives then min full healthy_route_step else full);
          t1 = (if alternatives
                then map_key_state (sk_index (rt_key target)) (\<lambda>s. s\<lparr>ks_cooling_until := deadline now cooldown\<rparr>) t
                else t)
      in (case record_route_failure target now t1 of (tr, t2) \<Rightarrow> (cooldown, t2, count_opening tr m)))"

definition rate_limit_streak :: "route_target \<Rightarrow> route_table \<Rightarrow> nat" where
  "rate_limit_streak target t = (case key_entry_at t (sk_index (rt_key target)) of
      Some e \<Rightarrow> ks_streak (ke_state e) | None \<Rightarrow> 0)"

section \<open>Affinity\<close>

definition oldest :: "(string \<times> affinity_entry) list \<Rightarrow> string option" where
  "oldest al = (case al of [] \<Rightarrow> None
    | e # es \<Rightarrow> Some (fst (fold (\<lambda>x best. if ae_expires (snd x) < ae_expires (snd best) then x else best) es e)))"

definition note_session_route :: "string \<Rightarrow> route_target \<Rightarrow> instant \<Rightarrow> route_table \<Rightarrow> route_table" where
  "note_session_route tag target now t =
     (if soft_affinity (t_config t) = 0 \<or> tag = [] \<or> tag = sess_none then t
      else
        let live = filter (\<lambda>(tg, e). now < ae_expires e) (t_affinity t);
            room = (if map_of live tag = None \<and> max_affinity_entries (t_config t) \<le> length live
                    then (case oldest live of None \<Rightarrow> live | Some old \<Rightarrow> al_remove old live)
                    else live)
        in t\<lparr>t_affinity := al_insert tag
               \<lparr>ae_route = route_id target, ae_expires = now + soft_affinity (t_config t)\<rparr> room\<rparr>)"

definition break_affinity :: "string \<Rightarrow> route_table \<Rightarrow> metrics \<Rightarrow> route_table \<times> metrics" where
  "break_affinity tag t m =
     (if tag = [] \<or> tag = sess_none \<or> map_of (t_affinity t) tag = None then (t, m)
      else (t\<lparr>t_affinity := al_remove tag (t_affinity t), t_affinity_breaks := t_affinity_breaks t + 1\<rparr>,
            m\<lparr>affinity_breaks_total := affinity_breaks_total m + 1\<rparr>))"

section \<open>In-flight attempts\<close>

record inflight_guard =
  ig_index :: nat
  ig_model :: string
  ig_holds_probe :: bool

definition begin_attempt :: "route_target \<Rightarrow> route_table \<Rightarrow> inflight_guard \<times> route_table" where
  "begin_attempt target t =
     (let e = or_default (t_models t (rt_model target));
          holds = (me_state e = HalfOpen \<and> \<not> me_probe_in_flight e);
          t1 = update_model (rt_model target) (if holds then e\<lparr>me_probe_in_flight := True\<rparr> else e) t;
          i = sk_index (rt_key target);
          t2 = map_key_state i (\<lambda>s. s\<lparr>ks_inflight := sat_add u64_max (ks_inflight s) 1\<rparr>) t1
      in (\<lparr>ig_index = i, ig_model = rt_model target, ig_holds_probe = holds\<rparr>, t2))"

definition release_probe :: "inflight_guard \<Rightarrow> route_table \<Rightarrow> inflight_guard \<times> route_table" where
  "release_probe g t = (if \<not> ig_holds_probe g then (g, t)
     else (g\<lparr>ig_holds_probe := False\<rparr>,
       (case t_models t (ig_model g) of None \<Rightarrow> t
        | Some e \<Rightarrow> update_model (ig_model g) (e\<lparr>me_probe_in_flight := False\<rparr>) t)))"

definition drop_guard :: "inflight_guard \<Rightarrow> route_table \<Rightarrow> route_table" where
  "drop_guard g t =
     (let t1 = map_key_state (ig_index g) (\<lambda>s. s\<lparr>ks_inflight := ks_inflight s - 1\<rparr>) t
      in if ig_holds_probe g
         then (case t_models t1 (ig_model g) of None \<Rightarrow> t1
           | Some e \<Rightarrow> update_model (ig_model g)
               (e\<lparr>me_probe_in_flight := False, me_state := (if me_state e = HalfOpen then Closed else me_state e)\<rparr>) t1)
         else t1)"

section \<open>The follow-up decision\<close>

datatype followup = Continue duration bool | Return

text \<open>\<open>followup\<close>; \<open>None\<close> when planning panics.\<close>

definition followup :: "route_spec \<Rightarrow> string \<Rightarrow> route_target \<Rightarrow> identity set \<Rightarrow> instant \<Rightarrow> instant
    \<Rightarrow> route_table \<Rightarrow> metrics \<Rightarrow> followup option \<times> route_table \<times> metrics" where
  "followup spec tag failed skipped now now2 t m =
     (case break_affinity tag t m of (t1, m1) \<Rightarrow>
      (case plan spec sess_none (insert (identity failed) skipped) now now2 t1 m1 of (r, t2, m2) \<Rightarrow>
        (case r of
          Planned p \<Rightarrow> Some (Continue (case p_next_alternative p of Some w \<Rightarrow> w | None \<Rightarrow> 0) False)
        | Waitable (Some w) \<Rightarrow> Some (if w \<le> retry_after_max (t_config t2) then Continue w True else Return)
        | Waitable None \<Rightarrow> Some Return
        | PlanPanic \<Rightarrow> None, t2, m2)))"

section \<open>Model resolution\<close>

definition resolve :: "route_table \<Rightarrow> models_config \<Rightarrow> string \<Rightarrow> resolution" where
  "resolve t mc requested = (case map_of (aliases mc) requested of
      Some target \<Rightarrow> if map_of (t_profiles t) target \<noteq> None then ResolvedProfile target else ResolvedLiteral target
    | None \<Rightarrow>
        if map_of (t_profiles t) requested \<noteq> None then ResolvedProfile requested
        else if map_unknown_to_default mc \<and> starts_with ''claude'' requested then ResolvedLiteral (models_default mc)
        else ResolvedLiteral requested)"

section \<open>What readiness reports\<close>

definition clear_all_keys :: "instant \<Rightarrow> route_table \<Rightarrow> route_table" where
  "clear_all_keys now t = t\<lparr>t_keys := map (\<lambda>k. k\<lparr>ke_state := clear_key now (ke_state k)\<rparr>) (t_keys t)\<rparr>"

definition usable_credential_count :: "instant \<Rightarrow> route_table \<Rightarrow> nat \<times> route_table" where
  "usable_credential_count now t = (let t' = clear_all_keys now t in
     (length (filter (\<lambda>k. \<not> ks_unusable (ke_state k) \<and> ks_cooling_until (ke_state k) = None) (t_keys t')), t'))"

definition earliest_retry_after :: "instant \<Rightarrow> route_table \<Rightarrow> duration option \<times> route_table" where
  "earliest_retry_after now t = (let t' = clear_all_keys now t in
     (fold (\<lambda>k acc. case ks_cooling_until (ke_state k) of None \<Rightarrow> acc | Some u \<Rightarrow> min_wait acc (u - now))
        (t_keys t') None, t'))"

text \<open>\<open>any\<close> over a model's candidates in one group, stopping at the first that is ready.\<close>

fun any_ready_in_group :: "string \<Rightarrow> instant \<Rightarrow> candidate list \<Rightarrow> route_table \<Rightarrow> bool \<times> route_table" where
  "any_ready_in_group g now [] t = (False, t)"
| "any_ready_in_group g now (c # cs) t =
     (if c_group c = g
      then (case dialability c now t of ((d, w), t') \<Rightarrow>
              if d = Ready then (True, t') else any_ready_in_group g now cs t')
      else any_ready_in_group g now cs t)"

fun count_usable :: "instant \<Rightarrow> (string \<times> string) list \<Rightarrow> route_table \<Rightarrow> nat \<times> route_table" where
  "count_usable now [] t = (0, t)"
| "count_usable now ((m, g) # ps) t =
     (case any_ready_in_group g now (candidates t m) t of (ok, t1) \<Rightarrow>
      (case count_usable now ps t1 of (n, t2) \<Rightarrow> ((if ok then Suc n else n), t2)))"

definition usable_route_count :: "instant \<Rightarrow> route_table \<Rightarrow> nat \<times> route_table" where
  "usable_route_count now t = count_usable now (all_candidates t) t"

end
