(* ===== verification/Redaction.thy ===== *)
theory Redaction
  imports Utf8 Json
begin

text \<open>
  \<open>src/redaction.rs\<close>: sanitization of upstream text before it is shown or logged, and the
  status tables of \<open>src/error.rs\<close>.
\<close>

section \<open>Text helpers\<close>

text \<open>\<open>str::replace\<close>: non-overlapping occurrences of a non-empty pattern, from the left.\<close>

function replace_str :: "string \<Rightarrow> string \<Rightarrow> string \<Rightarrow> string" where
  "replace_str p q [] = []"
| "replace_str p q (c # s) =
     (if p \<noteq> [] \<and> starts_with p (c # s) then q @ replace_str p q (drop (length p) (c # s))
      else c # replace_str p q s)"
  by pat_completeness auto
termination
  by (relation "measure (\<lambda>(p, q, s). length s)") (auto simp: neq_Nil_conv)

text \<open>\<open>trim_matches\<close> with a predicate that only holds of ASCII characters.\<close>

definition trim_bytes :: "(char \<Rightarrow> bool) \<Rightarrow> string \<Rightarrow> string" where
  "trim_bytes P s = rev (dropWhile P (rev (dropWhile P s)))"

text \<open>\<open>str::split\<close> at an ASCII character.\<close>

fun split_on :: "char \<Rightarrow> string \<Rightarrow> string list" where
  "split_on d [] = [[]]"
| "split_on d (c # s) = (case split_on d s of
       [] \<Rightarrow> [[c]]
     | w # ws \<Rightarrow> if c = d then [] # w # ws else (c # w) # ws)"

definition redacted :: string where "redacted = ''[REDACTED]''"

definition ellipsis :: string where "ellipsis = map char_of [0xE2, 0x80, 0xA6 :: nat]"

section \<open>\<open>redaction.rs\<close>\<close>

definition max_public_text_chars :: nat where "max_public_text_chars = 1024"

definition truncate_chars :: "string \<Rightarrow> nat \<Rightarrow> string" where
  "truncate_chars input mx = (let cs = utf8_chars input; prefix = concat (take mx cs)
     in if drop mx cs \<noteq> [] then prefix @ ellipsis else prefix)"

definition truncate_public :: "string \<Rightarrow> nat \<Rightarrow> string" where
  "truncate_public input mx = truncate_chars input mx"

definition is_word_edge :: "char \<Rightarrow> bool" where
  "is_word_edge c = (byte c \<in> {44, 59, 58, 34, 39, 40, 41, 91, 93})"

definition assignment_prefixes :: "string list" where
  "assignment_prefixes = [''authorization='', ''authorization:'', ''x-api-key='', ''x-api-key:'',
     ''api_key='', ''api-key='', ''access_token='', ''refresh_token='', ''cookie='']"

definition jwt_char :: "char \<Rightarrow> bool" where
  "jwt_char c = (let n = byte c in (48 \<le> n \<and> n \<le> 57) \<or> (65 \<le> n \<and> n \<le> 90) \<or> (97 \<le> n \<and> n \<le> 122)
     \<or> n = 45 \<or> n = 95)"

definition looks_like_jwt :: "string \<Rightarrow> bool" where
  "looks_like_jwt s = (case split_on (CHR ''.'') s of
      [a, b, c] \<Rightarrow> 8 \<le> length a \<and> 8 \<le> length b \<and> 8 \<le> length c
        \<and> list_all jwt_char a \<and> list_all jwt_char b \<and> list_all jwt_char c
    | _ \<Rightarrow> False)"

definition word_key :: "string \<Rightarrow> string" where
  "word_key word = to_ascii_lowercase (trim_bytes is_word_edge word)"

definition sensitive_word :: "string \<Rightarrow> bool" where
  "sensitive_word word = (let trimmed = trim_bytes is_word_edge word; lower = word_key word in
      list_ex (\<lambda>p. starts_with p lower) assignment_prefixes
      \<or> starts_with ''sk-'' lower
      \<or> (starts_with ''key-'' lower \<and> 24 < length trimmed)
      \<or> looks_like_jwt trimmed)"

text \<open>Whether a word announces a secret in the next word.\<close>

definition announces_secret :: "string \<Rightarrow> bool" where
  "announces_secret word = (word_key word = ''bearer'' \<or> word_key word = ''authorization:''
     \<or> word_key word = ''x-api-key:'')"

fun redact_words :: "bool \<Rightarrow> string list \<Rightarrow> string list" where
  "redact_words nxt [] = []"
| "redact_words nxt (w # ws) =
     (if nxt \<or> sensitive_word w then redacted else w) # redact_words (announces_secret w) ws"

definition replace_secrets :: "string list \<Rightarrow> string \<Rightarrow> string" where
  "replace_secrets secrets input =
     fold (\<lambda>secret out. if secret = [] then out else replace_str secret redacted out) secrets input"

definition sanitize_text :: "string \<Rightarrow> string list \<Rightarrow> string" where
  "sanitize_text input secrets = truncate_chars
     (join_with '' '' (redact_words False (split_whitespace (replace_secrets secrets input))))
     max_public_text_chars"

definition sensitive_name :: "string \<Rightarrow> bool" where
  "sensitive_name name =
     (let n = map (\<lambda>c. if c = CHR ''-'' then CHR ''_'' else c) (to_ascii_lowercase name)
      in n \<in> set [''authorization'', ''x_api_key'', ''api_key'', ''access_token'', ''refresh_token'',
           ''cookie'', ''set_cookie''] \<or> ends_with ''_secret'' n)"

fun sanitize_json :: "string list \<Rightarrow> json \<Rightarrow> json"
and sanitize_fields :: "string list \<Rightarrow> (string \<times> json) list \<Rightarrow> (string \<times> json) list"
and sanitize_items :: "string list \<Rightarrow> json list \<Rightarrow> json list" where
  "sanitize_json secrets (JObject fs) = JObject (sanitize_fields secrets fs)"
| "sanitize_json secrets (JArray vs) = JArray (sanitize_items secrets vs)"
| "sanitize_json secrets (JString s) = JString (sanitize_text s secrets)"
| "sanitize_json secrets JNull = JNull"
| "sanitize_json secrets (JBool b) = JBool b"
| "sanitize_json secrets (JNumber n) = JNumber n"
| "sanitize_fields secrets [] = []"
| "sanitize_fields secrets ((name, v) # fs) =
     (name, if sensitive_name name then JString redacted else sanitize_json secrets v)
       # sanitize_fields secrets fs"
| "sanitize_items secrets [] = []"
| "sanitize_items secrets (v # vs) = sanitize_json secrets v # sanitize_items secrets vs"

section \<open>\<open>error.rs\<close>\<close>

definition error_type_for_status :: "nat \<Rightarrow> string" where
  "error_type_for_status status =
     (if status \<in> set [400, 405, 413, 422] then ''invalid_request_error''
      else if status = 404 then ''not_found_error''
      else if status = 401 then ''authentication_error''
      else if status = 403 then ''permission_error''
      else if status = 429 then ''rate_limit_error''
      else ''api_error'')"

definition error_envelope :: "string \<Rightarrow> string \<Rightarrow> string \<Rightarrow> json" where
  "error_envelope error_type message request_id =
     JObject [(''error'', JObject [(''message'', JString message), (''type'', JString error_type)]),
              (''request_id'', JString request_id), (''type'', JString ''error'')]"

end
