(* ===== verification/Circuit.thy ===== *)
theory Circuit
  imports RouterState
begin

text \<open>
  \<open>src/circuit.rs\<close>: the global circuit breaker.  The state under its mutex and the three
  tunables are one record; every operation takes the clock reading it makes.
\<close>

record breaker =
  cb_state :: circuit_state
  cb_open_until :: instant
  cb_open_reason :: string
  cb_overloads :: "instant list"
  cb_probe :: bool
  cb_threshold :: nat
  cb_window :: duration
  cb_open_for :: duration

datatype admission = Allowed | Refused duration string

definition new_breaker :: "nat \<Rightarrow> nat \<Rightarrow> nat \<Rightarrow> instant \<Rightarrow> breaker" where
  "new_breaker threshold window_secs open_secs now =
     \<lparr>cb_state = Closed, cb_open_until = now, cb_open_reason = [], cb_overloads = [], cb_probe = False,
      cb_threshold = max threshold 1, cb_window = from_secs (max window_secs 1),
      cb_open_for = from_secs (max open_secs 1)\<rparr>"

definition admit :: "instant \<Rightarrow> breaker \<Rightarrow> admission \<times> breaker" where
  "admit now b = (case cb_state b of
      Closed \<Rightarrow> (Allowed, b)
    | Open \<Rightarrow>
        if cb_open_until b \<le> now then (Allowed, b\<lparr>cb_state := HalfOpen, cb_probe := True\<rparr>)
        else (Refused (cb_open_until b - now) (cb_open_reason b), b)
    | HalfOpen \<Rightarrow>
        if cb_probe b then (Refused (from_secs 1) ''half_open_probe_in_flight'', b)
        else (Allowed, b\<lparr>cb_probe := True\<rparr>))"

definition record_success :: "breaker \<Rightarrow> breaker" where
  "record_success b = b\<lparr>cb_state := Closed, cb_probe := False, cb_overloads := []\<rparr>"

definition record_quota_exhaustion :: "duration \<Rightarrow> instant \<Rightarrow> breaker \<Rightarrow> breaker" where
  "record_quota_exhaustion open_for now b =
     b\<lparr>cb_state := Open, cb_open_until := now + min open_for (from_secs (366 * 24 * 60 * 60)),
       cb_open_reason := ''quota_exhausted'', cb_probe := False\<rparr>"

text \<open>The length is compared after a cast to \<open>u32\<close>.\<close>

definition record_overload :: "instant \<Rightarrow> breaker \<Rightarrow> breaker" where
  "record_overload now b =
     (let stamps = filter (\<lambda>t. now - t \<le> cb_window b) (cb_overloads b) @ [now];
          probe_failed = (cb_state b = HalfOpen);
          b1 = b\<lparr>cb_overloads := stamps\<rparr>;
          b2 = (if probe_failed \<or> cb_threshold b \<le> length stamps mod 2 ^ 32
                then b1\<lparr>cb_state := Open, cb_open_until := now + cb_open_for b,
                        cb_open_reason := (if probe_failed then ''probe_failed'' else ''overload''),
                        cb_overloads := []\<rparr>
                else b1)
      in b2\<lparr>cb_probe := False\<rparr>)"

definition record_neutral_failure :: "breaker \<Rightarrow> breaker" where
  "record_neutral_failure b = b\<lparr>cb_probe := False\<rparr>"

definition breaker_state :: "instant \<Rightarrow> breaker \<Rightarrow> circuit_state \<times> breaker" where
  "breaker_state now b =
     (let b' = (if cb_state b = Open \<and> cb_open_until b \<le> now
                then b\<lparr>cb_state := HalfOpen, cb_probe := False\<rparr> else b)
      in (cb_state b', b'))"

definition open_remaining :: "instant \<Rightarrow> breaker \<Rightarrow> (duration \<times> string) option" where
  "open_remaining now b = (if cb_state b = Open \<and> now < cb_open_until b
     then Some (cb_open_until b - now, cb_open_reason b) else None)"

definition circuit_state_code :: "circuit_state \<Rightarrow> int" where
  "circuit_state_code s = (case s of Closed \<Rightarrow> 0 | HalfOpen \<Rightarrow> 1 | Open \<Rightarrow> 2)"

end
