(* ===== verification/Upstream.thy ===== *)
theory Upstream
  imports RouterHealth RateLimit Redaction Circuit
begin

text \<open>
  \<open>src/upstream.rs\<close>: one logical \<open>/v1/messages\<close> request.  \<open>send_messages\<close> plans, dials,
  classifies, records the outcome and decides on another attempt, within one budget.

  What other requests do to the shared state is part of the environment: a function applied at
  each point where this request awaits (before an attempt, which includes the sleep of the
  previous one, and during an exchange).  The code between two awaits is sequential; each of
  its clock readings is a field of the environment.
\<close>

section \<open>Shared state and environment\<close>

record shared =
  sh_table :: route_table
  sh_circuit :: breaker
  sh_metrics :: metrics

record core =
  co_max_attempts :: nat
  co_same_route_retries :: nat
  co_retry_after_max :: duration
  co_max_quota_cooldown :: duration
  co_rate_limit_fallback :: duration
  co_secrets :: "string list"
  co_anthropic_version :: string
  co_user_agent :: string
  co_header_ok :: "string \<Rightarrow> bool"
  co_ext :: externals

text \<open>
  \<open>Core::new\<close>, without the HTTP client.  The user agent is fixed at build time and the validity
  of a header value is decided by the HTTP crate: both are arguments, with the two parsers.
\<close>

definition new_core :: "config \<Rightarrow> string \<Rightarrow> (string \<Rightarrow> bool) \<Rightarrow> externals \<Rightarrow> core" where
  "new_core c user_agent header_ok ext =
     (let r = route_config_of (routing c)
      in \<lparr>co_max_attempts = max_route_attempts r, co_same_route_retries = same_route_429_retries r,
          co_retry_after_max = retry_after_max r,
          co_max_quota_cooldown = from_secs (cc_max_quota_cooldown_secs (circuit_cfg c)),
          co_rate_limit_fallback = from_secs (rate_limit_fallback_initial_secs (retry c)),
          co_secrets = map key_secret (sensenova_api_keys c) @ [server_api_key (server c)],
          co_anthropic_version = anthropic_version (upstream c), co_user_agent = user_agent,
          co_header_ok = header_ok, co_ext = ext\<rparr>)"

definition new_shared :: "config \<Rightarrow> instant \<Rightarrow> shared" where
  "new_shared c now = \<lparr>sh_table = new_table c,
     sh_circuit = new_breaker (cc_overload_threshold (circuit_cfg c))
       (cc_overload_window_secs (circuit_cfg c)) (cc_overload_open_secs (circuit_cfg c)) now,
     sh_metrics = new_metrics\<rparr>"

text \<open>
  What reading a response body yields: chunks and read errors in order; \<open>Pause\<close> marks where the
  first-byte deadline passes while the stream is silent; the end of the list is a clean end.
\<close>

datatype read_event = Chunk string | ReadFailed transport_error | Pause

datatype exchange = SendFailed transport_error | Answered nat headers "read_event list"

record wire_request =
  wr_headers :: "(string \<times> string) list"
  wr_body :: string

record env =
  e_before :: "shared \<Rightarrow> shared"
  e_plan :: instant
  e_target :: instant
  e_admit :: instant
  e_start :: instant
  e_during :: "shared \<Rightarrow> shared"
  e_exchange :: "route_target \<Rightarrow> wire_request \<Rightarrow> exchange"
  e_note :: instant
  e_wall :: instant
  e_nanos :: nat
  e_follow :: instant
  e_follow_target :: instant

record gateway_error =
  gw_status :: nat
  gw_message :: string
  gw_class :: error_class
  gw_retry_after :: "duration option"
  gw_sanitized :: "json option"

definition plain_error :: "nat \<Rightarrow> string \<Rightarrow> error_class \<Rightarrow> gateway_error" where
  "plain_error status message cls = \<lparr>gw_status = status, gw_message = message, gw_class = cls,
     gw_retry_after = None, gw_sanitized = None\<rparr>"

section \<open>The request on the wire\<close>

definition rewrite_model :: "externals \<Rightarrow> string \<Rightarrow> string \<Rightarrow> gateway_error + string" where
  "rewrite_model x canonical model = (case x_parse_json x canonical of
      None \<Rightarrow> Inl (plain_error 400 ''request body could not be re-serialized for routing'' InvalidRequest)
    | Some v \<Rightarrow> (case v of
        JObject fs \<Rightarrow> (case x_render_json x (JObject (obj_insert ''model'' (JString model) fs)) of
            None \<Rightarrow> Inl (plain_error 400 ''request could not be serialized'' InvalidRequest)
          | Some body \<Rightarrow> Inr body)
      | _ \<Rightarrow> Inl (plain_error 400 ''request body must be a JSON object'' InvalidRequest)))"

text \<open>\<open>send_once\<close>: the headers of one dial; the caller's own headers are never copied.\<close>

definition send_once :: "core \<Rightarrow> route_target \<Rightarrow> string \<Rightarrow> bool \<Rightarrow> string \<Rightarrow> wire_request" where
  "send_once co target body stream request_id = \<lparr>wr_headers =
       [(''content-type'', ''application/json''),
        (''accept'', if stream then ''text/event-stream'' else ''application/json''),
        (''user-agent'', co_user_agent co),
        (''accept-encoding'', ''gzip''),
        (''anthropic-version'', co_anthropic_version co)]
       @ (if co_header_ok co request_id then [(''x-request-id'', request_id)] else [])
       @ (if co_header_ok co (rt_model target) then [(''x-sensenova-proxy-model'', rt_model target)] else [])
       @ [(''authorization'', ''Bearer '' @ sk_api_key (rt_key target))],
     wr_body = body\<rparr>"

section \<open>Reading the answer\<close>

fun read_limited :: "nat \<Rightarrow> read_event list \<Rightarrow> string \<Rightarrow> string" where
  "read_limited limit [] out = out"
| "read_limited limit (ReadFailed e # es) out = out"
| "read_limited limit (Pause # es) out = read_limited limit es out"
| "read_limited limit (Chunk c # es) out =
     (let remaining = limit - length out in
      if remaining = 0 then out
      else let out' = out @ take (min (length c) remaining) c
           in if limit \<le> length out' then out' else read_limited limit es out')"

datatype first_byte =
  FirstChunk string "read_event list" | FirstEof | FirstTransport transport_error | FirstTimeout

fun read_first_byte :: "read_event list \<Rightarrow> first_byte" where
  "read_first_byte [] = FirstEof"
| "read_first_byte (Chunk c # es) = (if c \<noteq> [] then FirstChunk c es else read_first_byte es)"
| "read_first_byte (ReadFailed e # es) = FirstTransport e"
| "read_first_byte (Pause # es) = FirstTimeout"

definition default_message_for_status :: "nat \<Rightarrow> string" where
  "default_message_for_status status =
     (let t = error_type_for_status status in
      if t = ''invalid_request_error'' then ''upstream rejected the request''
      else if t = ''authentication_error'' then ''upstream rejected the credential''
      else if t = ''permission_error'' then ''upstream denied access''
      else if t = ''not_found_error'' then ''upstream resource not found''
      else ''upstream request failed'')"

definition sanitized_message :: "json \<Rightarrow> string \<Rightarrow> string" where
  "sanitized_message sanitized fallback = truncate_public
     (case and_then (jget ''error'' sanitized) (\<lambda>error.
         (case and_then (jget ''message'' error) as_str of Some s \<Rightarrow> Some s | None \<Rightarrow> as_str error)) of
        Some s \<Rightarrow> s
      | None \<Rightarrow> (case and_then (jget ''message'' sanitized) as_str of Some s \<Rightarrow> s | None \<Rightarrow> fallback)) 512"

definition sanitized_body :: "core \<Rightarrow> string \<Rightarrow> json" where
  "sanitized_body co body = (case x_parse_json (co_ext co) body of
      Some v \<Rightarrow> sanitize_json (co_secrets co) v
    | None \<Rightarrow> JObject [(''error'', JObject [(''message'',
        JString (sanitize_text (from_utf8_lossy body) (co_secrets co)))])])"

text \<open>\<open>pseudo_jitter\<close> from the nanoseconds of the wall clock.\<close>

definition pseudo_jitter :: "nat \<Rightarrow> f64" where
  "pseudo_jitter nanos = f64_div (f64_of_nat (nanos mod 1000)) 1000"

section \<open>Another attempt, or the error\<close>

datatype next_step = Stop | Proceed "duration option" | NextPanic

definition next_attempt :: "core \<Rightarrow> route_spec \<Rightarrow> string \<Rightarrow> route_target \<Rightarrow> identity set \<Rightarrow> nat \<Rightarrow> nat
    \<Rightarrow> duration \<Rightarrow> env \<Rightarrow> shared \<Rightarrow> next_step \<times> nat \<times> shared" where
  "next_attempt co spec tag failed skipped same_route attempt cooldown e sh =
     (if co_max_attempts co \<le> attempt then (Stop, same_route, sh)
      else (case followup spec tag failed skipped (e_follow e) (e_follow_target e)
                   (sh_table sh) (sh_metrics sh) of (r, t, m) \<Rightarrow>
        (case r of
          None \<Rightarrow> (NextPanic, same_route, sh\<lparr>sh_table := t, sh_metrics := m\<rparr>)
        | Some (Continue wait waitable) \<Rightarrow>
            (Proceed (if 0 < wait then Some wait else None), same_route,
             sh\<lparr>sh_table := t, sh_metrics := m\<lparr>retries_total := retries_total m + 1,
                route_failovers_total := route_failovers_total m + 1\<rparr>\<rparr>)
        | Some Return \<Rightarrow>
            if co_same_route_retries co \<le> same_route \<or> co_retry_after_max co < cooldown
            then (Stop, same_route, sh\<lparr>sh_table := t, sh_metrics := m\<rparr>)
            else (Proceed (Some cooldown), Suc same_route,
                  sh\<lparr>sh_table := t, sh_metrics := m\<lparr>retries_total := retries_total m + 1\<rparr>\<rparr>))))"

definition next_attempt_group :: "core \<Rightarrow> route_spec \<Rightarrow> string \<Rightarrow> route_target \<Rightarrow> identity set \<Rightarrow> nat
    \<Rightarrow> env \<Rightarrow> shared \<Rightarrow> next_step \<times> shared" where
  "next_attempt_group co spec tag failed skipped attempt e sh =
     (if co_max_attempts co \<le> attempt then (Stop, sh)
      else (case plan spec tag (insert (identity failed) skipped) (e_follow e) (e_follow_target e)
                   (sh_table sh) (sh_metrics sh) of (r, t, m) \<Rightarrow>
        (case r of
          PlanPanic \<Rightarrow> (NextPanic, sh\<lparr>sh_table := t, sh_metrics := m\<rparr>)
        | Waitable w \<Rightarrow> (Stop, sh\<lparr>sh_table := t, sh_metrics := m\<rparr>)
        | Planned p \<Rightarrow>
            if rt_quota_group (p_target p) \<noteq> rt_quota_group failed
            then (Proceed None, sh\<lparr>sh_table := t, sh_metrics := m\<lparr>retries_total := retries_total m + 1,
                   cross_group_failovers_total := cross_group_failovers_total m + 1,
                   route_failovers_total := route_failovers_total m + 1\<rparr>\<rparr>)
            else (Stop, sh\<lparr>sh_table := t, sh_metrics := m\<rparr>))))"

definition next_attempt_model :: "core \<Rightarrow> route_spec \<Rightarrow> string \<Rightarrow> route_target \<Rightarrow> identity set \<Rightarrow> nat
    \<Rightarrow> env \<Rightarrow> shared \<Rightarrow> next_step \<times> shared" where
  "next_attempt_model co spec tag failed skipped attempt e sh =
     (if co_max_attempts co \<le> attempt then (Stop, sh)
      else (case plan spec tag skipped (e_follow e) (e_follow_target e)
                   (sh_table sh) (sh_metrics sh) of (r, t, m) \<Rightarrow>
        (case r of
          PlanPanic \<Rightarrow> (NextPanic, sh\<lparr>sh_table := t, sh_metrics := m\<rparr>)
        | Waitable w \<Rightarrow> (Stop, sh\<lparr>sh_table := t, sh_metrics := m\<rparr>)
        | Planned p \<Rightarrow>
            if identity (p_target p) \<noteq> identity failed
            then let m1 = m\<lparr>retries_total := retries_total m + 1,
                       route_failovers_total := route_failovers_total m + 1\<rparr>;
                     m2 = (if rt_model (p_target p) \<noteq> rt_model failed
                       then m1\<lparr>model_failovers_total := model_failovers_total m1 + 1,
                              cross_model_failovers_total := cross_model_failovers_total m1 + 1\<rparr>
                       else m1)
                 in (Proceed None, sh\<lparr>sh_table := t, sh_metrics := m2\<rparr>)
            else (Stop, sh\<lparr>sh_table := t, sh_metrics := m\<rparr>))))"

text \<open>
  \<open>route_unavailable\<close>; the count it reports only goes to the log, but taking it refreshes the
  table (the warning is enabled at every level but \<open>error\<close> and \<open>off\<close>).
\<close>

definition route_unavailable :: "core \<Rightarrow> duration option \<Rightarrow> instant \<Rightarrow> shared \<Rightarrow> gateway_error \<times> shared" where
  "route_unavailable co wait now sh = (case map_option (\<lambda>w. cap_cooldown w (co_retry_after_max co)) wait of
      Some w \<Rightarrow> (\<lparr>gw_status = 429, gw_message = ''all configured routes are cooling down; retry shortly'',
          gw_class = RateLimited, gw_retry_after = Some (retry_after_for w), gw_sanitized = None\<rparr>,
          sh\<lparr>sh_table := snd (usable_route_count now (sh_table sh))\<rparr>)
    | None \<Rightarrow> (plain_error 503 ''no usable upstream route is configured for this model'' Unknown, sh))"

section \<open>One attempt\<close>

text \<open>How an outcome is followed up: which of the three \<open>next_attempt\<close> functions is called.\<close>

datatype retry_rule = TryRoute duration | TryGroup | TryModel | GiveUp

record failure =
  fl_error :: gateway_error
  fl_rule :: retry_rule

text \<open>The repeated middle of every transient branch: cool, count evidence, break affinity.\<close>

definition transient :: "route_target \<Rightarrow> string \<Rightarrow> nat \<Rightarrow> duration option \<Rightarrow> env \<Rightarrow> shared \<Rightarrow> duration \<times> shared" where
  "transient target tag attempt hint e sh =
     (case note_transient_failure target attempt hint (pseudo_jitter (e_nanos e)) (e_note e)
             (sh_table sh) (sh_metrics sh) of (cooldown, t, m) \<Rightarrow>
      (case break_affinity tag t m of (t', m') \<Rightarrow> (cooldown, sh\<lparr>sh_table := t', sh_metrics := m'\<rparr>)))"

definition overload :: "env \<Rightarrow> shared \<Rightarrow> shared" where
  "overload e sh = sh\<lparr>sh_circuit := record_overload (e_note e) (sh_circuit sh)\<rparr>"

definition neutral :: "shared \<Rightarrow> shared" where
  "neutral sh = sh\<lparr>sh_circuit := record_neutral_failure (sh_circuit sh)\<rparr>"

definition count_transport_error :: "shared \<Rightarrow> shared" where
  "count_transport_error sh = sh\<lparr>sh_metrics := (sh_metrics sh)\<lparr>
     upstream_transport_errors_total := upstream_transport_errors_total (sh_metrics sh) + 1\<rparr>\<rparr>"

definition transient_failure :: "nat \<Rightarrow> string \<Rightarrow> error_class \<Rightarrow> route_target \<Rightarrow> string \<Rightarrow> nat \<Rightarrow> env
    \<Rightarrow> shared \<Rightarrow> failure \<times> shared" where
  "transient_failure status message cls target tag attempt e sh =
     (case transient target tag attempt None e (overload e sh) of (cooldown, sh') \<Rightarrow>
        (\<lparr>fl_error = plain_error status message cls, fl_rule = TryRoute cooldown\<rparr>, sh'))"

definition on_send_error :: "transport_error \<Rightarrow> route_target \<Rightarrow> string \<Rightarrow> nat \<Rightarrow> env \<Rightarrow> shared \<Rightarrow> failure \<times> shared" where
  "on_send_error err target tag attempt e sh =
     transient_failure 502 ''could not reach the SenseNova upstream''
       (if te_timeout err then QueueTimeout else TransportTransient) target tag attempt e
       (count_transport_error sh)"

definition on_stream_failure :: "transport_error option \<Rightarrow> route_target \<Rightarrow> string \<Rightarrow> nat \<Rightarrow> env \<Rightarrow> shared \<Rightarrow> failure \<times> shared" where
  "on_stream_failure err target tag attempt e sh =
     transient_failure 502 ''upstream stream ended before any output''
       (case err of Some x \<Rightarrow> if te_timeout x then QueueTimeout else TransportTransient
        | None \<Rightarrow> TransportTransient) target tag attempt e (count_transport_error sh)"

definition on_first_byte_timeout :: "route_target \<Rightarrow> string \<Rightarrow> nat \<Rightarrow> env \<Rightarrow> shared \<Rightarrow> failure \<times> shared" where
  "on_first_byte_timeout target tag attempt e sh =
     transient_failure 504 ''upstream produced no output before the deadline'' QueueTimeout
       target tag attempt e sh"

definition on_invalid_json :: "route_target \<Rightarrow> string \<Rightarrow> nat \<Rightarrow> env \<Rightarrow> shared \<Rightarrow> failure \<times> shared" where
  "on_invalid_json target tag attempt e sh =
     transient_failure 502 ''upstream returned invalid JSON'' ServerTransient target tag attempt e sh"

text \<open>A committed success; affinity is only written by a first attempt.\<close>

definition on_success :: "duration option \<Rightarrow> duration \<Rightarrow> route_target \<Rightarrow> string \<Rightarrow> nat \<Rightarrow> env
    \<Rightarrow> inflight_guard \<Rightarrow> shared \<Rightarrow> inflight_guard \<times> shared" where
  "on_success ttft elapsed target tag attempt e g sh =
     (let t1 = note_success target ttft elapsed (sh_table sh);
          t2 = (if attempt = 1 then note_session_route tag target (e_note e) t1 else t1)
      in (case release_probe g t2 of (g', t3) \<Rightarrow>
            (g', sh\<lparr>sh_table := t3, sh_circuit := record_success (sh_circuit sh)\<rparr>)))"

section \<open>Error answers\<close>

record answer_context =
  ac_status :: nat
  ac_class :: error_class
  ac_message :: string
  ac_hint :: "retry_hint option"
  ac_sanitized :: json

definition read_error :: "core \<Rightarrow> env \<Rightarrow> nat \<Rightarrow> headers \<Rightarrow> read_event list \<Rightarrow> answer_context" where
  "read_error co e status hs events =
     (let body = read_limited max_error_body_bytes events [];
          cl = classify_upstream_error (co_ext co) (e_wall e) status hs body (co_rate_limit_fallback co);
          sanitized = sanitized_body co body
      in \<lparr>ac_status = status, ac_class = cl_class cl,
          ac_message = sanitized_message sanitized (default_message_for_status status),
          ac_hint = cl_retry_hint cl, ac_sanitized = sanitized\<rparr>)"

definition answer_error :: "answer_context \<Rightarrow> nat \<Rightarrow> duration option \<Rightarrow> gateway_error" where
  "answer_error ac status retry_after = \<lparr>gw_status = status, gw_message = ac_message ac,
     gw_class = ac_class ac, gw_retry_after = retry_after, gw_sanitized = Some (ac_sanitized ac)\<rparr>"

definition on_rate_limited :: "answer_context \<Rightarrow> route_target \<Rightarrow> string \<Rightarrow> nat \<Rightarrow> env \<Rightarrow> shared \<Rightarrow> failure \<times> shared" where
  "on_rate_limited ac target tag attempt e sh =
     (let m0 = (sh_metrics sh)\<lparr>upstream_429_total := upstream_429_total (sh_metrics sh) + 1,
                  model_account_429_total := model_account_429_total (sh_metrics sh) + 1\<rparr>;
          fallback_hint = (case ac_hint ac of Some h \<Rightarrow> rh_source h = Fallback | None \<Rightarrow> False);
          streak = (if fallback_hint then rate_limit_streak target (sh_table sh) else 0);
          hint = (if fallback_hint then None else map_option rh_duration (ac_hint ac))
      in (case note_rate_limited target attempt streak hint (pseudo_jitter (e_nanos e)) (e_note e)
                 (sh_table sh) m0 of (cooldown, t1, m1) \<Rightarrow>
         (case break_affinity tag t1 m1 of (t2, m2) \<Rightarrow>
           (\<lparr>fl_error = answer_error ac 429 (Some (retry_after_for cooldown)), fl_rule = TryRoute cooldown\<rparr>,
            sh\<lparr>sh_table := t2, sh_metrics := m2\<rparr>))))"

definition on_quota_exhausted :: "core \<Rightarrow> answer_context \<Rightarrow> route_target \<Rightarrow> string \<Rightarrow> env \<Rightarrow> shared \<Rightarrow> failure \<times> shared" where
  "on_quota_exhausted co ac target tag e sh =
     (let m0 = (sh_metrics sh)\<lparr>upstream_429_total := upstream_429_total (sh_metrics sh) + 1,
                  quota_exhaustion_total := quota_exhaustion_total (sh_metrics sh) + 1\<rparr>;
          cooldown = cap_cooldown (case ac_hint ac of Some h \<Rightarrow> rh_duration h | None \<Rightarrow> from_secs 3600)
                       (co_max_quota_cooldown co);
          t1 = note_quota_exhausted target cooldown (e_note e) (sh_table sh)
      in (case break_affinity tag t1 m0 of (t2, m2) \<Rightarrow>
         (case usable_route_count (e_note e) t2 of (n, t3) \<Rightarrow>
           (\<lparr>fl_error = answer_error ac 429 (Some (retry_after_for cooldown)), fl_rule = TryGroup\<rparr>,
            sh\<lparr>sh_table := t3, sh_metrics := m2,
               sh_circuit := (if n = 0 then record_quota_exhaustion cooldown (e_note e) (sh_circuit sh)
                              else sh_circuit sh)\<rparr>))))"

definition on_credential_rejected :: "answer_context \<Rightarrow> route_target \<Rightarrow> string \<Rightarrow> shared \<Rightarrow> failure \<times> shared" where
  "on_credential_rejected ac target tag sh =
     (let t1 = (if ac_class ac = Authentication then note_authentication_failure target (sh_table sh)
                else sh_table sh)
      in (case break_affinity tag t1 (sh_metrics sh) of (t2, m2) \<Rightarrow>
           (\<lparr>fl_error = answer_error ac (ac_status ac) None, fl_rule = TryRoute 0\<rparr>,
            neutral (sh\<lparr>sh_table := t2, sh_metrics := m2\<rparr>))))"

definition on_not_found :: "answer_context \<Rightarrow> route_target \<Rightarrow> string \<Rightarrow> env \<Rightarrow> shared \<Rightarrow> failure \<times> shared" where
  "on_not_found ac target tag e sh =
     (case break_affinity tag (note_model_missing target (e_note e) (sh_table sh)) (sh_metrics sh) of (t2, m2) \<Rightarrow>
        (\<lparr>fl_error = answer_error ac (ac_status ac) None, fl_rule = TryModel\<rparr>,
         neutral (sh\<lparr>sh_table := t2, sh_metrics := m2\<rparr>)))"

definition on_server_error :: "answer_context \<Rightarrow> route_target \<Rightarrow> string \<Rightarrow> nat \<Rightarrow> env \<Rightarrow> shared \<Rightarrow> failure \<times> shared" where
  "on_server_error ac target tag attempt e sh =
     (let sh1 = sh\<lparr>sh_metrics := (sh_metrics sh)\<lparr>upstream_5xx_total := upstream_5xx_total (sh_metrics sh) + 1\<rparr>\<rparr>
      in (case transient target tag attempt (map_option rh_duration (ac_hint ac)) e (overload e sh1) of (cooldown, sh2) \<Rightarrow>
           (\<lparr>fl_error = answer_error ac (if ac_status ac = 408 then 504 else ac_status ac) None,
             fl_rule = TryRoute cooldown\<rparr>, sh2)))"

definition on_invalid_request :: "core \<Rightarrow> answer_context \<Rightarrow> route_target \<Rightarrow> string \<Rightarrow> nat \<Rightarrow> env \<Rightarrow> shared \<Rightarrow> failure \<times> shared" where
  "on_invalid_request co ac target tag attempt e sh =
     (if co_max_attempts co \<le> attempt
      then (\<lparr>fl_error = answer_error ac (ac_status ac) None, fl_rule = GiveUp\<rparr>, neutral sh)
      else (case transient target tag attempt None e (neutral sh) of (cooldown, sh2) \<Rightarrow>
           (\<lparr>fl_error = answer_error ac (ac_status ac) None, fl_rule = TryRoute cooldown\<rparr>, sh2)))"

definition on_error_answer :: "core \<Rightarrow> answer_context \<Rightarrow> route_target \<Rightarrow> string \<Rightarrow> nat \<Rightarrow> env \<Rightarrow> shared \<Rightarrow> failure \<times> shared" where
  "on_error_answer co ac target tag attempt e sh = (case ac_class ac of
      RateLimited \<Rightarrow> on_rate_limited ac target tag attempt e sh
    | QuotaExhausted \<Rightarrow> on_quota_exhausted co ac target tag e sh
    | Authentication \<Rightarrow> on_credential_rejected ac target tag sh
    | Permission \<Rightarrow> on_credential_rejected ac target tag sh
    | NotFound \<Rightarrow> on_not_found ac target tag e sh
    | ServerTransient \<Rightarrow> on_server_error ac target tag attempt e sh
    | QueueTimeout \<Rightarrow> on_server_error ac target tag attempt e sh
    | TransportTransient \<Rightarrow> on_server_error ac target tag attempt e sh
    | Unknown \<Rightarrow> (\<lparr>fl_error = answer_error ac (ac_status ac) None, fl_rule = GiveUp\<rparr>, neutral sh)
    | StreamInterrupted \<Rightarrow> (\<lparr>fl_error = answer_error ac (ac_status ac) None, fl_rule = GiveUp\<rparr>, neutral sh)
    | InvalidRequest \<Rightarrow> on_invalid_request co ac target tag attempt e sh)"

section \<open>The loop\<close>

datatype send_result =
  SentJson string route_target nat
| SentStream string "read_event list" route_target nat
| SendErr gateway_error
| SendPanic

record send_request =
  rq_stream :: bool
  rq_id :: string
  rq_canonical :: string
  rq_tag :: string
  rq_spec :: route_spec

text \<open>What the attempt did on the wire, and how long the loop slept after it.\<close>

record dial =
  dl_target :: route_target
  dl_request :: wire_request
  dl_sleep :: "duration option"

text \<open>The exchange with the upstream: a committed result or a classified failure.\<close>

definition handle_exchange :: "core \<Rightarrow> send_request \<Rightarrow> route_target \<Rightarrow> nat \<Rightarrow> env \<Rightarrow> inflight_guard
    \<Rightarrow> exchange \<Rightarrow> shared \<Rightarrow> (send_result + failure) \<times> inflight_guard \<times> shared" where
  "handle_exchange co rq target attempt e g x sh =
     (let tag = rq_tag rq;
          failed = (\<lambda>r. case r of (f, sh') \<Rightarrow> (Inr f, g, sh'));
          elapsed = e_note e - e_start e
      in (case x of
          SendFailed err \<Rightarrow> failed (on_send_error err target tag attempt e sh)
        | Answered status hs events \<Rightarrow>
            if 200 \<le> status \<and> status < 300 then
              (if rq_stream rq then
                 (case read_first_byte events of
                    FirstChunk c rest \<Rightarrow>
                      (case on_success (Some elapsed) elapsed target tag attempt e g
                              (sh\<lparr>sh_metrics := note_time_to_first_event elapsed (sh_metrics sh)\<rparr>) of
                         (g', sh') \<Rightarrow> (Inl (SentStream c rest target attempt), g', sh'))
                  | FirstEof \<Rightarrow> failed (on_stream_failure None target tag attempt e sh)
                  | FirstTransport err \<Rightarrow> failed (on_stream_failure (Some err) target tag attempt e sh)
                  | FirstTimeout \<Rightarrow> failed (on_first_byte_timeout target tag attempt e sh))
               else
                 (let bytes = read_limited max_upstream_response_bytes events []
                  in if x_parse_json (co_ext co) bytes \<noteq> None
                     then (case on_success None elapsed target tag attempt e g sh of
                             (g', sh') \<Rightarrow> (Inl (SentJson bytes target attempt), g', sh'))
                     else failed (on_invalid_json target tag attempt e sh)))
            else failed (on_error_answer co (read_error co e status hs events) target tag attempt e sh)))"

definition follow_up :: "core \<Rightarrow> send_request \<Rightarrow> route_target \<Rightarrow> identity set \<Rightarrow> nat \<Rightarrow> nat \<Rightarrow> env
    \<Rightarrow> retry_rule \<Rightarrow> shared \<Rightarrow> next_step \<times> nat \<times> shared" where
  "follow_up co rq target skipped same_route attempt e rule sh = (case rule of
      TryRoute cooldown \<Rightarrow> next_attempt co (rq_spec rq) (rq_tag rq) target skipped same_route attempt cooldown e sh
    | TryGroup \<Rightarrow> (case next_attempt_group co (rq_spec rq) (rq_tag rq) target skipped attempt e sh of
          (n, sh') \<Rightarrow> (n, same_route, sh'))
    | TryModel \<Rightarrow> (case next_attempt_model co (rq_spec rq) (rq_tag rq) target skipped attempt e sh of
          (n, sh') \<Rightarrow> (n, same_route, sh'))
    | GiveUp \<Rightarrow> (Stop, same_route, sh))"

datatype attempt_outcome = Done send_result | Again "identity set" nat gateway_error

definition refused_error :: "duration \<Rightarrow> string \<Rightarrow> gateway_error" where
  "refused_error rem why = \<lparr>gw_status = 429,
     gw_message = ''upstream temporarily unavailable (circuit open: '' @ why @ '')'',
     gw_class = RateLimited, gw_retry_after = Some rem, gw_sanitized = None\<rparr>"

text \<open>The dial of a planned and admitted target, up to the decision; \<open>attempt\<close> counts it.\<close>

definition dial_target :: "core \<Rightarrow> send_request \<Rightarrow> env \<Rightarrow> nat \<Rightarrow> identity set \<Rightarrow> nat \<Rightarrow> route_target
    \<Rightarrow> shared \<Rightarrow> attempt_outcome \<times> dial option \<times> shared" where
  "dial_target co rq e attempt skipped same_route target sh =
     (let sh1 = sh\<lparr>sh_metrics := (sh_metrics sh)\<lparr>
            route_attempts_total := route_attempts_total (sh_metrics sh) + 1,
            upstream_requests_total := upstream_requests_total (sh_metrics sh) + 1\<rparr>\<rparr>
      in (case rewrite_model (co_ext co) (rq_canonical rq) (rt_model target) of
          Inl err \<Rightarrow> (Done (SendErr err), None, sh1)
        | Inr body \<Rightarrow>
            (case begin_attempt target (sh_table sh1) of (g, t) \<Rightarrow>
             let wire = send_once co target body (rq_stream rq) (rq_id rq);
                 sh2 = e_during e (sh1\<lparr>sh_table := t\<rparr>)
             in (case handle_exchange co rq target attempt e g (e_exchange e target wire) sh2 of (r, g', sh3) \<Rightarrow>
                 let sh4 = sh3\<lparr>sh_table := drop_guard g' (sh_table sh3)\<rparr>;
                     made = (\<lambda>w. Some \<lparr>dl_target = target, dl_request = wire, dl_sleep = w\<rparr>)
                 in (case r of
                     Inl done \<Rightarrow> (Done done, made None, sh4)
                   | Inr f \<Rightarrow>
                       (case follow_up co rq target skipped same_route attempt e (fl_rule f) sh4 of
                          (Stop, _, sh5) \<Rightarrow> (Done (SendErr (fl_error f)), made None, sh5)
                        | (NextPanic, _, sh5) \<Rightarrow> (Done SendPanic, made None, sh5)
                        | (Proceed w, same_route', sh5) \<Rightarrow>
                            (Again skipped same_route' (fl_error f), made w, sh5)))))))"

definition attempt_once :: "core \<Rightarrow> send_request \<Rightarrow> env \<Rightarrow> nat \<Rightarrow> identity set \<Rightarrow> nat \<Rightarrow> shared
    \<Rightarrow> attempt_outcome \<times> dial option \<times> shared" where
  "attempt_once co rq e attempt skipped same_route sh =
     (let sh0 = e_before e sh
      in (case plan (rq_spec rq) (rq_tag rq) skipped (e_plan e) (e_target e) (sh_table sh0) (sh_metrics sh0) of
           (r, t, m) \<Rightarrow>
             let sh1 = sh0\<lparr>sh_table := t, sh_metrics := m\<rparr>
             in (case r of
                 PlanPanic \<Rightarrow> (Done SendPanic, None, sh1)
               | Waitable w \<Rightarrow> (case route_unavailable co w (e_admit e) sh1 of (err, sh2) \<Rightarrow>
                     (Done (SendErr err), None, sh2))
               | Planned p \<Rightarrow> (case admit (e_admit e) (sh_circuit sh1) of
                     (Refused rem why, cb) \<Rightarrow>
                       (Done (SendErr (refused_error rem why)), None, sh1\<lparr>sh_circuit := cb\<rparr>)
                   | (Allowed, cb) \<Rightarrow>
                       dial_target co rq e (Suc attempt) (insert (identity (p_target p)) skipped)
                         same_route (p_target p) (sh1\<lparr>sh_circuit := cb\<rparr>)))))"

definition exhausted :: "env \<Rightarrow> gateway_error option \<Rightarrow> shared \<Rightarrow> send_result \<times> shared" where
  "exhausted e prior sh =
     (let sh1 = sh\<lparr>sh_metrics := (sh_metrics sh)\<lparr>
            routing_exhausted_total := routing_exhausted_total (sh_metrics sh) + 1\<rparr>\<rparr>
      in (case prior of
          Some err \<Rightarrow> (SendErr err, sh1)
        | None \<Rightarrow> (case earliest_retry_after (e_plan e) (sh_table sh1) of (w, t) \<Rightarrow>
            (SendErr \<lparr>gw_status = 429,
               gw_message = ''all routing options for this request were exhausted'',
               gw_class = RateLimited, gw_retry_after = w, gw_sanitized = None\<rparr>, sh1\<lparr>sh_table := t\<rparr>))))"

text \<open>The loop; the environment of the n-th iteration is \<open>envs n\<close>, dials are collected in order.\<close>

function send_loop :: "core \<Rightarrow> send_request \<Rightarrow> (nat \<Rightarrow> env) \<Rightarrow> nat \<Rightarrow> identity set \<Rightarrow> nat
    \<Rightarrow> gateway_error option \<Rightarrow> shared \<Rightarrow> send_result \<times> dial list \<times> shared" where
  "send_loop co rq envs attempt skipped same_route prior sh =
     (if co_max_attempts co \<le> attempt
      then (case exhausted (envs attempt) prior (e_before (envs attempt) sh) of (r, sh') \<Rightarrow> (r, [], sh'))
      else (case attempt_once co rq (envs attempt) attempt skipped same_route sh of (out, d, sh') \<Rightarrow>
        (case out of
          Done r \<Rightarrow> (r, case d of Some x \<Rightarrow> [x] | None \<Rightarrow> [], sh')
        | Again skipped' same_route' err \<Rightarrow>
            (case send_loop co rq envs (Suc attempt) skipped' same_route' (Some err) sh' of (r, ds, sh'') \<Rightarrow>
              (r, (case d of Some x \<Rightarrow> x # ds | None \<Rightarrow> ds), sh'')))))"
  by pat_completeness auto
termination
  by (relation "measure (\<lambda>(co, rq, envs, attempt, skipped, same_route, prior, sh). co_max_attempts co - attempt)") auto

declare send_loop.simps [simp del]

definition send_messages :: "core \<Rightarrow> send_request \<Rightarrow> (nat \<Rightarrow> env) \<Rightarrow> shared \<Rightarrow> send_result \<times> dial list \<times> shared" where
  "send_messages co rq envs sh = send_loop co rq envs 0 {} 0 None sh"

end
