(* ===== verification/Sse.thy ===== *)
theory Sse
  imports Utf8 Json
begin

text \<open>
  \<open>src/sse.rs\<close>: the bounded incremental decoder of server-sent events that observes the
  passthrough stream.  Bytes are a \<open>string\<close>; \<open>Err(())\<close> is \<open>None\<close>, with the decoder it leaves.
\<close>

definition max_event_bytes :: nat where "max_event_bytes = 8 * 1024 * 1024"

record sse_event =
  ev_event :: "string option"
  ev_data :: string

record sse_decoder =
  sd_buffer :: string
  sd_event :: "string option"
  sd_lines :: "string list"
  sd_bytes :: nat
  sd_overflow :: bool

definition new_decoder :: sse_decoder where
  "new_decoder = \<lparr>sd_buffer = [], sd_event = None, sd_lines = [], sd_bytes = 0, sd_overflow = False\<rparr>"

definition dispatch :: "sse_decoder \<Rightarrow> sse_event list \<Rightarrow> sse_decoder \<times> sse_event list" where
  "dispatch d events =
     (if sd_lines d = [] then (d\<lparr>sd_event := None\<rparr>, events)
      else (d\<lparr>sd_event := None, sd_lines := [], sd_bytes := 0\<rparr>,
            events @ [\<lparr>ev_event = sd_event d, ev_data = join_with [CHR 0x0A] (sd_lines d)\<rparr>]))"

definition strip_space :: "string \<Rightarrow> string" where
  "strip_space v = (case strip_prefix '' '' v of Some r \<Rightarrow> r | None \<Rightarrow> v)"

definition process_line :: "string \<Rightarrow> sse_decoder \<Rightarrow> sse_event list \<Rightarrow> sse_decoder \<times> sse_event list" where
  "process_line line d events =
     (if line = [] then dispatch d events
      else if starts_with '':'' line then (d, events)
      else (case strip_prefix ''data:'' line of
          Some v \<Rightarrow> let v' = strip_space v in
            (d\<lparr>sd_bytes := sat_add u64_max (sd_bytes d) (length v'), sd_lines := sd_lines d @ [v']\<rparr>, events)
        | None \<Rightarrow> (case strip_prefix ''event:'' line of
            Some v \<Rightarrow> (d\<lparr>sd_event := Some (strip_space v)\<rparr>, events)
          | None \<Rightarrow> (d, events))))"

text \<open>The line before the first newline and what follows it.\<close>

definition next_line :: "string \<Rightarrow> (string \<times> string) option" where
  "next_line s = (if CHR 0x0A \<in> set s
     then Some (takeWhile (\<lambda>c. c \<noteq> CHR 0x0A) s, tl (dropWhile (\<lambda>c. c \<noteq> CHR 0x0A) s)) else None)"

definition strip_cr :: "string \<Rightarrow> string" where
  "strip_cr line = (if line \<noteq> [] \<and> last line = CHR 0x0D then butlast line else line)"

lemma next_line_length: "next_line s = Some (l, r) \<Longrightarrow> length r < length s"
proof -
  assume a: "next_line s = Some (l, r)"
  then have "CHR 0x0A \<in> set s" "r = tl (dropWhile (\<lambda>c. c \<noteq> CHR 0x0A) s)" by (auto simp: next_line_def split: if_splits)
  moreover from this(1) have "dropWhile (\<lambda>c. c \<noteq> CHR 0x0A) s \<noteq> []" by (auto simp: dropWhile_eq_Nil_conv)
  moreover have "length (dropWhile (\<lambda>c. c \<noteq> CHR 0x0A) s) \<le> length s" by (rule length_dropWhile_le)
  ultimately show ?thesis by (cases "dropWhile (\<lambda>c. c \<noteq> CHR 0x0A) s") auto
qed

text \<open>The \<open>while let\<close> of \<open>push\<close>: every complete line of the buffer.\<close>

function drain :: "string \<Rightarrow> sse_decoder \<Rightarrow> sse_event list \<Rightarrow> sse_decoder \<times> sse_event list option" where
  "drain buf d events = (case next_line buf of
      None \<Rightarrow> (d\<lparr>sd_buffer := buf\<rparr>, Some events)
    | Some (line, rest) \<Rightarrow>
        (case process_line (from_utf8_lossy (strip_cr line)) d events of (d', events') \<Rightarrow>
           if max_event_bytes < sd_bytes d' then (d'\<lparr>sd_buffer := rest, sd_overflow := True\<rparr>, None)
           else drain rest d' events'))"
  by pat_completeness auto
termination
  by (relation "measure (\<lambda>(buf, d, events). length buf)") (auto dest: next_line_length)

declare drain.simps [simp del]

definition push :: "string \<Rightarrow> sse_decoder \<Rightarrow> sse_decoder \<times> sse_event list option" where
  "push bytes d =
     (if sd_overflow d \<or> max_event_bytes < sat_add u64_max (length (sd_buffer d)) (length bytes)
      then (d\<lparr>sd_overflow := True\<rparr>, None)
      else drain (sd_buffer d @ bytes) d [])"

definition finish :: "sse_decoder \<Rightarrow> sse_decoder \<times> sse_event list option" where
  "finish d =
     (if sd_overflow d then (d, None)
      else (case (if sd_buffer d \<noteq> []
                  then process_line (from_utf8_lossy (sd_buffer d)) (d\<lparr>sd_buffer := []\<rparr>) []
                  else (d, [])) of (d1, events1) \<Rightarrow>
        (case dispatch d1 events1 of (d2, events2) \<Rightarrow> (d2, Some events2))))"

section \<open>Protocol facts of one event\<close>

datatype event_kind =
  MessageStart | ContentBlockStart string | ContentBlockStop | MessageDelta | MessageStop
| PingEvent | ErrorEvent | OtherEvent

definition block_type_of :: "json \<Rightarrow> string" where
  "block_type_of v =
     (let t = (case and_then (and_then (jget ''content_block'' v) (jget ''type'')) as_str of
         Some s \<Rightarrow> s | None \<Rightarrow> ''other'')
      in if t \<in> set [''text'', ''thinking'', ''tool_use''] then t else ''other'')"

definition classify_event :: "(string \<Rightarrow> json option) \<Rightarrow> sse_event \<Rightarrow> event_kind" where
  "classify_event parse e = (case parse (ev_data e) of
      None \<Rightarrow> OtherEvent
    | Some v \<Rightarrow> (case and_then (jget ''type'' v) as_str of
        None \<Rightarrow> OtherEvent
      | Some k \<Rightarrow>
          if k = ''message_start'' then MessageStart
          else if k = ''content_block_start'' then ContentBlockStart (block_type_of v)
          else if k = ''content_block_stop'' then ContentBlockStop
          else if k = ''message_delta'' then MessageDelta
          else if k = ''message_stop'' then MessageStop
          else if k = ''ping'' then PingEvent
          else if k = ''error'' then ErrorEvent
          else OtherEvent))"

end
