(* ===== verification/Stream.thy ===== *)
theory Stream
  imports Sse Metrics
begin

text \<open>
  \<open>src/server.rs\<close>, the body of a streaming answer: \<open>StreamPump\<close>, the generator of
  \<open>stream_body\<close>, and \<open>RequestScope\<close>, the accounting of one accepted request.

  The generator may be dropped wherever it is suspended.  At an await that is the input
  \<open>ClientGone\<close>; at a \<open>yield\<close> it is \<open>pu_polls\<close> running out, the number of times the client polls for
  a frame (\<open>None\<close> for a client that stays).
\<close>

section \<open>The request scope\<close>

text \<open>The clock readings of the scope's end: the elapsed time and the Unix time of a failure.\<close>

record scope_clock =
  ck_elapsed :: duration
  ck_unix :: nat

definition finish_json :: "scope_clock \<Rightarrow> nat \<Rightarrow> bool \<times> metrics \<Rightarrow> bool \<times> metrics" where
  "finish_json ck tool_calls s = (case s of (finished, m) \<Rightarrow>
     if finished then s
     else (True, (note_request_duration (ck_elapsed ck) (dec_requests m))
       \<lparr>tool_calls_total := tool_calls_total (note_request_duration (ck_elapsed ck) (dec_requests m)) + of_nat tool_calls\<rparr>))"

definition finish_error :: "scope_clock \<Rightarrow> string \<Rightarrow> bool \<times> metrics \<Rightarrow> bool \<times> metrics" where
  "finish_error ck cls s = (case s of (finished, m) \<Rightarrow>
     if finished then s
     else (True, note_failure cls (ck_unix ck) (note_request_duration (ck_elapsed ck) (dec_requests m))))"

text \<open>\<open>finish_stream\<close> differs from \<open>finish_json\<close> only in what it logs.\<close>

definition finish_stream :: "scope_clock \<Rightarrow> nat \<Rightarrow> bool \<times> metrics \<Rightarrow> bool \<times> metrics" where
  "finish_stream ck tool_calls s = (case s of (finished, m) \<Rightarrow>
     if finished then s
     else (True, (note_request_duration (ck_elapsed ck) (dec_requests m))
       \<lparr>tool_calls_total := tool_calls_total (note_request_duration (ck_elapsed ck) (dec_requests m)) + of_nat tool_calls\<rparr>))"

text \<open>\<open>Drop for RequestScope\<close>: an unfinished scope was cancelled.\<close>

definition drop_scope :: "scope_clock \<Rightarrow> bool \<times> metrics \<Rightarrow> bool \<times> metrics" where
  "drop_scope ck s = (case s of (finished, m) \<Rightarrow>
     if finished then s
     else (True, note_failure ''client_disconnected'' (ck_unix ck) (note_request_duration (ck_elapsed ck) (dec_requests m))))"

section \<open>The pump\<close>

text \<open>What the body yields: a chunk as it came, the gateway's error frame, the keepalive.\<close>

datatype frame = Raw string | ErrorFrame string | Keepalive

record pump =
  pu_decoder :: sse_decoder
  pu_clean_stop :: bool
  pu_tool_calls :: nat
  pu_committed :: bool
  pu_scope :: "bool \<times> metrics"
  pu_frames :: "frame list"
  pu_polls :: "nat option"

record stream_env =
  se_parse :: "string \<Rightarrow> json option"
  se_clock :: scope_clock
  se_ping :: "duration option"

definition ping_interval :: "nat \<Rightarrow> duration option" where
  "ping_interval secs = (if secs = 0 then None else Some (from_secs (max secs 1)))"

text \<open>The text of \<open>sse_error_frame\<close>: its JSON is printed by the crate, in key order.\<close>

definition error_frame_json :: "string \<Rightarrow> json" where
  "error_frame_json message = JObject [(''error'', JObject [(''message'', JString message),
     (''type'', JString ''api_error'')]), (''type'', JString ''error'')]"

text \<open>The bytes of a frame, with the crate's printer of JSON.\<close>

definition frame_bytes :: "(json \<Rightarrow> string) \<Rightarrow> frame \<Rightarrow> string" where
  "frame_bytes print f = (case f of
      Raw c \<Rightarrow> c
    | ErrorFrame message \<Rightarrow> ''event: error'' @ [CHR 0x0A] @ ''data: '' @ print (error_frame_json message) @ [CHR 0x0A, CHR 0x0A]
    | Keepalive \<Rightarrow> ''event: ping'' @ [CHR 0x0A] @ ''data: {'' @ [CHR 0x22] @ ''type'' @ [CHR 0x22] @ '':'' @ [CHR 0x22]
        @ ''ping'' @ [CHR 0x22] @ ''}'' @ [CHR 0x0A, CHR 0x0A])"

definition new_pump :: "metrics \<Rightarrow> nat option \<Rightarrow> pump" where
  "new_pump m polls = \<lparr>pu_decoder = new_decoder, pu_clean_stop = False, pu_tool_calls = 0,
     pu_committed = False, pu_scope = (False, m), pu_frames = [], pu_polls = polls\<rparr>"

definition count_protocol_error :: "pump \<Rightarrow> pump" where
  "count_protocol_error p = p\<lparr>pu_scope := (case pu_scope p of (f, m) \<Rightarrow>
     (f, m\<lparr>stream_protocol_errors_total := stream_protocol_errors_total m + 1\<rparr>))\<rparr>"

definition count_interruption :: "pump \<Rightarrow> pump" where
  "count_interruption p = p\<lparr>pu_scope := (case pu_scope p of (f, m) \<Rightarrow>
     (f, m\<lparr>stream_interruptions_total := stream_interruptions_total m + 1\<rparr>))\<rparr>"

definition fail_scope :: "stream_env \<Rightarrow> string \<Rightarrow> pump \<Rightarrow> pump" where
  "fail_scope e cls p = p\<lparr>pu_scope := finish_error (se_clock e) cls (pu_scope p)\<rparr>"

definition finish_complete :: "stream_env \<Rightarrow> pump \<Rightarrow> pump" where
  "finish_complete e p = p\<lparr>pu_scope := finish_stream (se_clock e) (pu_tool_calls p) (pu_scope p)\<rparr>"

text \<open>\<open>process_events\<close>: whether to terminate, the error frame to send first, the pump.\<close>

fun process_events :: "stream_env \<Rightarrow> sse_event list \<Rightarrow> pump \<Rightarrow> bool \<times> frame option \<times> pump" where
  "process_events e [] p = (False, None, p)"
| "process_events e (ev # evs) p =
     (if ev_event ev = Some ''ping'' then process_events e evs p
      else if trim (ev_data ev) = ''[DONE]'' then process_events e evs p
      else if se_parse e (ev_data ev) = None
        then (True, Some (ErrorFrame ''upstream sent invalid SSE data''),
              fail_scope e ''protocol_error'' (count_protocol_error p))
      else (case classify_event (se_parse e) ev of
          ContentBlockStart bt \<Rightarrow> process_events e evs
            (if bt = ''tool_use'' then p\<lparr>pu_tool_calls := sat_add u64_max (pu_tool_calls p) 1\<rparr> else p)
        | MessageStop \<Rightarrow> process_events e evs (p\<lparr>pu_clean_stop := True\<rparr>)
        | ErrorEvent \<Rightarrow> (True, None, fail_scope e ''upstream_error_event'' p)
        | _ \<Rightarrow> process_events e evs p))"

text \<open>A step of the generator: it goes on, or it has returned or been dropped.\<close>

datatype progress = Go pump | Halt pump

fun and_go :: "progress \<Rightarrow> (pump \<Rightarrow> progress) \<Rightarrow> progress" where
  "and_go (Go p) k = k p"
| "and_go (Halt p) k = Halt p"

definition yield_frame :: "frame \<Rightarrow> pump \<Rightarrow> progress" where
  "yield_frame f p =
     (let p' = p\<lparr>pu_frames := pu_frames p @ [f], pu_polls := map_option (\<lambda>n. n - 1) (pu_polls p)\<rparr>
      in if pu_polls p' = Some 0 then Halt p' else Go p')"

text \<open>After a chunk was forwarded: its events, then the end if they brought one.\<close>

definition observe :: "stream_env \<Rightarrow> sse_event list \<Rightarrow> pump \<Rightarrow> progress" where
  "observe e events p = (case process_events e events p of (terminate, frm, p1) \<Rightarrow>
     and_go (case frm of Some f \<Rightarrow> yield_frame f p1 | None \<Rightarrow> Go p1) (\<lambda>p2.
       if terminate then Halt p2
       else if pu_clean_stop p2 then Halt (finish_complete e p2)
       else Go p2))"

text \<open>The first chunk is forwarded even when the decoder refuses it, later ones are not.\<close>

definition first_chunk :: "stream_env \<Rightarrow> string \<Rightarrow> pump \<Rightarrow> progress" where
  "first_chunk e chunk p = (case push chunk (pu_decoder p) of
      (d, None) \<Rightarrow>
        and_go (yield_frame (Raw chunk)
            ((fail_scope e ''protocol_error'' (count_protocol_error (p\<lparr>pu_decoder := d\<rparr>)))\<lparr>pu_committed := True\<rparr>)) (\<lambda>p1.
        and_go (yield_frame (ErrorFrame ''upstream SSE event exceeded the gateway limit'') p1) Halt)
    | (d, Some events) \<Rightarrow>
        and_go (yield_frame (Raw chunk) (p\<lparr>pu_decoder := d, pu_committed := True\<rparr>)) (observe e events))"

definition next_chunk :: "stream_env \<Rightarrow> string \<Rightarrow> pump \<Rightarrow> progress" where
  "next_chunk e chunk p = (case push chunk (pu_decoder p) of
      (d, None) \<Rightarrow>
        and_go (yield_frame (ErrorFrame ''upstream SSE event exceeded the gateway limit'')
          (fail_scope e ''protocol_error'' (count_protocol_error (p\<lparr>pu_decoder := d\<rparr>)))) Halt
    | (d, Some events) \<Rightarrow>
        and_go (yield_frame (Raw chunk) (p\<lparr>pu_decoder := d, pu_committed := True\<rparr>)) (observe e events))"

definition upstream_error :: "stream_env \<Rightarrow> pump \<Rightarrow> progress" where
  "upstream_error e p = and_go (yield_frame (ErrorFrame ''upstream stream was interrupted'')
     (fail_scope e ''stream_interrupted'' (count_interruption p))) Halt"

definition upstream_end :: "stream_env \<Rightarrow> pump \<Rightarrow> progress" where
  "upstream_end e p = (case finish (pu_decoder p) of (d, trailing) \<Rightarrow>
     (case process_events e (case trailing of Some evs \<Rightarrow> evs | None \<Rightarrow> []) (p\<lparr>pu_decoder := d\<rparr>) of
        (terminate, frm, p1) \<Rightarrow>
          and_go (case frm of Some f \<Rightarrow> yield_frame f p1 | None \<Rightarrow> Go p1) (\<lambda>p2.
            if terminate then Halt p2
            else if pu_clean_stop p2 then Halt (finish_complete e p2)
            else and_go (yield_frame (ErrorFrame ''upstream stream ended before message_stop'')
                   (fail_scope e ''unexpected_eof'' (count_interruption p2))) Halt)))"

text \<open>
  What the \<open>select!\<close> of the loop receives, in order; the end of the list is the upstream's end.
\<close>

datatype pump_input = UpChunk string | UpError | Tick | ClientGone

fun pump_loop :: "stream_env \<Rightarrow> pump_input list \<Rightarrow> pump \<Rightarrow> progress" where
  "pump_loop e [] p = upstream_end e p"
| "pump_loop e (UpChunk c # is) p =
     (if c = [] then pump_loop e is p else and_go (next_chunk e c p) (pump_loop e is))"
| "pump_loop e (UpError # is) p = upstream_error e p"
| "pump_loop e (Tick # is) p =
     (if se_ping e \<noteq> None \<and> \<not> pu_clean_stop p then and_go (yield_frame Keepalive p) (pump_loop e is)
      else pump_loop e is p)"
| "pump_loop e (ClientGone # is) p = Halt p"

definition halted :: "progress \<Rightarrow> pump" where
  "halted r = (case r of Go p \<Rightarrow> p | Halt p \<Rightarrow> p)"

text \<open>
  The whole body: the pump after the generator returned or was dropped (a body that is never
  polled is dropped as it is), its scope dropped.
\<close>

definition stream_body :: "stream_env \<Rightarrow> string \<Rightarrow> pump_input list \<Rightarrow> pump \<Rightarrow> pump" where
  "stream_body e first is p =
     (let p' = (if pu_polls p = Some 0 then p else halted (and_go (first_chunk e first p) (pump_loop e is)))
      in p'\<lparr>pu_scope := drop_scope (se_clock e) (pu_scope p')\<rparr>)"

end
