(* ===== verification/Auth.thy ===== *)
theory Auth
  imports Prelude
begin

unbundle bit_operations_syntax

text \<open>
  \<open>src/auth.rs\<close>: the local gateway key.  A header map is the lookup of a header's first value as
  text (\<open>None\<close> when it is absent or not visible ASCII); a length is a \<open>usize\<close> of 64 bits.
\<close>

definition byte_at :: "string \<Rightarrow> nat \<Rightarrow> 8 word" where
  "byte_at s i = (if i < length s then of_nat (of_char (s ! i)) else 0)"

definition constant_time_eq :: "string \<Rightarrow> string \<Rightarrow> bool" where
  "constant_time_eq left right =
     (let difference = (of_nat (length left) XOR of_nat (length right) :: 64 word);
          len = max (length left) (length right)
      in fold (\<lambda>index d. d OR ucast (byte_at left index XOR byte_at right index)) [0..<len] difference = 0)"

definition presented_gateway_key :: "(string \<Rightarrow> string option) \<Rightarrow> string option" where
  "presented_gateway_key headers =
     (let bearer = (case headers ''authorization'' of Some v \<Rightarrow> strip_prefix ''Bearer '' v | None \<Rightarrow> None)
      in case bearer of Some k \<Rightarrow> Some k | None \<Rightarrow> headers ''x-api-key'')"

definition gateway_key_is_valid :: "(string \<Rightarrow> string option) \<Rightarrow> string \<Rightarrow> bool" where
  "gateway_key_is_valid headers gateway_key = (case presented_gateway_key headers of
      Some candidate \<Rightarrow> constant_time_eq candidate gateway_key | None \<Rightarrow> False)"

section \<open>The comparison is equality\<close>

lemma or_eq_0: "(a OR b = 0) = (a = 0 \<and> b = (0 :: 64 word))"
  by (metis or.commute or.left_neutral or_eq_0_iff)

lemma fold_or: "fold (\<lambda>i d. d OR f i) is d = (0 :: 64 word) \<longleftrightarrow> d = 0 \<and> (\<forall>i \<in> set is. f i = 0)"
  by (induction "is" arbitrary: d) (auto simp: or_eq_0)

lemma ucast_byte_0: "(ucast (w :: 8 word) :: 64 word) = 0 \<longleftrightarrow> w = 0"
proof -
  have "unat w < 2 ^ 8" by (rule order_less_le_trans [OF unsigned_less]) simp
  then have "unat (ucast w :: 64 word) = unat w" by (simp add: unsigned_ucast_eq take_bit_nat_eq_self)
  then show ?thesis by (metis unat_eq_zero)
qed

lemma word_xor_0: "(a XOR b = 0) = (a = (b :: 'a :: len word))"
  by (metis xor.left_neutral xor_self_eq xor.assoc xor.commute)

lemma byte_eq: "i < length a \<Longrightarrow> i < length b \<Longrightarrow> byte_at a i = byte_at b i \<longleftrightarrow> a ! i = b ! i"
proof -
  assume "i < length a" "i < length b"
  moreover have "(of_nat (of_char c) :: 8 word) = of_nat (of_char d) \<longleftrightarrow> c = d" for c d :: char
  proof
    assume "(of_nat (of_char c) :: 8 word) = of_nat (of_char d)"
    then have "unat (of_nat (of_char c) :: 8 word) = unat (of_nat (of_char d) :: 8 word)" by simp
    then have "(of_char c :: nat) = of_char d" by (simp add: unat_of_nat)
    then show "c = d" by (metis char_of_char)
  qed simp
  ultimately show ?thesis by (simp add: byte_at_def)
qed

lemma constant_time_eq_core:
  assumes "length left < 2 ^ 64" "length right < 2 ^ 64"
  shows "constant_time_eq left right = (left = right)"
proof -
  have len: "(of_nat (length left) :: 64 word) = of_nat (length right) \<longleftrightarrow> length left = length right"
    using assms by (simp add: of_nat_inverse word_unat_eq_iff unat_of_nat)
  have "constant_time_eq left right \<longleftrightarrow> length left = length right
      \<and> (\<forall>i < max (length left) (length right). byte_at left i = byte_at right i)"
    by (auto simp: constant_time_eq_def Let_def fold_or word_xor_0 ucast_byte_0 len)
  also have "\<dots> \<longleftrightarrow> left = right"
    by (auto simp: byte_eq intro!: nth_equalityI)
  finally show ?thesis .
qed

section \<open>The property\<close>

text \<open>C26: The gate.  A request is let in exactly when the credential it presents (a bearer token, or
  else the \<open>x-api-key\<close> header) is the gateway key, byte for byte: the comparison that does not
  stop early decides equality, lengths included (below the 64 bits of a length).\<close>

theorem gateway_key_exact:
  assumes "length key < 2 ^ 64" and "\<And>candidate. presented_gateway_key headers = Some candidate \<Longrightarrow> length candidate < 2 ^ 64"
  shows "gateway_key_is_valid headers key
    = (if \<exists>k. headers ''authorization'' = Some (''Bearer '' @ k) then headers ''authorization'' = Some (''Bearer '' @ key)
       else headers ''x-api-key'' = Some key)"
proof -
  have valid: "gateway_key_is_valid headers key = (presented_gateway_key headers = Some key)"
    using assms constant_time_eq_core [of _ key] by (auto simp: gateway_key_is_valid_def split: option.splits)
  show ?thesis
  proof (cases "\<exists>k. headers ''authorization'' = Some (''Bearer '' @ k)")
    case True
    then obtain k where k: "headers ''authorization'' = Some (''Bearer '' @ k)" ..
    then have "presented_gateway_key headers = Some k"
      unfolding presented_gateway_key_def Let_def k option.case strip_prefix_append by simp
    with True k show ?thesis unfolding valid by simp
  next
    case False
    then have "strip_prefix ''Bearer '' v = None" if "headers ''authorization'' = Some v" for v
      using that by (cases "strip_prefix ''Bearer '' v") (simp_all only: strip_prefix_eq_Some, blast)
    then have "presented_gateway_key headers = headers ''x-api-key''"
      unfolding presented_gateway_key_def Let_def by (cases "headers ''authorization''") simp_all
    with False show ?thesis unfolding valid by simp
  qed
qed

theorem gateway_key_exact_witness:
  "gateway_key_is_valid ((\<lambda>h. None)(''x-api-key'' := Some ''secret'')) ''secret''"
  using gateway_key_exact [of "''secret''" "(\<lambda>h. None)(''x-api-key'' := Some ''secret'')"]
  by (simp add: presented_gateway_key_def)

end
