(* ===== verification/Pool.thy ===== *)
theory Pool
  imports RouterState
begin

text \<open>
  \<open>src/pool.rs\<close>: the configured credentials that could be dialed, and the redacted debug form of a
  selected key.  \<open>SelectedKey\<close> itself is the record \<open>selected_key\<close> of \<^theory_text>\<open>RouterState\<close>.
\<close>

record pool_entry =
  pe_configured_index :: nat
  pe_name :: string
  pe_api_key :: string
  pe_quota_group :: string

definition new_pool :: "sensenova_key_config list \<Rightarrow> pool_entry list" where
  "new_pool configured = map (\<lambda>(i, k). \<lparr>pe_configured_index = i, pe_name = key_name k,
     pe_api_key = key_secret k, pe_quota_group = key_quota_group k\<rparr>)
     (filter (\<lambda>(i, k). key_enabled k) (enumerate 0 configured))"

definition usable_count :: "pool_entry list \<Rightarrow> nat" where
  "usable_count pool = length pool"

text \<open>The fields that \<open>Debug\<close> prints.\<close>

datatype debug_value = DebugNumber nat | DebugText string

definition debug_selected_key :: "selected_key \<Rightarrow> (string \<times> debug_value) list" where
  "debug_selected_key k = [(''index'', DebugNumber (sk_index k)),
     (''configured_index'', DebugNumber (sk_configured_index k)), (''name'', DebugText (sk_name k)),
     (''quota_group'', DebugText (sk_quota_group k)), (''api_key'', DebugText ''[REDACTED]'')]"

definition debug_key_config :: "sensenova_key_config \<Rightarrow> (string \<times> debug_value) list" where
  "debug_key_config k = [(''name'', DebugText (key_name k)), (''api_key'', DebugText ''[REDACTED]''),
     (''enabled'', DebugText (if key_enabled k then ''true'' else ''false'')), (''quota_group'', DebugText (key_quota_group k))]"

definition debug_route_target :: "route_target \<Rightarrow> (string \<times> debug_value) list" where
  "debug_route_target t = [(''model'', DebugText (rt_model t)), (''quota_group'', DebugText (rt_quota_group t)),
     (''key'', DebugText (sk_name (rt_key t))), (''tier'', DebugNumber (rt_tier t))]"

text \<open>The other accessors of the pool.\<close>

definition pool_is_empty :: "pool_entry list \<Rightarrow> bool" where
  "pool_is_empty pool = (pool = [])"

section \<open>The pool and the router agree\<close>

lemma new_pool_router:
  "map (\<lambda>p. (pe_configured_index p, pe_name p, pe_api_key p, pe_quota_group p)) (new_pool (sensenova_api_keys c))
    = map (\<lambda>k. (ke_index k, ke_name k, ke_api_key k, ke_group k)) (t_keys (new_table c))"
  by (simp add: new_pool_def new_table_def enabled_entries_def comp_def case_prod_beta)

text \<open>Nothing that is printed depends on a secret.\<close>

lemma debug_hides_secret:
  "debug_selected_key (k\<lparr>sk_api_key := s\<rparr>) = debug_selected_key k"
  "debug_key_config (kc\<lparr>key_secret := s\<rparr>) = debug_key_config kc"
  "debug_route_target (t\<lparr>rt_key := (rt_key t)\<lparr>sk_api_key := s\<rparr>\<rparr>) = debug_route_target t"
  by (simp_all add: debug_selected_key_def debug_key_config_def debug_route_target_def)

text \<open>A validated configuration gives a pool with a credential.\<close>

lemma pool_not_empty:
  assumes "list_ex key_enabled ks"
  shows "\<not> pool_is_empty (new_pool ks)"
proof -
  from assms obtain i where "i < length ks" "key_enabled (ks ! i)" by (auto simp: list_ex_iff in_set_conv_nth)
  then have "(i, ks ! i) \<in> set (filter (\<lambda>(i, k). key_enabled k) (enumerate 0 ks))" by (simp add: in_set_enumerate_eq)
  then show ?thesis by (fastforce simp: pool_is_empty_def new_pool_def filter_empty_conv)
qed

end
