(* ===== verification/Models.thy ===== *)
theory Models
  imports Config RateLimit "HOL-Library.Char_ord" "HOL-Library.List_Lexorder"
begin

text \<open>
  \<open>src/models.rs\<close>: the local model catalog, the token estimate and the normalization of a Messages
  request, with \<open>ProtocolError\<close> of \<open>src/error.rs\<close>.  None of it touches the network.
\<close>

record protocol_error =
  pe_error_type :: string
  pe_message :: string

definition invalid :: "string \<Rightarrow> protocol_error" where
  "invalid message = \<lparr>pe_error_type = ''invalid_request_error'', pe_message = message\<rparr>"

section \<open>The catalog\<close>

text \<open>\<open>sort\<close> and \<open>dedup\<close>: strings are ordered by their bytes.\<close>

definition model_ids :: "config \<Rightarrow> string list" where
  "model_ids c = remdups_adj (sort
     (models_default (models c) # map fst (profiles_of c) @ map fst (aliases (models c))
      @ map snd (aliases (models c))
      @ concat (map (\<lambda>(name, p). concat (map tier_models (tiers p))) (profiles_of c))))"

text \<open>A number the sources build themselves.\<close>

definition json_nat :: "nat \<Rightarrow> string \<Rightarrow> json" where
  "json_nat n text = JNumber \<lparr>num_u64 = Some n, num_i64 = Some (int n), num_text = text\<rparr>"

definition option_json :: "string option \<Rightarrow> json" where
  "option_json s = (case s of Some x \<Rightarrow> JString x | None \<Rightarrow> JNull)"

definition first_of :: "'a list \<Rightarrow> 'a option" where
  "first_of xs = (case xs of [] \<Rightarrow> None | x # _ \<Rightarrow> Some x)"

definition last_of :: "'a list \<Rightarrow> 'a option" where
  "last_of xs = (if xs = [] then None else Some (last xs))"

definition models_response :: "config \<Rightarrow> (string \<Rightarrow> bool) \<Rightarrow> json" where
  "models_response c has_header =
     (let ids = model_ids c in
      if has_header ''anthropic-version''
      then JObject [(''data'', JArray (map (\<lambda>i. JObject [(''created_at'', JString ''1970-01-01T00:00:00Z''),
               (''display_name'', JString i), (''id'', JString i), (''type'', JString ''model'')]) ids)),
             (''first_id'', option_json (first_of ids)), (''has_more'', JBool False),
             (''last_id'', option_json (last_of ids))]
      else JObject [(''data'', JArray (map (\<lambda>i. JObject [(''created'', json_nat 0 ''0''), (''id'', JString i),
               (''object'', JString ''model''), (''owned_by'', JString ''sensenova-proxy'')]) ids)),
             (''object'', JString ''list'')])"

section \<open>The token estimate\<close>

fun estimated_json_bytes :: "json \<Rightarrow> nat"
and estimated_items :: "nat \<Rightarrow> json list \<Rightarrow> nat"
and estimated_fields :: "nat \<Rightarrow> (string \<times> json) list \<Rightarrow> nat" where
  "estimated_json_bytes JNull = 4"
| "estimated_json_bytes (JBool b) = (if b then 4 else 5)"
| "estimated_json_bytes (JNumber n) = length (num_text n)"
| "estimated_json_bytes (JString s) = sat_add u64_max (length s) 2"
| "estimated_json_bytes (JArray vs) = estimated_items 2 vs"
| "estimated_json_bytes (JObject fs) = estimated_fields 2 fs"
| "estimated_items acc [] = acc"
| "estimated_items acc (v # vs) = estimated_items (sat_add u64_max (sat_add u64_max acc 1) (estimated_json_bytes v)) vs"
| "estimated_fields acc [] = acc"
| "estimated_fields acc ((name, v) # fs) = estimated_fields
     (sat_add u64_max (sat_add u64_max (sat_add u64_max acc (length name)) 3) (estimated_json_bytes v)) fs"

definition nonempty_model :: "(string \<times> json) list \<Rightarrow> bool" where
  "nonempty_model fs = (case and_then (map_of fs ''model'') as_str of Some m \<Rightarrow> m \<noteq> [] | None \<Rightarrow> False)"

text \<open>The text of the JSON crate's own parse error is not modelled.\<close>

definition approximate_input_tokens :: "externals \<Rightarrow> string \<Rightarrow> protocol_error + nat" where
  "approximate_input_tokens x bytes = (case x_parse_json x bytes of
      None \<Rightarrow> Inl (invalid ''invalid JSON'')
    | Some (JObject fs) \<Rightarrow>
        if \<not> nonempty_model fs then Inl (invalid ''model must be a non-empty string'')
        else if (case map_of fs ''messages'' of Some v \<Rightarrow> \<not> is_array v | None \<Rightarrow> True)
        then Inl (invalid ''messages must be an array'')
        else (let bytes_total = fold (\<lambda>field acc. case map_of fs field of
                  Some v \<Rightarrow> sat_add u64_max acc (estimated_json_bytes v) | None \<Rightarrow> acc)
                [''messages'', ''system'', ''tools'', ''tool_choice''] 0
              in Inr ((bytes_total + 3) div 4))
    | Some _ \<Rightarrow> Inl (invalid ''request body must be a JSON object''))"

definition count_tool_use_blocks :: "json \<Rightarrow> nat" where
  "count_tool_use_blocks v = (case jget ''content'' v of
      Some (JArray blocks) \<Rightarrow> length (filter (\<lambda>b. and_then (jget ''type'' b) as_str = Some ''tool_use'') blocks)
    | _ \<Rightarrow> 0)"

section \<open>Normalization\<close>

definition role_of :: "json \<Rightarrow> string option" where
  "role_of m = and_then (jget ''role'' m) as_str"

definition text_block :: "string \<Rightarrow> json" where
  "text_block t = JObject [(''text'', JString t), (''type'', JString ''text'')]"

text \<open>The text blocks of a folded message, or of an existing \<open>system\<close> field.\<close>

definition blocks_of :: "json option \<Rightarrow> json list" where
  "blocks_of v = (case v of Some (JArray bs) \<Rightarrow> bs | Some (JString t) \<Rightarrow> [text_block t] | _ \<Rightarrow> [])"

definition is_system :: "json \<Rightarrow> bool" where
  "is_system m = (role_of m = Some ''system'')"

text \<open>The system blocks of a folded request: the existing ones, then those of each system message.\<close>

definition system_blocks :: "(string \<times> json) list \<Rightarrow> json list \<Rightarrow> json list" where
  "system_blocks fs messages = blocks_of (map_of fs ''system'')
     @ concat (map (\<lambda>m. if is_system m then blocks_of (jget ''content'' m) else []) messages)"

definition fold_system_messages :: "(string \<times> json) list \<Rightarrow> (string \<times> json) list" where
  "fold_system_messages fs = (case map_of fs ''messages'' of
      Some (JArray messages) \<Rightarrow>
        if \<not> list_ex is_system messages then fs
        else (let blocks = system_blocks fs messages;
                  fs1 = obj_insert ''messages'' (JArray (filter (\<lambda>m. \<not> is_system m) messages)) fs
              in if blocks = [] then fs1 else obj_insert ''system'' (JArray blocks) fs1)
    | _ \<Rightarrow> fs)"

definition adapt_thinking_for_model :: "json \<Rightarrow> string \<Rightarrow> json" where
  "adapt_thinking_for_model thinking upstream_model =
     (if upstream_model \<noteq> ''glm-5.2'' then thinking
      else if and_then (jget ''type'' thinking) as_str = Some ''adaptive''
      then (case thinking of JObject fs \<Rightarrow> JObject (obj_insert ''type'' (JString ''disabled'') fs) | v \<Rightarrow> v)
      else thinking)"

definition with_max_tokens :: "(string \<times> json) list \<Rightarrow> (string \<times> json) list" where
  "with_max_tokens fs = (if map_of fs ''max_tokens'' = None
     then obj_insert ''max_tokens'' (json_nat 8192 ''8192'') fs else fs)"

text \<open>The checks after the model is rewritten, in their order.\<close>

definition request_problem :: "(string \<times> json) list \<Rightarrow> protocol_error option" where
  "request_problem fs =
     (if (case map_of fs ''max_tokens'' of Some v \<Rightarrow> (case as_u64 v of None \<Rightarrow> True | Some n \<Rightarrow> n = 0) | None \<Rightarrow> False)
      then Some (invalid ''max_tokens must be a positive integer'')
      else if (case map_of fs ''messages'' of Some v \<Rightarrow> \<not> is_array v | None \<Rightarrow> True)
      then Some (invalid ''messages must be an array'')
      else if (case map_of fs ''stream'' of Some v \<Rightarrow> as_bool v = None | None \<Rightarrow> False)
      then Some (invalid ''stream must be a boolean'')
      else None)"

definition adapt_field :: "string \<Rightarrow> (string \<times> json) list \<Rightarrow> (string \<times> json) list" where
  "adapt_field upstream_model fs = (case map_of fs ''thinking'' of
      Some v \<Rightarrow> obj_insert ''thinking'' (adapt_thinking_for_model v upstream_model) fs | None \<Rightarrow> fs)"

definition normalize_messages_request :: "json \<Rightarrow> string \<Rightarrow> protocol_error + json" where
  "normalize_messages_request body upstream_model = (case body of
      JObject fs \<Rightarrow>
        if \<not> nonempty_model fs then Inl (invalid ''model must be a non-empty string'')
        else (let fs1 = with_max_tokens (obj_insert ''model'' (JString upstream_model) fs)
              in case request_problem fs1 of
                  Some e \<Rightarrow> Inl e
                | None \<Rightarrow> Inr (JObject (fold_system_messages
                    (obj_remove ''output_config'' (adapt_field upstream_model fs1)))))
    | _ \<Rightarrow> Inl (invalid ''request body must be a JSON object''))"

definition request_summary :: "json \<Rightarrow> (string \<times> bool) option" where
  "request_summary body = (case body of
      JObject fs \<Rightarrow> and_then (and_then (map_of fs ''model'') as_str) (\<lambda>m.
        Some (m, case and_then (map_of fs ''stream'') as_bool of Some b \<Rightarrow> b | None \<Rightarrow> False))
    | _ \<Rightarrow> None)"

end
