(* ===== verification/Concurrency.thy ===== *)
theory Concurrency
  imports Prelude "HOL-Library.Multiset"
begin

text \<open>
  \<open>src/concurrency.rs\<close>: bounded admission.  The semaphore is tokio's and a parameter; its
  documented behaviour is \<open>semaphore_ok\<close>.  \<open>acquire\<close> is interleaved at its atomic operations: each
  task that runs it is in one of the phases below, and a step moves one task.  A task may be
  cancelled in every phase in which it is suspended or holds something.
\<close>

record 's semaphore =
  sm_new :: "nat \<Rightarrow> 's"
  sm_free :: "'s \<Rightarrow> nat"
  sm_take :: "'s \<Rightarrow> 's option"
  sm_give :: "'s \<Rightarrow> 's"

definition semaphore_ok :: "'s semaphore \<Rightarrow> bool" where
  "semaphore_ok sm = ((\<forall>n. sm_free sm (sm_new sm n) = n)
     \<and> (\<forall>s s'. sm_take sm s = Some s' \<longrightarrow> sm_free sm s = Suc (sm_free sm s'))
     \<and> (\<forall>s. sm_take sm s = None \<longrightarrow> sm_free sm s = 0)
     \<and> (\<forall>s. sm_free sm (sm_give sm s) = Suc (sm_free sm s)))"

datatype admission_failure = FailQueueFull | FailQueueTimeout

text \<open>
  The phases of one \<open>acquire\<close>: not begun; the permit was not free and the counter is read next; the
  counter was below the capacity and is incremented next; waiting, with the guard alive; the
  outcome.
\<close>

datatype phase = Entering | Reading | Registering | Waiting | Holding | Rejected admission_failure | Gone

record 's controller =
  ad_semaphore :: 's
  ad_limit :: nat
  ad_queue_capacity :: nat
  ad_waiting :: nat
  ad_tasks :: "phase multiset"

definition new_admission :: "'s semaphore \<Rightarrow> nat \<Rightarrow> nat \<Rightarrow> 's controller" where
  "new_admission sm limit capacity = \<lparr>ad_semaphore = sm_new sm (max limit 1), ad_limit = max limit 1,
     ad_queue_capacity = max capacity 1, ad_waiting = 0, ad_tasks = {#}\<rparr>"

definition move :: "phase \<Rightarrow> phase \<Rightarrow> 's controller \<Rightarrow> 's controller" where
  "move p q a = a\<lparr>ad_tasks := add_mset q (ad_tasks a - {#p#})\<rparr>"

inductive adm_step :: "'s semaphore \<Rightarrow> 's controller \<Rightarrow> 's controller \<Rightarrow> bool" for sm :: "'s semaphore" where
  arrive: "adm_step sm a (a\<lparr>ad_tasks := add_mset Entering (ad_tasks a)\<rparr>)"
| try_ok: "Entering \<in># ad_tasks a \<Longrightarrow> sm_take sm (ad_semaphore a) = Some s \<Longrightarrow>
    adm_step sm a (move Entering Holding (a\<lparr>ad_semaphore := s\<rparr>))"
| try_fail: "Entering \<in># ad_tasks a \<Longrightarrow> sm_take sm (ad_semaphore a) = None \<Longrightarrow>
    adm_step sm a (move Entering Reading a)"
| queue_full: "Reading \<in># ad_tasks a \<Longrightarrow> ad_queue_capacity a \<le> ad_waiting a \<Longrightarrow>
    adm_step sm a (move Reading (Rejected FailQueueFull) a)"
| has_room: "Reading \<in># ad_tasks a \<Longrightarrow> ad_waiting a < ad_queue_capacity a \<Longrightarrow>
    adm_step sm a (move Reading Registering a)"
| register: "Registering \<in># ad_tasks a \<Longrightarrow>
    adm_step sm a (move Registering Waiting (a\<lparr>ad_waiting := ad_waiting a + 1\<rparr>))"
| granted: "Waiting \<in># ad_tasks a \<Longrightarrow> sm_take sm (ad_semaphore a) = Some s \<Longrightarrow>
    adm_step sm a (move Waiting Holding (a\<lparr>ad_semaphore := s, ad_waiting := ad_waiting a - 1\<rparr>))"
| timed_out: "Waiting \<in># ad_tasks a \<Longrightarrow>
    adm_step sm a (move Waiting (Rejected FailQueueTimeout) (a\<lparr>ad_waiting := ad_waiting a - 1\<rparr>))"
| cancelled: "Waiting \<in># ad_tasks a \<Longrightarrow>
    adm_step sm a (move Waiting Gone (a\<lparr>ad_waiting := ad_waiting a - 1\<rparr>))"
| released: "Holding \<in># ad_tasks a \<Longrightarrow>
    adm_step sm a (move Holding Gone (a\<lparr>ad_semaphore := sm_give sm (ad_semaphore a)\<rparr>))"

definition adm_reachable :: "'s semaphore \<Rightarrow> nat \<Rightarrow> nat \<Rightarrow> 's controller \<Rightarrow> bool" where
  "adm_reachable sm limit capacity a = (adm_step sm)\<^sup>*\<^sup>* (new_admission sm limit capacity) a"

text \<open>A semaphore that just counts.\<close>

definition counting :: "nat semaphore" where
  "counting = \<lparr>sm_new = id, sm_free = id, sm_take = (\<lambda>n. if n = 0 then None else Some (n - 1)), sm_give = Suc\<rparr>"

section \<open>The invariant\<close>

definition adm_ok :: "'s semaphore \<Rightarrow> nat \<Rightarrow> 's controller \<Rightarrow> bool" where
  "adm_ok sm limit a = (ad_limit a = max limit 1
     \<and> count (ad_tasks a) Holding + sm_free sm (ad_semaphore a) = ad_limit a
     \<and> ad_waiting a = count (ad_tasks a) Waiting)"

lemma count_move: "count (ad_tasks (move p q a)) r
    = count (ad_tasks a) r - (if p = r then 1 else 0) + (if q = r then 1 else 0)"
  by (simp add: move_def)

lemma move_frame [simp]: "ad_semaphore (move p q a) = ad_semaphore a" "ad_limit (move p q a) = ad_limit a"
  "ad_waiting (move p q a) = ad_waiting a" "ad_queue_capacity (move p q a) = ad_queue_capacity a"
  by (simp_all add: move_def)

lemma counting_ok: "semaphore_ok counting"
  by (auto simp: semaphore_ok_def counting_def split: if_splits)

lemma adm_ok_init: "semaphore_ok sm \<Longrightarrow> adm_ok sm limit (new_admission sm limit capacity)"
  by (simp add: adm_ok_def new_admission_def semaphore_ok_def)

lemma adm_ok_step:
  assumes "semaphore_ok sm" "adm_step sm a b" "adm_ok sm limit a"
  shows "adm_ok sm limit b \<and> ad_queue_capacity b = ad_queue_capacity a"
  using assms(2,3)
proof (cases rule: adm_step.cases)
  case (try_ok s)
  moreover have "sm_free sm (ad_semaphore a) = Suc (sm_free sm s)" using assms(1) try_ok by (simp add: semaphore_ok_def)
  ultimately show ?thesis using assms(3) by (simp add: adm_ok_def count_move)
next
  case (granted s)
  moreover have "sm_free sm (ad_semaphore a) = Suc (sm_free sm s)" using assms(1) granted by (simp add: semaphore_ok_def)
  ultimately show ?thesis using assms(3) by (simp add: adm_ok_def count_move)
next
  case released
  then have "0 < count (ad_tasks a) Holding" by simp
  moreover have "sm_free sm (sm_give sm (ad_semaphore a)) = Suc (sm_free sm (ad_semaphore a))"
    using assms(1) by (simp add: semaphore_ok_def)
  ultimately show ?thesis using assms(3) released by (simp add: adm_ok_def count_move)
qed (use assms(3) in \<open>simp_all add: adm_ok_def count_move\<close>)

interpretation adm: preserved "adm_step sm"
    "\<lambda>a. semaphore_ok sm \<longrightarrow> adm_ok sm limit a \<and> ad_queue_capacity a = c" for sm limit c
  by unfold_locales (metis adm_ok_step)

lemma adm_ok_reachable:
  assumes "semaphore_ok sm" "adm_reachable sm limit capacity a"
  shows "adm_ok sm limit a \<and> ad_queue_capacity a = max capacity 1"
proof -
  have "semaphore_ok sm \<longrightarrow> adm_ok sm limit a \<and> ad_queue_capacity a = max capacity 1"
    using assms(2) unfolding adm_reachable_def
    by (rule adm.run_inv) (simp add: adm_ok_init, simp add: new_admission_def)
  with assms(1) show ?thesis by blast
qed

section \<open>The property\<close>

text \<open>Bounded concurrency.  In every interleaving of any number of requests, with timeouts and
  cancellations, at most \<open>limit\<close> of them hold a permit, no permit is ever lost (the free ones and the
  held ones make up the limit) and the waiting counter is the number of requests that wait.\<close>

theorem admission_bounded:
  assumes "semaphore_ok sm" and "adm_reachable sm limit capacity a"
  shows "count (ad_tasks a) Holding \<le> max limit 1
    \<and> count (ad_tasks a) Holding + sm_free sm (ad_semaphore a) = max limit 1
    \<and> ad_waiting a = count (ad_tasks a) Waiting"
  using adm_ok_reachable [OF assms] by (auto simp: adm_ok_def)

theorem admission_bounded_witness:
  "\<exists>a. adm_reachable counting 1 4 a \<and> count (ad_tasks a) Holding = 1"
proof -
  let ?a0 = "new_admission counting 1 4"
  let ?a1 = "?a0\<lparr>ad_tasks := add_mset Entering (ad_tasks ?a0)\<rparr>"
  let ?a2 = "move Entering Holding (?a1\<lparr>ad_semaphore := 0\<rparr>)"
  have "adm_step counting ?a0 ?a1" by (rule adm_step.arrive)
  moreover have "adm_step counting ?a1 ?a2"
    by (rule adm_step.try_ok) (simp_all add: new_admission_def counting_def)
  ultimately have r: "adm_reachable counting 1 4 ?a2" by (simp add: adm_reachable_def)
  from admission_bounded [OF counting_ok r] have "count (ad_tasks ?a2) Holding \<le> 1" by simp
  moreover have "0 < count (ad_tasks ?a2) Holding" by (simp add: move_def)
  ultimately show ?thesis using r by (intro exI [of _ ?a2]) linarith
qed

section \<open>The queue bound is not exact\<close>

text \<open>
  The counter is read and incremented in two steps: with a capacity of one, two requests may
  both read zero and then both wait.
\<close>

lemma queue_capacity_exceeded:
  "\<exists>a. adm_reachable counting 1 1 a \<and> ad_queue_capacity a = 1 \<and> ad_waiting a = 2"
proof -
  let ?s = "\<lambda>w ts. \<lparr>ad_semaphore = 0 :: nat, ad_limit = 1, ad_queue_capacity = 1, ad_waiting = w, ad_tasks = ts\<rparr>"
  let ?i = "\<lambda>ts. \<lparr>ad_semaphore = 1 :: nat, ad_limit = 1, ad_queue_capacity = 1, ad_waiting = 0, ad_tasks = ts\<rparr>"
  have "adm_step counting (?i {#}) (?i {#Entering#})"
    "adm_step counting (?i {#Entering#}) (?s 0 {#Holding#})"
    "adm_step counting (?s 0 {#Holding#}) (?s 0 {#Entering, Holding#})"
    "adm_step counting (?s 0 {#Entering, Holding#}) (?s 0 {#Reading, Holding#})"
    "adm_step counting (?s 0 {#Reading, Holding#}) (?s 0 {#Entering, Reading, Holding#})"
    "adm_step counting (?s 0 {#Entering, Reading, Holding#}) (?s 0 {#Reading, Reading, Holding#})"
    "adm_step counting (?s 0 {#Reading, Reading, Holding#}) (?s 0 {#Registering, Reading, Holding#})"
    "adm_step counting (?s 0 {#Registering, Reading, Holding#}) (?s 0 {#Registering, Registering, Holding#})"
    "adm_step counting (?s 0 {#Registering, Registering, Holding#}) (?s 1 {#Waiting, Registering, Holding#})"
    "adm_step counting (?s 1 {#Waiting, Registering, Holding#}) (?s 2 {#Waiting, Waiting, Holding#})"
    using adm_step.arrive [of counting "?i {#}"] adm_step.try_ok [of "?i {#Entering#}" counting 0]
      adm_step.arrive [of counting "?s 0 {#Holding#}"] adm_step.try_fail [of "?s 0 {#Entering, Holding#}" counting]
      adm_step.arrive [of counting "?s 0 {#Reading, Holding#}"] adm_step.try_fail [of "?s 0 {#Entering, Reading, Holding#}" counting]
      adm_step.has_room [of "?s 0 {#Reading, Reading, Holding#}" counting]
      adm_step.has_room [of "?s 0 {#Registering, Reading, Holding#}" counting]
      adm_step.register [of "?s 0 {#Registering, Registering, Holding#}" counting]
      adm_step.register [of "?s 1 {#Waiting, Registering, Holding#}" counting]
    by (simp_all add: move_def counting_def add_mset_commute numeral_2_eq_2)
  then have "(adm_step counting)\<^sup>*\<^sup>* (?i {#}) (?s 2 {#Waiting, Waiting, Holding#})"
    by (meson converse_rtranclp_into_rtranclp rtranclp.rtrancl_refl)
  then have "adm_reachable counting 1 1 (?s 2 {#Waiting, Waiting, Holding#})"
    by (simp add: adm_reachable_def new_admission_def counting_def)
  then show ?thesis by (intro exI [of _ "?s 2 {#Waiting, Waiting, Holding#}"]) simp
qed

end
