(* ===== verification/Server.thy ===== *)
theory Server
  imports Upstream Stream Auth Pool Models Concurrency
begin

text \<open>
  \<open>src/server.rs\<close>: the handlers, the gates in front of them and the composition of one request:
  parsing, model resolution, normalization, admission, \<open>send_messages\<close>, and the answer.  Routing of
  paths and HTTP framing belong to axum; the handler's endpoint is an argument, and a header map is
  the lookup of a header's first value as text.
\<close>

type_synonym request_headers = "string \<Rightarrow> string option"

datatype body = TextBody string | JsonBody json | BytesBody string | StreamingBody "frame list"

record response =
  rs_status :: nat
  rs_headers :: "(string \<times> string) list"
  rs_body :: body

section \<open>Responses\<close>

definition insert_request_id :: "core \<Rightarrow> string \<Rightarrow> response \<Rightarrow> response" where
  "insert_request_id co rid r = (if co_header_ok co rid
     then r\<lparr>rs_headers := al_insert ''x-request-id'' rid (rs_headers r)\<rparr> else r)"

definition json_response :: "core \<Rightarrow> nat \<Rightarrow> json \<Rightarrow> string \<Rightarrow> response" where
  "json_response co status v rid = insert_request_id co rid
     \<lparr>rs_status = status, rs_headers = [(''content-type'', ''application/json'')], rs_body = JsonBody v\<rparr>"

definition anthropic_error :: "core \<Rightarrow> nat \<Rightarrow> string \<Rightarrow> string \<Rightarrow> string \<Rightarrow> response" where
  "anthropic_error co status error_type message rid =
     json_response co status (error_envelope error_type message rid) rid"

text \<open>The seconds of a \<open>retry-after\<close> header: whole seconds, one for a positive fraction of the first.\<close>

definition retry_after_seconds :: "duration \<Rightarrow> nat" where
  "retry_after_seconds d = max (as_secs d) (if 0 < subsec_nanos d then 1 else 0)"

definition gateway_error_response :: "core \<Rightarrow> gateway_error \<Rightarrow> string \<Rightarrow> response" where
  "gateway_error_response co err rid =
     (let r = anthropic_error co (gw_status err) (error_type_for_status (gw_status err)) (gw_message err) rid
      in case gw_retry_after err of
          Some d \<Rightarrow> r\<lparr>rs_headers := al_insert ''retry-after'' (decimal (retry_after_seconds d)) (rs_headers r)\<rparr>
        | None \<Rightarrow> r)"

section \<open>Identifiers\<close>

definition request_id :: "request_headers \<Rightarrow> string" where
  "request_id hs = (case hs ''x-request-id'' of Some v \<Rightarrow> v | None \<Rightarrow> ''req_unknown'')"

definition ascii_graphic :: "char \<Rightarrow> bool" where
  "ascii_graphic c = (33 \<le> byte c \<and> byte c \<le> 126)"

text \<open>\<open>request_id_middleware\<close>: the caller's identifier when it is short and visible, a fresh one else.\<close>

definition incoming_request_id :: "string \<Rightarrow> request_headers \<Rightarrow> string" where
  "incoming_request_id fresh hs = (case hs ''x-request-id'' of
      Some v \<Rightarrow> if v \<noteq> [] \<and> length v \<le> 128 \<and> list_all ascii_graphic v then v else fresh
    | None \<Rightarrow> fresh)"

definition hex_digit :: "nat \<Rightarrow> char" where
  "hex_digit n = char_of (if n < 10 then 48 + n else 87 + n)"

text \<open>The format \<open>016x\<close>.\<close>

definition hex16 :: "64 word \<Rightarrow> string" where
  "hex16 w = map (\<lambda>i. hex_digit (unat w div 16 ^ i mod 16)) (rev [0..<16])"

definition fnv1a64 :: "string \<Rightarrow> 64 word" where
  "fnv1a64 bytes = fold (\<lambda>byte hash. fnv_step hash byte) bytes 0xcbf29ce484222325"

definition session_headers :: "string list" where
  "session_headers = [''x-claude-code-session-id'', ''x-claude-code-agent-id'', ''x-claude-code-parent-agent-id'']"

definition session_tag :: "request_headers \<Rightarrow> string" where
  "session_tag hs = (case List.find (\<lambda>n. case hs n of Some v \<Rightarrow> v \<noteq> [] | None \<Rightarrow> False) session_headers of
      Some n \<Rightarrow> (case hs n of Some v \<Rightarrow> ''sess_'' @ hex16 (fnv1a64 v) | None \<Rightarrow> ''sess_none'')
    | None \<Rightarrow> ''sess_none'')"

section \<open>The state of the server\<close>

text \<open>
  \<open>AppState\<close>, built from a configuration that passes validation.  \<open>Core::new\<close> can still fail while it
  builds the HTTP client or converts the version header; that is \<open>client_ok\<close>.
\<close>

record 's app_state =
  as_config :: config
  as_core :: core
  as_admission :: "'s controller"
  as_shared :: shared

definition new_app :: "parsers \<Rightarrow> bool \<Rightarrow> 's semaphore \<Rightarrow> string \<Rightarrow> (string \<Rightarrow> bool) \<Rightarrow> externals \<Rightarrow> instant \<Rightarrow> config
    \<Rightarrow> 's app_state option" where
  "new_app ps client_ok sm user_agent header_ok ext now c =
     (if validate ps c \<noteq> None \<or> \<not> client_ok then None
      else (let sh = new_shared c now; limit = conc_initial (concurrency c)
            in Some \<lparr>as_config = c, as_core = new_core c user_agent header_ok ext,
                 as_admission = new_admission sm limit (conc_queue_capacity (concurrency c)),
                 as_shared = sh\<lparr>sh_metrics := set_concurrency_limit limit (sh_metrics sh)\<rparr>\<rparr>))"

section \<open>From the body to the request\<close>

definition spec_of :: "resolution \<Rightarrow> route_spec" where
  "spec_of r = (case r of ResolvedProfile p \<Rightarrow> Profile p | ResolvedLiteral m \<Rightarrow> Literal m)"

definition upstream_model_of :: "resolution \<Rightarrow> string" where
  "upstream_model_of r = (case r of ResolvedProfile p \<Rightarrow> [] | ResolvedLiteral m \<Rightarrow> m)"

text \<open>
  The front of \<open>anthropic_messages\<close>, up to admission; \<open>None\<close> is a body over the configured limit.
  The JSON crate's own description of a parse error, which the message repeats, is not modelled.
\<close>

definition prepare_request :: "core \<Rightarrow> models_config \<Rightarrow> route_table \<Rightarrow> request_headers \<Rightarrow> string option
    \<Rightarrow> response + send_request" where
  "prepare_request co mc t hs raw =
     (let rid = request_id hs; bad = (\<lambda>m. Inl (anthropic_error co 400 ''invalid_request_error'' m rid)) in
      case raw of
        None \<Rightarrow> Inl (anthropic_error co 413 ''request_too_large'' ''request body exceeds the configured limit'' rid)
      | Some bytes \<Rightarrow> (case x_parse_json (co_ext co) bytes of
          None \<Rightarrow> bad ''invalid JSON''
        | Some v \<Rightarrow> (case request_summary v of
            None \<Rightarrow> bad ''model must be a non-empty string and messages must be an array''
          | Some (client_model, stream) \<Rightarrow>
              (let resolved = resolve t mc client_model in
               case normalize_messages_request v (upstream_model_of resolved) of
                 Inl e \<Rightarrow> Inl (anthropic_error co 400 (pe_error_type e) (pe_message e) rid)
               | Inr normalized \<Rightarrow> (case x_render_json (co_ext co) normalized of
                   None \<Rightarrow> bad ''request could not be serialized''
                 | Some canonical \<Rightarrow> Inr \<lparr>rq_stream = stream, rq_id = rid, rq_canonical = canonical,
                     rq_tag = session_tag hs, rq_spec = spec_of resolved\<rparr>)))))"

section \<open>One request\<close>

text \<open>What a request meets: the admission, the attempts, the clock and the stream's client.\<close>

text \<open>The outcome of \<open>acquire\<close>, with the queue wait of a permit.\<close>

datatype admission_outcome = NotAdmitted admission_failure | Admitted duration

definition failure_message :: "admission_failure \<Rightarrow> string" where
  "failure_message f = (case f of
      FailQueueFull \<Rightarrow> ''local concurrency queue is full; retry shortly''
    | FailQueueTimeout \<Rightarrow> ''timed out waiting for a local concurrency slot'')"

record serve_env =
  sv_admission :: "admission_outcome"
  sv_waiting :: nat
  sv_now :: instant
  sv_envs :: "nat \<Rightarrow> env"
  sv_clock :: scope_clock
  sv_gone :: "nat option"
  sv_polls :: "nat option"

text \<open>What the pump receives of the rest of the upstream's body; silence lets the keepalive tick.\<close>

definition pump_inputs :: "nat option \<Rightarrow> read_event list \<Rightarrow> pump_input list" where
  "pump_inputs gone rest =
     (let is = map (\<lambda>r. case r of Chunk c \<Rightarrow> UpChunk c | ReadFailed e \<Rightarrow> UpError | Pause \<Rightarrow> Tick) rest
      in case gone of None \<Rightarrow> is | Some n \<Rightarrow> take n is @ [ClientGone])"

definition queue_rejection :: "core \<Rightarrow> admission_failure \<Rightarrow> string \<Rightarrow> response" where
  "queue_rejection co failure rid =
     (let r = anthropic_error co 429 ''rate_limit_error'' (failure_message failure) rid
      in r\<lparr>rs_headers := al_insert ''retry-after'' ''2'' (rs_headers r)\<rparr>)"

text \<open>The state in which an admitted request is accepted: its gauges set, the breaker looked at.\<close>

definition accept_request :: "serve_env \<Rightarrow> duration \<Rightarrow> shared \<Rightarrow> shared" where
  "accept_request e wait sh =
     (case breaker_state (sv_now e) (sh_circuit sh) of (st, cb) \<Rightarrow>
        sh\<lparr>sh_circuit := cb, sh_metrics := set_circuit_state (circuit_state_code st)
             (set_queue_depth (sv_waiting e) (note_queue_wait wait (inc_requests (sh_metrics sh))))\<rparr>)"

definition with_metrics :: "(metrics \<Rightarrow> bool \<times> metrics) \<Rightarrow> shared \<Rightarrow> shared" where
  "with_metrics f sh = sh\<lparr>sh_metrics := snd (f (sh_metrics sh))\<rparr>"

definition tool_calls_in :: "core \<Rightarrow> string \<Rightarrow> nat" where
  "tool_calls_in co bytes = (case x_parse_json (co_ext co) bytes of Some v \<Rightarrow> count_tool_use_blocks v | None \<Rightarrow> 0)"

text \<open>How each result of \<open>send_messages\<close> is answered and accounted; a panic only drops the scope.\<close>

definition answer_request :: "core \<Rightarrow> config \<Rightarrow> serve_env \<Rightarrow> string \<Rightarrow> send_result \<Rightarrow> shared \<Rightarrow> response option \<times> shared" where
  "answer_request co c e rid result sh = (case result of
      SentJson bytes target attempt \<Rightarrow>
        (Some (insert_request_id co rid \<lparr>rs_status = 200, rs_headers = [(''content-type'', ''application/json'')],
            rs_body = BytesBody bytes\<rparr>),
         with_metrics (\<lambda>m. finish_json (sv_clock e) (tool_calls_in co bytes) (False, m)) sh)
    | SentStream first rest target attempt \<Rightarrow>
        (let p = stream_body \<lparr>se_parse = x_parse_json (co_ext co), se_clock = sv_clock e,
                    se_ping = ping_interval (stream_ping_secs (runtime c))\<rparr>
                  first (pump_inputs (sv_gone e) rest) (new_pump (sh_metrics sh) (sv_polls e))
         in (Some (insert_request_id co rid \<lparr>rs_status = 200,
               rs_headers = [(''content-type'', ''text/event-stream''), (''cache-control'', ''no-cache''),
                             (''x-accel-buffering'', ''no'')],
               rs_body = StreamingBody (pu_frames p)\<rparr>),
             sh\<lparr>sh_metrics := snd (pu_scope p)\<rparr>))
    | SendErr err \<Rightarrow>
        (Some (gateway_error_response co err rid),
         with_metrics (\<lambda>m. finish_error (sv_clock e) (class_as_str (gw_class err)) (False, m)) sh)
    | SendPanic \<Rightarrow> (None, with_metrics (\<lambda>m. drop_scope (sv_clock e) (False, m)) sh))"

definition anthropic_messages :: "core \<Rightarrow> config \<Rightarrow> serve_env \<Rightarrow> request_headers \<Rightarrow> string option \<Rightarrow> shared
    \<Rightarrow> response option \<times> dial list \<times> shared" where
  "anthropic_messages co c e hs raw sh =
     (case prepare_request co (models c) (sh_table sh) hs raw of
        Inl r \<Rightarrow> (Some r, [], sh)
      | Inr rq \<Rightarrow> (case sv_admission e of
          NotAdmitted failure \<Rightarrow> (Some (queue_rejection co failure (rq_id rq)), [],
            sh\<lparr>sh_metrics := (sh_metrics sh)\<lparr>queue_rejections_total := queue_rejections_total (sh_metrics sh) + 1\<rparr>\<rparr>)
        | Admitted wait \<Rightarrow>
            (case send_messages co rq (sv_envs e) (accept_request e wait sh) of (result, ds, sh1) \<Rightarrow>
             (case answer_request co c e (rq_id rq) result sh1 of (r, sh2) \<Rightarrow> (r, ds, sh2)))))"

section \<open>The other handlers\<close>

definition insert_approximate_header :: "(string \<times> string) list \<Rightarrow> (string \<times> string) list" where
  "insert_approximate_header headers = al_insert ''x-sensenova-proxy-token-count'' ''approximate'' headers"

definition anthropic_count_tokens :: "core \<Rightarrow> request_headers \<Rightarrow> string option \<Rightarrow> response" where
  "anthropic_count_tokens co hs raw =
     (let rid = request_id hs in
      case raw of
        None \<Rightarrow> anthropic_error co 413 ''request_too_large'' ''request body exceeds the configured limit'' rid
      | Some bytes \<Rightarrow> (case approximate_input_tokens (co_ext co) bytes of
          Inr n \<Rightarrow> (let r = json_response co 200 (JObject [(''input_tokens'', json_nat n (decimal n))]) rid
            in r\<lparr>rs_headers := insert_approximate_header (rs_headers r)\<rparr>)
        | Inl e \<Rightarrow> anthropic_error co 400 (pe_error_type e) (pe_message e) rid))"

definition models_list :: "core \<Rightarrow> config \<Rightarrow> request_headers \<Rightarrow> response" where
  "models_list co c hs = json_response co 200 (models_response c (\<lambda>h. hs h \<noteq> None)) (request_id hs)"

definition healthz :: response where
  "healthz = \<lparr>rs_status = 200, rs_headers = [(''content-type'', ''text/plain; charset=utf-8'')],
     rs_body = TextBody (''ok'' @ [CHR 0x0A])\<rparr>"

definition json_of_nat :: "nat \<Rightarrow> json" where
  "json_of_nat n = json_nat n (decimal n)"

definition circuit_state_text :: "circuit_state \<Rightarrow> string" where
  "circuit_state_text s = (case s of Closed \<Rightarrow> ''closed'' | Open \<Rightarrow> ''open'' | HalfOpen \<Rightarrow> ''half_open'')"

text \<open>\<open>readyz_impl\<close>, with the clock readings of its five looks at the state in order.\<close>

definition readyz_impl :: "config \<Rightarrow> instant \<times> instant \<times> instant \<times> instant \<Rightarrow> nat \<times> nat \<Rightarrow> shared \<Rightarrow> response \<times> shared" where
  "readyz_impl c clocks admission sh =
     (case clocks of (now1, now2, now3, now4) \<Rightarrow>
      case usable_route_count now1 (sh_table sh) of (usable, t1) \<Rightarrow>
      case usable_credential_count now2 t1 of (credentials, t2) \<Rightarrow>
      case breaker_state now3 (sh_circuit sh) of (st, cb) \<Rightarrow>
      let ready = 0 < usable in
        (\<lparr>rs_status = (if ready then 200 else 503), rs_headers = [(''content-type'', ''application/json'')],
          rs_body = JsonBody (JObject
            [(''circuit_open_remaining_secs'', (case open_remaining now4 cb of
                Some (r, why) \<Rightarrow> json_of_nat (as_secs r) | None \<Rightarrow> JNull)),
             (''circuit_state'', JString (circuit_state_text st)),
             (''concurrency_limit'', json_of_nat (fst admission)),
             (''queued_requests'', json_of_nat (snd admission)),
             (''status'', JString (if ready then ''ready'' else ''not_ready'')),
             (''total_routes'', json_of_nat (length (all_candidates t1))),
             (''usable_credentials'', json_of_nat credentials),
             (''usable_credentials_raw'', json_of_nat (usable_count (new_pool (sensenova_api_keys c)))),
             (''usable_routes'', json_of_nat usable)])\<rparr>,
         sh\<lparr>sh_table := t2, sh_circuit := cb,
            sh_metrics := set_circuit_state (circuit_state_code st) (sh_metrics sh)\<rparr>))"

definition metrics_impl :: "instant \<Rightarrow> nat \<Rightarrow> shared \<Rightarrow> response \<times> shared" where
  "metrics_impl now waiting sh =
     (case breaker_state now (sh_circuit sh) of (st, cb) \<Rightarrow>
      let m = set_queue_depth waiting (set_circuit_state (circuit_state_code st) (sh_metrics sh)) in
        (\<lparr>rs_status = 200, rs_headers = [(''content-type'', ''text/plain; version=0.0.4; charset=utf-8'')],
          rs_body = TextBody (render m)\<rparr>, sh\<lparr>sh_circuit := cb, sh_metrics := m\<rparr>))"

section \<open>The gates\<close>

datatype endpoint = Messages | CountTokens | ModelsList | Healthz | Readyz | MetricsPage

text \<open>\<open>router\<close>: the API always asks for the key, readiness and metrics when the bind is not loopback.\<close>

definition needs_key :: "bool \<Rightarrow> endpoint \<Rightarrow> bool" where
  "needs_key loopback ep = (case ep of
      Messages \<Rightarrow> True | CountTokens \<Rightarrow> True | ModelsList \<Rightarrow> True
    | Healthz \<Rightarrow> False | Readyz \<Rightarrow> \<not> loopback | MetricsPage \<Rightarrow> \<not> loopback)"

definition unauthorized :: "core \<Rightarrow> request_headers \<Rightarrow> response" where
  "unauthorized co hs = anthropic_error co 401 ''authentication_error'' ''invalid gateway API key'' (request_id hs)"

record page_env =
  pg_clocks :: "instant \<times> instant \<times> instant \<times> instant"
  pg_limit :: nat
  pg_waiting :: nat

text \<open>One request through the middleware: its identifier, the key, the handler.\<close>

definition handle_request :: "core \<Rightarrow> parsers \<Rightarrow> config \<Rightarrow> string \<Rightarrow> serve_env \<Rightarrow> page_env \<Rightarrow> endpoint
    \<Rightarrow> request_headers \<Rightarrow> string option \<Rightarrow> shared \<Rightarrow> response option \<times> dial list \<times> shared" where
  "handle_request co ps c fresh e pg ep headers raw sh =
     (let rid = incoming_request_id fresh headers;
          hs = (if co_header_ok co rid then headers(''x-request-id'' := Some rid) else headers)
      in (if needs_key (binds_loopback ps c) ep \<and> \<not> gateway_key_is_valid hs (server_api_key (server c))
          then (Some (insert_request_id co rid (unauthorized co hs)), [], sh)
          else (case (case ep of
              Messages \<Rightarrow> anthropic_messages co c e hs raw sh
            | CountTokens \<Rightarrow> (Some (anthropic_count_tokens co hs raw), [], sh)
            | ModelsList \<Rightarrow> (Some (models_list co c hs), [], sh)
            | Healthz \<Rightarrow> (Some healthz, [], sh)
            | Readyz \<Rightarrow> (case readyz_impl c (pg_clocks pg) (pg_limit pg, pg_waiting pg) sh of (r, sh') \<Rightarrow> (Some r, [], sh'))
            | MetricsPage \<Rightarrow> (case metrics_impl (fst (pg_clocks pg)) (pg_waiting pg) sh of (r, sh') \<Rightarrow> (Some r, [], sh')))
            of (r, ds, sh') \<Rightarrow> (map_option (insert_request_id co rid) r, ds, sh'))))"

end
