(* ===== verification/Cancel.thy ===== *)
theory Cancel
  imports Server
begin

text \<open>
  A handler that is dropped before it answers (its client disconnected): the future of
  \<open>send_messages\<close> in \<open>src/upstream.rs\<close> ends at one of its awaits and only destructors run, that of the
  attempt's guard (\<open>src/router.rs\<close>) and that of the request's scope (\<open>src/server.rs\<close>).  A handler
  dropped in the admission queue is the step \<open>cancelled\<close> of \<^theory_text>\<open>Concurrency\<close>.
\<close>

text \<open>The awaits: an exchange (the dial and every read of its answer), the sleep after an attempt.\<close>

datatype drop_point = InExchange | InSleep

text \<open>An attempt up to its exchange, then its guard dropped; nothing is written before the answer is read.\<close>

definition abandon_exchange :: "core \<Rightarrow> send_request \<Rightarrow> env \<Rightarrow> identity set \<Rightarrow> shared \<Rightarrow> shared option" where
  "abandon_exchange co rq e skipped sh =
     (let sh0 = e_before e sh
      in (case plan (rq_spec rq) (rq_tag rq) skipped (e_plan e) (e_target e) (sh_table sh0) (sh_metrics sh0) of
           (Planned p, t, m) \<Rightarrow> (case admit (e_admit e) (sh_circuit sh0) of
               (Refused rem why, cb) \<Rightarrow> None
             | (Allowed, cb) \<Rightarrow> (case rewrite_model (co_ext co) (rq_canonical rq) (rt_model (p_target p)) of
                 Inl err \<Rightarrow> None
               | Inr body \<Rightarrow>
                   (let m1 = m\<lparr>route_attempts_total := route_attempts_total m + 1,
                               upstream_requests_total := upstream_requests_total m + 1\<rparr>
                    in (case begin_attempt (p_target p) t of (g, t') \<Rightarrow>
                      let sh2 = e_during e (sh0\<lparr>sh_table := t', sh_metrics := m1, sh_circuit := cb\<rparr>)
                      in Some (sh2\<lparr>sh_table := drop_guard g (sh_table sh2)\<rparr>)))))
         | _ \<Rightarrow> None))"

definition abandon_sleep :: "core \<Rightarrow> send_request \<Rightarrow> env \<Rightarrow> nat \<Rightarrow> identity set \<Rightarrow> nat \<Rightarrow> shared \<Rightarrow> shared option" where
  "abandon_sleep co rq e attempt skipped same_route sh =
     (case attempt_once co rq e attempt skipped same_route sh of
        (Again s sr err, Some d, sh') \<Rightarrow> if dl_sleep d \<noteq> None then Some sh' else None
      | _ \<Rightarrow> None)"

text \<open>The loop, dropped at an await of the attempt after the next \<open>n\<close>; \<open>None\<close> when it does not get there.\<close>

fun cancelled_loop :: "core \<Rightarrow> send_request \<Rightarrow> (nat \<Rightarrow> env) \<Rightarrow> drop_point \<Rightarrow> nat \<Rightarrow> nat \<Rightarrow> identity set \<Rightarrow> nat
    \<Rightarrow> shared \<Rightarrow> shared option" where
  "cancelled_loop co rq envs pt 0 attempt skipped same_route sh =
     (if co_max_attempts co \<le> attempt then None
      else (case pt of
          InExchange \<Rightarrow> abandon_exchange co rq (envs attempt) skipped sh
        | InSleep \<Rightarrow> abandon_sleep co rq (envs attempt) attempt skipped same_route sh))"
| "cancelled_loop co rq envs pt (Suc n) attempt skipped same_route sh =
     (if co_max_attempts co \<le> attempt then None
      else (case attempt_once co rq (envs attempt) attempt skipped same_route sh of
          (Again s sr err, d, sh') \<Rightarrow> cancelled_loop co rq envs pt n (Suc attempt) s sr sh'
        | _ \<Rightarrow> None))"

definition cancelled_messages :: "core \<Rightarrow> config \<Rightarrow> serve_env \<Rightarrow> request_headers \<Rightarrow> string option \<Rightarrow> drop_point \<Rightarrow> nat
    \<Rightarrow> shared \<Rightarrow> shared option" where
  "cancelled_messages co c e hs raw pt n sh =
     (case prepare_request co (models c) (sh_table sh) hs raw of
        Inl r \<Rightarrow> None
      | Inr rq \<Rightarrow> (case sv_admission e of
          NotAdmitted failure \<Rightarrow> None
        | Admitted wait \<Rightarrow> map_option (with_metrics (\<lambda>m. drop_scope (sv_clock e) (False, m)))
            (cancelled_loop co rq (sv_envs e) pt n 0 {} 0 (accept_request e wait sh))))"

end
