(* ===== verification/System.thy ===== *)
theory System
  imports Cancel
begin

text \<open>
  The running server: all accepted requests at once over one shared state, \<open>AppState\<close> of
  \<open>src/server.rs\<close>.  Each request that holds a permit is a thread, at one of the awaits of
  \<open>anthropic_messages\<close>, \<open>send_messages\<close> or of the streaming body; a step runs one thread from its
  await to the next (or moves one task of the admission, or serves a page).  Which thread runs, what
  the upstream answers, what the clocks read and which clients disconnect is open.

  A stretch of code between two awaits is one step.  The runtime has several workers, so the
  critical sections inside a stretch may interleave more finely than that; a permit is returned in a
  step of its own, after the request's scope has ended (a dropped stream returns it just before).
\<close>

section \<open>An attempt, cut at its exchange\<close>

datatype front = FrontEnds send_result | FrontDials route_target wire_request inflight_guard

text \<open>The stretch before the exchange: plan, breaker, counters, body, guard.\<close>

definition attempt_front :: "core \<Rightarrow> send_request \<Rightarrow> env \<Rightarrow> identity set \<Rightarrow> shared \<Rightarrow> front \<times> shared" where
  "attempt_front co rq e skipped sh =
     (case plan (rq_spec rq) (rq_tag rq) skipped (e_plan e) (e_target e) (sh_table sh) (sh_metrics sh) of (r, t, m) \<Rightarrow>
      let sh1 = sh\<lparr>sh_table := t, sh_metrics := m\<rparr> in
      (case r of
         PlanPanic \<Rightarrow> (FrontEnds SendPanic, sh1)
       | Waitable w \<Rightarrow> (case route_unavailable co w (e_admit e) sh1 of (err, sh2) \<Rightarrow> (FrontEnds (SendErr err), sh2))
       | Planned p \<Rightarrow> (case admit (e_admit e) (sh_circuit sh1) of
           (Refused rem why, cb) \<Rightarrow> (FrontEnds (SendErr (refused_error rem why)), sh1\<lparr>sh_circuit := cb\<rparr>)
         | (Allowed, cb) \<Rightarrow>
             let sh2 = sh1\<lparr>sh_circuit := cb, sh_metrics := m\<lparr>
                   route_attempts_total := route_attempts_total m + 1,
                   upstream_requests_total := upstream_requests_total m + 1\<rparr>\<rparr>
             in (case rewrite_model (co_ext co) (rq_canonical rq) (rt_model (p_target p)) of
                 Inl err \<Rightarrow> (FrontEnds (SendErr err), sh2)
               | Inr body \<Rightarrow> (case begin_attempt (p_target p) (sh_table sh2) of (g, t') \<Rightarrow>
                   (FrontDials (p_target p) (send_once co (p_target p) body (rq_stream rq) (rq_id rq)) g,
                    sh2\<lparr>sh_table := t'\<rparr>))))))"

text \<open>The stretch after it: the outcome is recorded, the guard dropped, the next step decided.\<close>

definition attempt_back :: "core \<Rightarrow> send_request \<Rightarrow> env \<Rightarrow> nat \<Rightarrow> identity set \<Rightarrow> nat \<Rightarrow> route_target \<Rightarrow> inflight_guard
    \<Rightarrow> exchange \<Rightarrow> shared \<Rightarrow> attempt_outcome \<times> duration option \<times> shared" where
  "attempt_back co rq e attempt skipped same_route target g x sh =
     (case handle_exchange co rq target attempt e g x sh of (r, g', sh1) \<Rightarrow>
      let sh2 = sh1\<lparr>sh_table := drop_guard g' (sh_table sh1)\<rparr> in
      (case r of
         Inl done \<Rightarrow> (Done done, None, sh2)
       | Inr f \<Rightarrow> (case follow_up co rq target skipped same_route attempt e (fl_rule f) sh2 of
             (Stop, _, sh3) \<Rightarrow> (Done (SendErr (fl_error f)), None, sh3)
           | (NextPanic, _, sh3) \<Rightarrow> (Done SendPanic, None, sh3)
           | (Proceed w, same_route', sh3) \<Rightarrow> (Again skipped same_route' (fl_error f), w, sh3))))"

text \<open>The two stretches and what others do in between make up an attempt.\<close>

lemma attempt_once_split:
  "attempt_once co rq e attempt skipped same_route sh =
     (case attempt_front co rq e skipped (e_before e sh) of
        (FrontEnds r, sh1) \<Rightarrow> (Done r, None, sh1)
      | (FrontDials target wire g, sh1) \<Rightarrow>
          (case attempt_back co rq e (Suc attempt) (insert (identity target) skipped) same_route target g
                  (e_exchange e target wire) (e_during e sh1) of
             (out, w, sh2) \<Rightarrow> (out, Some \<lparr>dl_target = target, dl_request = wire, dl_sleep = w\<rparr>, sh2)))"
  unfolding attempt_once_def dial_target_def attempt_front_def attempt_back_def Let_def
  by (simp split: prod.split plan_result.split admission.split sum.split next_step.split)

lemma shared_swap: "sh\<lparr>sh_table := t, sh_metrics := m, sh_circuit := cb\<rparr> = sh\<lparr>sh_circuit := cb, sh_metrics := m, sh_table := t\<rparr>"
  by simp

lemma abandon_exchange_split:
  "abandon_exchange co rq e skipped sh =
     (case attempt_front co rq e skipped (e_before e sh) of
        (FrontEnds r, sh1) \<Rightarrow> None
      | (FrontDials target wire g, sh1) \<Rightarrow>
          Some ((e_during e sh1)\<lparr>sh_table := drop_guard g (sh_table (e_during e sh1))\<rparr>))"
  unfolding abandon_exchange_def attempt_front_def Let_def
  by (simp add: shared_swap split: prod.split plan_result.split admission.split sum.split)

section \<open>A stream, cut at its awaits\<close>

text \<open>One turn of the \<open>select!\<close> of the loop; \<open>None\<close> is the upstream's end.\<close>

definition pump_step :: "stream_env \<Rightarrow> pump_input option \<Rightarrow> pump \<Rightarrow> progress" where
  "pump_step e i p = (case i of
      None \<Rightarrow> upstream_end e p
    | Some (UpChunk c) \<Rightarrow> if c = [] then Go p else next_chunk e c p
    | Some UpError \<Rightarrow> upstream_error e p
    | Some Tick \<Rightarrow> if se_ping e \<noteq> None \<and> \<not> pu_clean_stop p then yield_frame Keepalive p else Go p
    | Some ClientGone \<Rightarrow> Halt p)"

text \<open>The first turn forwards the first chunk, unless the client never polls.\<close>

definition stream_turn :: "stream_env \<Rightarrow> string option \<Rightarrow> pump_input option \<Rightarrow> pump \<Rightarrow> progress" where
  "stream_turn e first i p = (case first of
      Some c \<Rightarrow> if pu_polls p = Some 0 then Halt p else first_chunk e c p
    | None \<Rightarrow> pump_step e i p)"

lemma pump_loop_turn: "pump_loop e (i # is) p = and_go (stream_turn e None (Some i) p) (pump_loop e is)"
  by (cases i) (simp_all add: stream_turn_def pump_step_def upstream_error_def yield_frame_def Let_def)

lemma upstream_end_halts: "\<exists>q. upstream_end e p = Halt q"
  by (auto simp: upstream_end_def yield_frame_def Let_def split: prod.split option.split)

lemma pump_loop_end: "pump_loop e [] p = stream_turn e None None p"
  by (simp add: stream_turn_def pump_step_def)

text \<open>The pump counts in the shared metrics: they are read before a turn and written after it.\<close>

definition attach :: "metrics \<Rightarrow> pump \<Rightarrow> pump" where
  "attach m p = p\<lparr>pu_scope := (fst (pu_scope p), m)\<rparr>"

definition stream_env_of :: "core \<Rightarrow> config \<Rightarrow> scope_clock \<Rightarrow> stream_env" where
  "stream_env_of co c ck = \<lparr>se_parse = x_parse_json (co_ext co), se_clock = ck,
     se_ping = ping_interval (stream_ping_secs (runtime c))\<rparr>"

section \<open>The state\<close>

text \<open>
  Where a request that holds a permit is: admitted; before its next attempt, after a sleep or none;
  in an exchange; with its result; streaming, with the first chunk still to be forwarded or not;
  accounted for, its permit not yet returned.
\<close>

datatype thread =
  Granted send_request
| Planning send_request nat "identity set" nat "gateway_error option" "duration option"
| Exchanging send_request nat "identity set" nat route_target inflight_guard
| Answering send_request send_result
| Streaming "string option" pump
| Leaving

record 's system =
  sy_admission :: "'s controller"
  sy_shared :: shared
  sy_threads :: "thread multiset"

definition start :: "'s app_state \<Rightarrow> 's system" where
  "start app = \<lparr>sy_admission = as_admission app, sy_shared = as_shared app, sy_threads = {#}\<rparr>"

text \<open>A thread runs to its next await: it is replaced, and the shared state with it.\<close>

definition run_thread :: "thread \<Rightarrow> thread \<Rightarrow> shared \<Rightarrow> 's system \<Rightarrow> 's system" where
  "run_thread th th' sh s = s\<lparr>sy_shared := sh, sy_threads := add_mset th' (sy_threads s - {#th#})\<rparr>"

abbreviation holders :: "'s controller \<Rightarrow> nat" where
  "holders a \<equiv> count (ad_tasks a) Holding"

section \<open>The steps\<close>

inductive sys_step :: "'s semaphore \<Rightarrow> core \<Rightarrow> config \<Rightarrow> 's system \<Rightarrow> 's system \<Rightarrow> bool"
  for sm :: "'s semaphore" and co :: core and c :: config where
  queue: "adm_step sm (sy_admission s) a \<Longrightarrow> holders a = holders (sy_admission s) \<Longrightarrow>
    sys_step sm co c s (s\<lparr>sy_admission := a\<rparr>)"
| reject: "Rejected f \<in># ad_tasks (sy_admission s) \<Longrightarrow> sh = sy_shared s \<Longrightarrow>
    sys_step sm co c s (s\<lparr>sy_admission := move (Rejected f) Gone (sy_admission s),
      sy_shared := sh\<lparr>sh_metrics := (sh_metrics sh)\<lparr>queue_rejections_total := queue_rejections_total (sh_metrics sh) + 1\<rparr>\<rparr>\<rparr>)"
| grant: "adm_step sm (sy_admission s) a \<Longrightarrow> holders a = Suc (holders (sy_admission s)) \<Longrightarrow>
    prepare_request co (models c) (sh_table (sy_shared s)) hs raw = Inr rq \<Longrightarrow>
    sys_step sm co c s (s\<lparr>sy_admission := a, sy_threads := add_mset (Granted rq) (sy_threads s)\<rparr>)"
| accept: "Granted rq \<in># sy_threads s \<Longrightarrow> sv_waiting e = ad_waiting (sy_admission s) \<Longrightarrow>
    sys_step sm co c s (run_thread (Granted rq) (Planning rq 0 {} 0 None None) (accept_request e w (sy_shared s)) s)"
| front_ends: "th = Planning rq n sk sr prior slept \<Longrightarrow> th \<in># sy_threads s \<Longrightarrow> n < co_max_attempts co \<Longrightarrow> e_plan e \<le> e_target e \<Longrightarrow>
    attempt_front co rq e sk (sy_shared s) = (FrontEnds r, sh) \<Longrightarrow>
    sys_step sm co c s (run_thread th (Answering rq r) sh s)"
| front_dials: "th = Planning rq n sk sr prior slept \<Longrightarrow> th \<in># sy_threads s \<Longrightarrow> n < co_max_attempts co \<Longrightarrow> e_plan e \<le> e_target e \<Longrightarrow>
    attempt_front co rq e sk (sy_shared s) = (FrontDials target wire g, sh) \<Longrightarrow>
    sys_step sm co c s (run_thread th (Exchanging rq (Suc n) (insert (identity target) sk) sr target g) sh s)"
| spent: "th = Planning rq n sk sr prior slept \<Longrightarrow> th \<in># sy_threads s \<Longrightarrow> co_max_attempts co \<le> n \<Longrightarrow>
    exhausted e prior (sy_shared s) = (r, sh) \<Longrightarrow>
    sys_step sm co c s (run_thread th (Answering rq r) sh s)"
| back_done: "th = Exchanging rq n sk sr target g \<Longrightarrow> th \<in># sy_threads s \<Longrightarrow>
    attempt_back co rq e n sk sr target g x (sy_shared s) = (Done r, w, sh) \<Longrightarrow>
    sys_step sm co c s (run_thread th (Answering rq r) sh s)"
| back_again: "th = Exchanging rq n sk sr target g \<Longrightarrow> th \<in># sy_threads s \<Longrightarrow>
    attempt_back co rq e n sk sr target g x (sy_shared s) = (Again sk' sr' err, w, sh) \<Longrightarrow>
    sys_step sm co c s (run_thread th (Planning rq n sk' sr' (Some err) w) sh s)"
| gone_exchanging: "th = Exchanging rq n sk sr target g \<Longrightarrow> th \<in># sy_threads s \<Longrightarrow> sh = sy_shared s \<Longrightarrow>
    sys_step sm co c s (run_thread th Leaving
      (with_metrics (\<lambda>m. drop_scope ck (False, m)) (sh\<lparr>sh_table := drop_guard g (sh_table sh)\<rparr>)) s)"
| gone_sleeping: "th = Planning rq n sk sr prior (Some d) \<Longrightarrow> th \<in># sy_threads s \<Longrightarrow>
    sys_step sm co c s (run_thread th Leaving (with_metrics (\<lambda>m. drop_scope ck (False, m)) (sy_shared s)) s)"
| answer: "th = Answering rq r \<Longrightarrow> th \<in># sy_threads s \<Longrightarrow> \<not> (\<exists>first rest target n. r = SentStream first rest target n) \<Longrightarrow>
    answer_request co c e (rq_id rq) r (sy_shared s) = (resp, sh) \<Longrightarrow>
    sys_step sm co c s (run_thread th Leaving sh s)"
| answer_stream: "th = Answering rq (SentStream first rest target n) \<Longrightarrow> th \<in># sy_threads s \<Longrightarrow>
    sys_step sm co c s (run_thread th (Streaming (Some first) (new_pump (sh_metrics (sy_shared s)) polls)) (sy_shared s) s)"
| stream_goes: "th = Streaming first p \<Longrightarrow> th \<in># sy_threads s \<Longrightarrow> sh = sy_shared s \<Longrightarrow>
    stream_turn (stream_env_of co c ck) first i (attach (sh_metrics sh) p) = Go q \<Longrightarrow>
    sys_step sm co c s (run_thread th (Streaming None q) (sh\<lparr>sh_metrics := snd (pu_scope q)\<rparr>) s)"
| stream_ends: "th = Streaming first p \<Longrightarrow> th \<in># sy_threads s \<Longrightarrow> sh = sy_shared s \<Longrightarrow>
    stream_turn (stream_env_of co c ck) first i (attach (sh_metrics sh) p) = Halt q \<Longrightarrow>
    sys_step sm co c s (run_thread th Leaving (sh\<lparr>sh_metrics := snd (drop_scope ck (pu_scope q))\<rparr>) s)"
| release: "Leaving \<in># sy_threads s \<Longrightarrow> adm_step sm (sy_admission s) a \<Longrightarrow> Suc (holders a) = holders (sy_admission s) \<Longrightarrow>
    sys_step sm co c s (s\<lparr>sy_admission := a, sy_threads := sy_threads s - {#Leaving#}\<rparr>)"
| readyz: "readyz_impl c clocks (ad_limit (sy_admission s), ad_waiting (sy_admission s)) (sy_shared s) = (resp, sh) \<Longrightarrow>
    sys_step sm co c s (s\<lparr>sy_shared := sh\<rparr>)"
| metrics_page: "metrics_impl now (ad_waiting (sy_admission s)) (sy_shared s) = (resp, sh) \<Longrightarrow>
    sys_step sm co c s (s\<lparr>sy_shared := sh\<rparr>)"

text \<open>The states of a server built from a configuration, at any point of any run.\<close>

definition sys_reachable :: "'s semaphore \<Rightarrow> 's app_state \<Rightarrow> 's system \<Rightarrow> bool" where
  "sys_reachable sm app s = (sys_step sm (as_core app) (as_config app))\<^sup>*\<^sup>* (start app) s"

end
