(* ===== verification/SseFacts.thy ===== *)
theory SseFacts
  imports Sse
begin

text \<open>
  The decoder against a reference that reads one byte at a time and has no limits: whatever the
  chunk boundaries, a decoder that accepts its input delivers the reference's events.  Then the
  bounds of what it holds, and the round trip of printed events.
\<close>

section \<open>The reference decoder\<close>

text \<open>One byte: a newline ends the line, anything else is kept.\<close>

definition feed_byte :: "char \<Rightarrow> sse_decoder \<times> sse_event list \<Rightarrow> sse_decoder \<times> sse_event list" where
  "feed_byte c s = (case s of (d, events) \<Rightarrow>
     if c = CHR 0x0A
     then process_line (from_utf8_lossy (strip_cr (sd_buffer d))) (d\<lparr>sd_buffer := []\<rparr>) events
     else (d\<lparr>sd_buffer := sd_buffer d @ [c]\<rparr>, events))"

definition feed :: "string \<Rightarrow> sse_decoder \<times> sse_event list \<Rightarrow> sse_decoder \<times> sse_event list" where
  "feed s = fold feed_byte s"

lemma feed_simps [simp]: "feed [] s = s" "feed (c # cs) s = feed cs (feed_byte c s)"
  "feed (a @ b) s = feed b (feed a s)"
  by (simp_all add: feed_def)

lemma feed_plain: "CHR 0x0A \<notin> set s \<Longrightarrow> feed s (d, es) = (d\<lparr>sd_buffer := sd_buffer d @ s\<rparr>, es)"
  by (induction s arbitrary: d) (auto simp: feed_byte_def)

text \<open>Lines are processed the same whatever the buffer holds, and add their events at the end.\<close>

lemma process_line_buffer:
  "process_line l (d\<lparr>sd_buffer := b\<rparr>) es = (case process_line l d es of (d', es') \<Rightarrow> (d'\<lparr>sd_buffer := b\<rparr>, es'))"
  by (simp add: process_line_def dispatch_def Let_def split: option.splits)

lemma process_line_frame: "process_line l d es = (d', es') \<Longrightarrow> sd_buffer d' = sd_buffer d \<and> sd_overflow d' = sd_overflow d"
  by (auto simp: process_line_def dispatch_def Let_def split: option.splits if_splits)

lemma process_line_events: "process_line l d es = (case process_line l d [] of (d', es') \<Rightarrow> (d', es @ es'))"
  by (simp add: process_line_def dispatch_def Let_def split: option.splits)

lemma feed_byte_events: "feed_byte c (d, es) = (case feed_byte c (d, []) of (d', es') \<Rightarrow> (d', es @ es'))"
  using process_line_events [of _ _ es] by (auto simp: feed_byte_def split: prod.splits)

lemma feed_events: "feed s (d, es) = (case feed s (d, []) of (d', es') \<Rightarrow> (d', es @ es'))"
proof (induction s arbitrary: d es)
  case (Cons c s)
  obtain d1 es1 where f: "feed_byte c (d, []) = (d1, es1)" by fastforce
  then have "feed_byte c (d, es) = (d1, es @ es1)" using feed_byte_events [of c d es] by simp
  then show ?case using f Cons [of d1 "es @ es1"] Cons [of d1 es1] by (auto split: prod.splits)
qed simp

section \<open>The decoder follows the reference\<close>

lemma next_line_Some: "next_line s = Some (l, r) \<longleftrightarrow> s = l @ CHR 0x0A # r \<and> CHR 0x0A \<notin> set l"
proof
  assume a: "next_line s = Some (l, r)"
  let ?P = "\<lambda>c. c \<noteq> CHR 0x0A"
  from a have m: "CHR 0x0A \<in> set s" "l = takeWhile ?P s" "r = tl (dropWhile ?P s)"
    by (auto simp: next_line_def split: if_splits)
  then have ne: "dropWhile ?P s \<noteq> []" by (auto simp: dropWhile_eq_Nil_conv)
  from hd_dropWhile [OF ne] have "hd (dropWhile ?P s) = CHR 0x0A" by simp
  with ne have "dropWhile ?P s = CHR 0x0A # r" using m(3) by (metis list.collapse)
  then have "s = l @ CHR 0x0A # r" using m(2) by (metis takeWhile_dropWhile_id)
  moreover have "CHR 0x0A \<notin> set l" using m(2) by (auto dest: set_takeWhileD)
  ultimately show "s = l @ CHR 0x0A # r \<and> CHR 0x0A \<notin> set l" by simp
next
  assume "s = l @ CHR 0x0A # r \<and> CHR 0x0A \<notin> set l"
  then show "next_line s = Some (l, r)" by (auto simp: next_line_def takeWhile_append dropWhile_append)
qed

lemma next_line_None: "next_line s = None \<longleftrightarrow> CHR 0x0A \<notin> set s"
  by (simp add: next_line_def)

lemma feed_line:
  assumes "CHR 0x0A \<notin> set l" "sd_buffer d = []"
  shows "feed (l @ [CHR 0x0A]) (d, es) = process_line (from_utf8_lossy (strip_cr l)) d es"
proof -
  have "d\<lparr>sd_buffer := []\<rparr> = d" using assms(2) by (cases d) simp
  moreover have "feed (l @ [CHR 0x0A]) (d, es) = process_line (from_utf8_lossy (strip_cr l)) (d\<lparr>sd_buffer := []\<rparr>) es"
    using assms by (simp add: feed_plain feed_byte_def)
  ultimately show ?thesis by simp
qed

lemma drain_feed:
  "drain buf d es = (d', Some es') \<Longrightarrow> feed buf (d\<lparr>sd_buffer := []\<rparr>, es) = (d', es') \<and> CHR 0x0A \<notin> set (sd_buffer d')"
proof (induction buf d es rule: drain.induct)
  case (1 buf d es)
  show ?case
  proof (cases "next_line buf")
    case None
    then have "d' = d\<lparr>sd_buffer := buf\<rparr>" "es' = es" using 1(2) by (simp_all add: drain.simps [of buf])
    then show ?thesis using None by (simp add: next_line_None feed_plain)
  next
    case (Some x)
    then obtain l r where x: "next_line buf = Some (l, r)" by fastforce
    then have buf: "buf = (l @ [CHR 0x0A]) @ r" "CHR 0x0A \<notin> set l" by (simp_all add: next_line_Some)
    obtain d1 es1 where p: "process_line (from_utf8_lossy (strip_cr l)) d es = (d1, es1)" by fastforce
    with 1(2) x have small: "\<not> max_event_bytes < sd_bytes d1" and dr: "drain r d1 es1 = (d', Some es')"
      by (auto simp: drain.simps [of buf] split: if_splits)
    have "feed (l @ [CHR 0x0A]) (d\<lparr>sd_buffer := []\<rparr>, es) = (d1\<lparr>sd_buffer := []\<rparr>, es1)"
      using feed_line [OF buf(2), of "d\<lparr>sd_buffer := []\<rparr>"] p by (simp add: process_line_buffer)
    then show ?thesis using 1(1) [OF x refl p [symmetric]] small dr unfolding buf(1) feed_simps(3) by simp
  qed
qed

text \<open>A series of chunks, as the pump feeds them; the first error ends it.\<close>

fun pushes :: "string list \<Rightarrow> sse_decoder \<Rightarrow> sse_decoder \<times> sse_event list option" where
  "pushes [] d = (d, Some [])"
| "pushes (c # cs) d = (case push c d of
      (d1, None) \<Rightarrow> (d1, None)
    | (d1, Some es) \<Rightarrow> (case pushes cs d1 of
        (d2, None) \<Rightarrow> (d2, None)
      | (d2, Some es') \<Rightarrow> (d2, Some (es @ es'))))"

lemma push_feed:
  assumes "push c d = (d', Some es)" "CHR 0x0A \<notin> set (sd_buffer d)"
  shows "feed c (d, []) = (d', es) \<and> CHR 0x0A \<notin> set (sd_buffer d')"
proof -
  from assms(1) have "drain (sd_buffer d @ c) d [] = (d', Some es)" by (simp add: push_def split: if_splits)
  from drain_feed [OF this] have f: "feed c (feed (sd_buffer d) (d\<lparr>sd_buffer := []\<rparr>, [])) = (d', es)"
    and n: "CHR 0x0A \<notin> set (sd_buffer d')" by simp_all
  show ?thesis using f n by (simp add: feed_plain [OF assms(2)])
qed

lemma pushes_feed:
  "pushes cs d = (d', Some es) \<Longrightarrow> CHR 0x0A \<notin> set (sd_buffer d) \<Longrightarrow>
    feed (concat cs) (d, []) = (d', es) \<and> CHR 0x0A \<notin> set (sd_buffer d')"
proof (induction cs arbitrary: d es)
  case (Cons c cs)
  from Cons(2) obtain d1 es1 es2 where s: "push c d = (d1, Some es1)" "pushes cs d1 = (d', Some es2)" "es = es1 @ es2"
    by (auto split: prod.splits option.splits)
  note p = push_feed [OF s(1) Cons(3)]
  from Cons(1) [OF s(2)] p have "feed (concat cs) (d1, []) = (d', es2)" "CHR 0x0A \<notin> set (sd_buffer d')" by auto
  with p s(3) show ?case using feed_events [of "concat cs" d1 es1] by simp
qed simp

section \<open>Limits\<close>

lemma drain_bounds:
  "drain buf d es = (d', Some es') \<Longrightarrow> sd_bytes d \<le> max_event_bytes \<Longrightarrow>
    sd_bytes d' \<le> max_event_bytes \<and> length (sd_buffer d') \<le> length buf \<and> sd_overflow d' = sd_overflow d"
proof (induction buf d es rule: drain.induct)
  case (1 buf d es)
  show ?case
  proof (cases "next_line buf")
    case None
    then show ?thesis using 1(2,3) by (auto simp: drain.simps [of buf])
  next
    case (Some x)
    then obtain l r where x: "next_line buf = Some (l, r)" by fastforce
    obtain d1 es1 where p: "process_line (from_utf8_lossy (strip_cr l)) d es = (d1, es1)" by fastforce
    with 1(2) x have small: "sd_bytes d1 \<le> max_event_bytes" and dr: "drain r d1 es1 = (d', Some es')"
      by (auto simp: drain.simps [of buf] split: if_splits)
    show ?thesis using 1(1) [OF x refl p [symmetric]] small dr next_line_length [OF x] process_line_frame [OF p]
      by auto
  qed
qed

lemma drain_overflow_kept: "drain buf d es = (d', Some es') \<Longrightarrow> sd_overflow d' = sd_overflow d"
proof (induction buf d es rule: drain.induct)
  case (1 buf d es)
  show ?case
  proof (cases "next_line buf")
    case None
    then show ?thesis using 1(2) by (auto simp: drain.simps [of buf])
  next
    case (Some x)
    then obtain l r where x: "next_line buf = Some (l, r)" by fastforce
    obtain d1 es1 where p: "process_line (from_utf8_lossy (strip_cr l)) d es = (d1, es1)" by fastforce
    with 1(2) x have "\<not> max_event_bytes < sd_bytes d1" "drain r d1 es1 = (d', Some es')"
      by (auto simp: drain.simps [of buf] split: if_splits)
    then show ?thesis using 1(1) [OF x refl p [symmetric]] process_line_frame [OF p] by simp
  qed
qed

lemma drain_overflow: "drain buf d es = (d', None) \<Longrightarrow> sd_overflow d'"
proof (induction buf d es rule: drain.induct)
  case (1 buf d es)
  show ?case
  proof (cases "next_line buf")
    case None
    then show ?thesis using 1(2) by (auto simp: drain.simps [of buf])
  next
    case (Some x)
    then obtain l r where x: "next_line buf = Some (l, r)" by fastforce
    obtain d1 es1 where p: "process_line (from_utf8_lossy (strip_cr l)) d es = (d1, es1)" by fastforce
    show ?thesis
    proof (cases "max_event_bytes < sd_bytes d1")
      case True
      then show ?thesis using 1(2) x p by (auto simp: drain.simps [of buf])
    next
      case False
      then show ?thesis using 1(1) [OF x refl p [symmetric]] 1(2) x p by (auto simp: drain.simps [of buf])
    qed
  qed
qed

text \<open>What a decoder that has not overflowed holds.\<close>

definition decoder_ok :: "sse_decoder \<Rightarrow> bool" where
  "decoder_ok d = (\<not> sd_overflow d \<and> CHR 0x0A \<notin> set (sd_buffer d)
     \<and> length (sd_buffer d) \<le> max_event_bytes \<and> sd_bytes d \<le> max_event_bytes)"

lemma new_decoder_ok [simp]: "decoder_ok new_decoder"
  by (simp add: decoder_ok_def new_decoder_def)

lemma push_ok:
  assumes "push c d = (d', Some es)" "decoder_ok d"
  shows "decoder_ok d'"
proof -
  from assms have "drain (sd_buffer d @ c) d [] = (d', Some es)"
    and b: "\<not> max_event_bytes < sat_add u64_max (length (sd_buffer d)) (length c)"
    by (simp_all add: push_def decoder_ok_def split: if_splits)
  note dr = drain_bounds [OF this(1)] drain_feed [OF this(1)]
  from b have "length (sd_buffer d @ c) \<le> max_event_bytes"
    by (auto simp: sat_add_def max_event_bytes_def u64_max_def min_def split: if_splits)
  with dr assms(2) show ?thesis by (auto simp: decoder_ok_def)
qed

lemma push_overflow: "push c d = (d', None) \<Longrightarrow> sd_overflow d'"
  by (auto simp: push_def drain_overflow split: if_splits)

lemma push_after_overflow: "sd_overflow d \<Longrightarrow> push c d = (d, None)"
  by (simp add: push_def)

lemma pushes_after_overflow: "sd_overflow d \<Longrightarrow> cs \<noteq> [] \<Longrightarrow> pushes cs d = (d, None)"
  by (cases cs) (simp_all add: push_after_overflow)

section \<open>Inputs that are never rejected\<close>

lemma utf8_front_pos: "1 \<le> fst (utf8_front c s)"
  by (simp add: utf8_front_def Let_def split: list.splits)

lemma thirds: "(a :: nat) + b = c \<Longrightarrow> y \<le> 3 * a \<Longrightarrow> x \<le> 3 * b \<Longrightarrow> x + y \<le> 3 * c"
  by simp

lemma from_utf8_lossy_length: "length (from_utf8_lossy s) \<le> 3 * length s"
proof (induction s rule: from_utf8_lossy.induct)
  case (2 c s)
  obtain n ok where f: "utf8_front c s = (n, ok)" by fastforce
  have n: "1 \<le> n" using utf8_front_pos [of c s] f by simp
  have "length (drop (n - 1) s) + min n (Suc (length s)) = Suc (length s)" using n by simp
  moreover from 2 [OF f [symmetric]] have "length (from_utf8_lossy (drop (n - 1) s)) \<le> 3 * length (drop (n - 1) s)" by simp
  moreover have "length (if ok then take n (c # s) else replacement) \<le> 3 * min n (Suc (length s))"
    using n by (simp add: replacement_def min_def)
  ultimately have "length (if ok then take n (c # s) else replacement) + length (from_utf8_lossy (drop (n - 1) s))
      \<le> 3 * Suc (length s)" by (rule thirds)
  then show ?case using f by simp
qed simp

lemma strip_prefix_length: "strip_prefix p s = Some r \<Longrightarrow> length r \<le> length s"
  by (auto simp: strip_prefix_eq_Some)

lemma strip_space_length: "length (strip_space v) \<le> length v"
  by (auto simp: strip_space_def strip_prefix_eq_Some split: option.splits)

lemma process_line_bytes: "process_line l d es = (d', es') \<Longrightarrow> sd_bytes d' \<le> sd_bytes d + length l"
proof -
  assume p: "process_line l d es = (d', es')"
  have "sd_bytes d + length (strip_space v) \<le> sd_bytes d + length l" if "strip_prefix ''data:'' l = Some v" for v
    using strip_prefix_length [OF that] strip_space_length [of v] by simp
  with p show ?thesis
    by (auto simp: process_line_def dispatch_def Let_def sat_add_def min_def split: option.splits if_splits)
qed

lemma strip_cr_length: "length (strip_cr l) \<le> length l"
  by (simp add: strip_cr_def)

lemma drain_accepts:
  "sd_bytes d + 3 * length buf \<le> max_event_bytes \<Longrightarrow>
    \<exists>d' es'. drain buf d es = (d', Some es') \<and> sd_bytes d' + 3 * length (sd_buffer d') \<le> sd_bytes d + 3 * length buf"
proof (induction buf d es rule: drain.induct)
  case (1 buf d es)
  show ?case
  proof (cases "next_line buf")
    case None
    then show ?thesis by (simp add: drain.simps [of buf])
  next
    case (Some x)
    then obtain l r where x: "next_line buf = Some (l, r)" by fastforce
    then have len: "length buf = length l + 1 + length r" by (simp add: next_line_Some)
    obtain d1 es1 where p: "process_line (from_utf8_lossy (strip_cr l)) d es = (d1, es1)" by fastforce
    have "sd_bytes d1 \<le> sd_bytes d + 3 * length l"
      using process_line_bytes [OF p] from_utf8_lossy_length [of "strip_cr l"] strip_cr_length [of l] by linarith
    then have b: "sd_bytes d1 + 3 * length r \<le> sd_bytes d + 3 * length buf" using len by linarith
    with 1(2) have small: "\<not> max_event_bytes < sd_bytes d1" by linarith
    from 1(1) [OF x refl p [symmetric] small] b 1(2) show ?thesis
      using x p small by (force simp: drain.simps [of buf])
  qed
qed

lemma pushes_accepts:
  "\<not> sd_overflow d \<Longrightarrow> sd_bytes d + 3 * (length (sd_buffer d) + length (concat cs)) \<le> max_event_bytes \<Longrightarrow>
    \<exists>d' es. pushes cs d = (d', Some es)"
proof (induction cs arbitrary: d)
  case (Cons c cs)
  have m: "max_event_bytes < u64_max" by (simp add: max_event_bytes_def u64_max_def)
  have "sat_add u64_max (length (sd_buffer d)) (length c) \<le> max_event_bytes"
    using Cons(3) by (simp add: sat_add_def)
  then have p: "push c d = drain (sd_buffer d @ c) d []" using Cons(2) by (simp add: push_def)
  from drain_accepts [of d "sd_buffer d @ c" "[]"] Cons(3) obtain d1 es1 where
    dr: "drain (sd_buffer d @ c) d [] = (d1, Some es1)"
      "sd_bytes d1 + 3 * length (sd_buffer d1) \<le> sd_bytes d + 3 * length (sd_buffer d @ c)" by auto
  have "sd_overflow d1 = sd_overflow d" using drain_overflow_kept [OF dr(1)] .
  with Cons(1) [of d1] Cons(2,3) dr(2) show ?case using p dr(1) by (fastforce simp: algebra_simps)
qed simp

section \<open>Printed events\<close>

text \<open>A value that survives a line of the protocol: one line of valid UTF-8.\<close>

definition clean :: "string \<Rightarrow> bool" where
  "clean v = (CHR 0x0A \<notin> set v \<and> (v = [] \<or> last v \<noteq> CHR 0x0D) \<and> from_utf8_lossy v = v)"

text \<open>An event as its name and the lines of its data.\<close>

definition render_event :: "string option \<times> string list \<Rightarrow> string" where
  "render_event e = (case fst e of None \<Rightarrow> [] | Some n \<Rightarrow> ''event: '' @ n @ [CHR 0x0A])
     @ concat (map (\<lambda>l. ''data: '' @ l @ [CHR 0x0A]) (snd e)) @ [CHR 0x0A]"

definition event_of :: "string option \<times> string list \<Rightarrow> sse_event" where
  "event_of e = \<lparr>ev_event = fst e, ev_data = join_with [CHR 0x0A] (snd e)\<rparr>"

definition printable :: "string option \<times> string list \<Rightarrow> bool" where
  "printable e = (snd e \<noteq> [] \<and> list_all clean (snd e) \<and> (case fst e of None \<Rightarrow> True | Some n \<Rightarrow> clean n))"

lemma lossy_ascii_append: "is_ascii a \<Longrightarrow> from_utf8_lossy (a @ s) = a @ from_utf8_lossy s"
  by (induction a) (simp_all add: is_ascii_def del: from_utf8_lossy.simps(2))

lemma prefix_clean:
  assumes "clean v" "is_ascii a" "CHR 0x0A \<notin> set a" "a \<noteq> []" "last a \<noteq> CHR 0x0D"
  shows "CHR 0x0A \<notin> set (a @ v)" "strip_cr (a @ v) = a @ v" "from_utf8_lossy (a @ v) = a @ v"
  using assms by (auto simp: clean_def strip_cr_def lossy_ascii_append last_append)

lemma field_names: "is_ascii ''data: ''" "is_ascii ''event: ''"
  by (simp_all add: is_ascii_def byte_def)

lemma feed_data_line:
  assumes "clean v" "sd_buffer d = []"
  shows "feed (''data: '' @ v @ [CHR 0x0A]) (d, es)
    = (d\<lparr>sd_bytes := sat_add u64_max (sd_bytes d) (length v), sd_lines := sd_lines d @ [v]\<rparr>, es)"
proof -
  have f: "CHR 0x0A \<notin> set (''data: '' @ v)" "strip_cr (''data: '' @ v) = ''data: '' @ v"
    "from_utf8_lossy (''data: '' @ v) = ''data: '' @ v"
    by (rule prefix_clean [OF assms(1)]; simp add: field_names)+
  from feed_line [OF f(1) assms(2), of es, unfolded f(2,3)] show ?thesis
    by (simp add: process_line_def starts_with_def strip_prefix_def strip_space_def Let_def)
qed

lemma feed_event_line:
  assumes "clean v" "sd_buffer d = []"
  shows "feed (''event: '' @ v @ [CHR 0x0A]) (d, es) = (d\<lparr>sd_event := Some v\<rparr>, es)"
proof -
  have f: "CHR 0x0A \<notin> set (''event: '' @ v)" "strip_cr (''event: '' @ v) = ''event: '' @ v"
    "from_utf8_lossy (''event: '' @ v) = ''event: '' @ v"
    by (rule prefix_clean [OF assms(1)]; simp add: field_names)+
  from feed_line [OF f(1) assms(2), of es, unfolded f(2,3)] show ?thesis
    by (simp add: process_line_def starts_with_def strip_prefix_def strip_space_def Let_def)
qed

lemma feed_data_lines:
  "list_all clean ls \<Longrightarrow> sd_buffer d = [] \<Longrightarrow>
    \<exists>n. feed (concat (map (\<lambda>l. ''data: '' @ l @ [CHR 0x0A]) ls)) (d, es) = (d\<lparr>sd_bytes := n, sd_lines := sd_lines d @ ls\<rparr>, es)"
proof (induction ls arbitrary: d)
  case Nil
  show ?case by (intro exI [of _ "sd_bytes d"]) simp
next
  case (Cons l ls)
  let ?d = "d\<lparr>sd_bytes := sat_add u64_max (sd_bytes d) (length l), sd_lines := sd_lines d @ [l]\<rparr>"
  have "feed (''data: '' @ l @ [CHR 0x0A]) (d, es) = (?d, es)" using Cons by (intro feed_data_line) simp_all
  moreover obtain n where "feed (concat (map (\<lambda>l. ''data: '' @ l @ [CHR 0x0A]) ls)) (?d, es)
      = (?d\<lparr>sd_bytes := n, sd_lines := sd_lines ?d @ ls\<rparr>, es)" using Cons.IH [of ?d] Cons.prems by auto
  ultimately show ?case
    by (intro exI [of _ n]) (simp only: list.map concat.simps feed_simps(3), simp)
qed

lemma feed_printed:
  assumes "printable e"
  shows "feed (render_event e) (new_decoder, es) = (new_decoder, es @ [event_of e])"
proof -
  have start: "\<exists>d. feed (case fst e of None \<Rightarrow> [] | Some n \<Rightarrow> ''event: '' @ n @ [CHR 0x0A]) (new_decoder, es) = (d, es)
      \<and> d = new_decoder\<lparr>sd_event := fst e\<rparr>"
  proof (cases "fst e")
    case None
    then show ?thesis by (simp add: new_decoder_def)
  next
    case (Some n)
    with assms have "clean n" by (simp add: printable_def)
    then show ?thesis using feed_event_line [of n new_decoder es] Some by (simp add: new_decoder_def)
  qed
  have "\<exists>n. feed (concat (map (\<lambda>l. ''data: '' @ l @ [CHR 0x0A]) (snd e))) (new_decoder\<lparr>sd_event := fst e\<rparr>, es)
      = (new_decoder\<lparr>sd_event := fst e, sd_bytes := n, sd_lines := snd e\<rparr>, es)"
    using feed_data_lines [of "snd e" "new_decoder\<lparr>sd_event := fst e\<rparr>" es] assms
    by (simp add: printable_def new_decoder_def)
  with start show ?thesis using assms unfolding render_event_def feed_simps(3)
    by (auto simp: feed_byte_def process_line_def dispatch_def strip_cr_def printable_def event_of_def new_decoder_def)
qed

lemma feed_printed_list:
  "list_all printable evs \<Longrightarrow> feed (concat (map render_event evs)) (new_decoder, es) = (new_decoder, es @ map event_of evs)"
  by (induction evs arbitrary: es) (simp_all add: feed_printed)

section \<open>Data that is not counted\<close>

text \<open>Empty data lines have no bytes: any number of them is held at a count of zero.\<close>

lemma push_empty_data:
  assumes "sd_buffer d = []" "\<not> sd_overflow d" "sd_bytes d = 0"
  shows "push (''data:'' @ [CHR 0x0A]) d = (d\<lparr>sd_lines := sd_lines d @ [[]]\<rparr>, Some [])"
proof -
  have n: "next_line (''data:'' @ [CHR 0x0A]) = Some (''data:'', [])" "next_line [] = None"
    by (simp_all add: next_line_Some next_line_None)
  have l: "from_utf8_lossy (strip_cr ''data:'') = ''data:''"
    by (simp add: strip_cr_def from_utf8_lossy_ascii is_ascii_def byte_def del: from_utf8_lossy.simps(2))
  have p: "process_line ''data:'' d [] = (d\<lparr>sd_lines := sd_lines d @ [[]]\<rparr>, [])"
    using assms(3) by (simp add: process_line_def starts_with_def strip_prefix_def strip_space_def Let_def sat_add_def)
  have "drain (''data:'' @ [CHR 0x0A]) d [] = (d\<lparr>sd_lines := sd_lines d @ [[]]\<rparr>, Some [])"
    unfolding drain.simps [of "''data:'' @ [CHR 0x0A]"] n option.case prod.case l p
    using assms by (simp add: drain.simps [of "[]"] n(2) max_event_bytes_def)
  then show ?thesis using assms by (simp add: push_def sat_add_def max_event_bytes_def)
qed

lemma empty_data_unbounded:
  "pushes (replicate n (''data:'' @ [CHR 0x0A])) (new_decoder\<lparr>sd_lines := ls\<rparr>)
    = (new_decoder\<lparr>sd_lines := ls @ replicate n []\<rparr>, Some [])"
proof (induction n arbitrary: ls)
  case (Suc n)
  have "push (''data:'' @ [CHR 0x0A]) (new_decoder\<lparr>sd_lines := ls\<rparr>) = (new_decoder\<lparr>sd_lines := ls @ [[]]\<rparr>, Some [])"
    using push_empty_data [of "new_decoder\<lparr>sd_lines := ls\<rparr>"] by (simp add: new_decoder_def)
  with Suc [of "ls @ [[]]"] show ?case by simp
qed simp

section \<open>The properties\<close>

text \<open>C18: Chunk boundaries do not matter.  Two ways of cutting the same bytes that the decoder
  accepts give the same events and leave the same decoder: those of a reference that reads byte by
  byte and has no limits.\<close>

theorem sse_chunk_invariance:
  assumes "decoder_ok d" and "pushes cs d = (d1, Some es1)" and "pushes ds d = (d2, Some es2)" and "concat cs = concat ds"
  shows "es1 = es2 \<and> d1 = d2 \<and> feed (concat cs) (d, []) = (d1, es1)"
  using pushes_feed [OF assms(2)] pushes_feed [OF assms(3)] assms(1,4) by (auto simp: decoder_ok_def)

theorem sse_chunk_invariance_witness:
  "\<exists>es d. pushes [''data: a'', [CHR 0x0A, CHR 0x0A]] new_decoder = (d, Some es)
    \<and> pushes [''data'', '': a'' @ [CHR 0x0A, CHR 0x0A]] new_decoder = (d, Some es)"
proof -
  let ?cs = "[''data: a'', [CHR 0x0A, CHR 0x0A]]" and ?ds = "[''data'', '': a'' @ [CHR 0x0A, CHR 0x0A]]"
  have "\<exists>d es. pushes xs new_decoder = (d, Some es)" if "length (concat xs) \<le> 9" for xs
    using pushes_accepts [of new_decoder xs] that by (simp add: new_decoder_def max_event_bytes_def)
  from this [of ?cs] this [of ?ds] obtain d1 es1 d2 es2 where
    "pushes ?cs new_decoder = (d1, Some es1)" "pushes ?ds new_decoder = (d2, Some es2)" by auto
  with sse_chunk_invariance [OF new_decoder_ok this] show ?thesis by simp
qed

text \<open>C36: Round trip.  Events that are printed and sent in chunks of any size are decoded to
  themselves, and the decoder is as new afterwards (for texts up to a third of the size limit,
  which the decoder never rejects).\<close>

theorem sse_roundtrip:
  assumes "list_all printable evs" and "concat cs = concat (map render_event evs)"
    and "3 * length (concat cs) \<le> max_event_bytes"
  shows "pushes cs new_decoder = (new_decoder, Some (map event_of evs))"
proof -
  obtain d es where p: "pushes cs new_decoder = (d, Some es)"
    using pushes_accepts [of new_decoder cs] assms(3) by (auto simp: new_decoder_def)
  from pushes_feed [OF p] have "feed (concat cs) (new_decoder, []) = (d, es)" by (simp add: new_decoder_def)
  with p feed_printed_list [OF assms(1), of "[]"] assms(2) show ?thesis by simp
qed

theorem sse_roundtrip_witness:
  "pushes [''event: pi'', ''ng'' @ [CHR 0x0A] @ ''data: '', ''{}'' @ [CHR 0x0A, CHR 0x0A]] new_decoder
    = (new_decoder, Some [\<lparr>ev_event = Some ''ping'', ev_data = ''{}''\<rparr>])"
proof -
  let ?cs = "[''event: pi'', ''ng'' @ [CHR 0x0A] @ ''data: '', ''{}'' @ [CHR 0x0A, CHR 0x0A]]"
  have "list_all printable [(Some ''ping'', [''{}''])]"
    by (simp add: printable_def clean_def from_utf8_lossy_ascii is_ascii_def byte_def del: from_utf8_lossy.simps(2))
  moreover have "concat ?cs = concat (map render_event [(Some ''ping'', [''{}''])])" by (simp add: render_event_def)
  moreover have "3 * length (concat ?cs) \<le> max_event_bytes" by (simp add: max_event_bytes_def)
  ultimately have "pushes ?cs new_decoder = (new_decoder, Some (map event_of [(Some ''ping'', [''{}''])]))"
    by (rule sse_roundtrip)
  moreover have "map event_of [(Some ''ping'', [''{}''])] = [\<lparr>ev_event = Some ''ping'', ev_data = ''{}''\<rparr>]"
    by (simp add: event_of_def)
  ultimately show ?thesis by (simp only:)
qed

end
