(* ===== verification/StreamFacts.thy ===== *)
theory StreamFacts
  imports Stream SseFacts "HOL-Library.Sublist"
begin

text \<open>
  What a streaming answer promises: the client sees the upstream's chunks verbatim and in order,
  an error frame is the last thing it sees, and every accepted request leaves the active count
  exactly once, as complete only after a \<open>message_stop\<close>.
\<close>

section \<open>Frames\<close>

text \<open>The upstream chunks among the frames, and those that were sent.\<close>

fun payload :: "frame list \<Rightarrow> string list" where
  "payload [] = []"
| "payload (Raw c # fs) = c # payload fs"
| "payload (ErrorFrame m # fs) = payload fs"
| "payload (Keepalive # fs) = payload fs"

fun chunks_of :: "pump_input list \<Rightarrow> string list" where
  "chunks_of [] = []"
| "chunks_of (UpChunk c # is) = (if c = [] then chunks_of is else c # chunks_of is)"
| "chunks_of (UpError # is) = []"
| "chunks_of (Tick # is) = chunks_of is"
| "chunks_of (ClientGone # is) = []"

definition is_error_frame :: "frame \<Rightarrow> bool" where
  "is_error_frame f = (case f of ErrorFrame m \<Rightarrow> True | _ \<Rightarrow> False)"

definition no_error :: "frame list \<Rightarrow> bool" where
  "no_error fs = list_all (\<lambda>f. \<not> is_error_frame f) fs"

lemma payload_append [simp]: "payload (a @ b) = payload a @ payload b"
  by (induction a rule: payload.induct) simp_all

lemma is_error_frame_simps [simp]: "is_error_frame (ErrorFrame m)" "\<not> is_error_frame (Raw c)" "\<not> is_error_frame Keepalive"
  by (simp_all add: is_error_frame_def)

lemma no_error_simps [simp]: "no_error []" "no_error (f # fs) = (\<not> is_error_frame f \<and> no_error fs)"
  "no_error (a @ b) = (no_error a \<and> no_error b)"
  by (simp_all add: no_error_def)

lemma no_error_butlast: "no_error fs \<Longrightarrow> no_error (butlast fs)"
  by (auto simp: no_error_def list_all_iff dest: in_set_butlastD)

lemma payload_no_raw: "payload [ErrorFrame m] = []" "payload [Keepalive] = []" "payload [Raw c] = [c]"
  by simp_all

text \<open>A step that starts at \<open>p\<close> forwards at most \<open>xs\<close>, all of it when it goes on.\<close>

definition sends :: "pump \<Rightarrow> string list \<Rightarrow> progress \<Rightarrow> bool" where
  "sends p xs r = ((\<exists>ys. prefix ys xs \<and> payload (pu_frames (halted r)) = payload (pu_frames p) @ ys)
     \<and> no_error (butlast (pu_frames (halted r)))
     \<and> (\<forall>q. r = Go q \<longrightarrow> no_error (pu_frames q) \<and> payload (pu_frames q) = payload (pu_frames p) @ xs))"

lemma halted_simps [simp]: "halted (Go p) = p" "halted (Halt p) = p"
  by (simp_all add: halted_def)

lemma sends_and_go:
  assumes "sends p xs r" and "\<And>q. r = Go q \<Longrightarrow> no_error (pu_frames q) \<Longrightarrow> sends q ys (k q)"
  shows "sends p (xs @ ys) (and_go r k)"
proof (cases r)
  case (Halt q)
  then show ?thesis using assms(1) by (auto simp: sends_def)
next
  case (Go q)
  then have q: "no_error (pu_frames q)" "payload (pu_frames q) = payload (pu_frames p) @ xs"
    using assms(1) by (auto simp: sends_def)
  from assms(2) [OF Go q(1)] have k: "sends q ys (k q)" .
  then obtain zs where "prefix zs ys" "payload (pu_frames (halted (k q))) = payload (pu_frames q) @ zs"
    by (auto simp: sends_def)
  with k Go q show ?thesis unfolding sends_def by auto
qed

lemma sends_and_go_tail:
  assumes "sends p [] r" and "\<And>q. r = Go q \<Longrightarrow> no_error (pu_frames q) \<Longrightarrow> sends q ys (k q)"
  shows "sends p ys (and_go r k)"
  using sends_and_go [OF assms] by simp

lemma sends_Go: "pu_frames q = pu_frames p \<Longrightarrow> no_error (pu_frames p) \<Longrightarrow> sends p [] (Go q)"
  by (simp add: sends_def no_error_butlast)

lemma sends_Halt: "pu_frames q = pu_frames p \<Longrightarrow> no_error (butlast (pu_frames p)) \<Longrightarrow> sends p xs (Halt q)"
  by (auto simp: sends_def)

lemma yield_halted: "pu_frames (halted (yield_frame f p)) = pu_frames p @ [f]"
  by (simp add: yield_frame_def Let_def)

lemma yield_Go: "yield_frame f p = Go q \<Longrightarrow> pu_frames q = pu_frames p @ [f]"
  by (auto simp: yield_frame_def Let_def split: if_splits)

lemma sends_yield: "\<not> is_error_frame f \<Longrightarrow> pu_frames p' = pu_frames p \<Longrightarrow> no_error (pu_frames p) \<Longrightarrow>
    sends p (payload [f]) (yield_frame f p')"
  by (auto simp: sends_def yield_halted dest: yield_Go)

text \<open>An error frame is yielded and nothing follows.\<close>

lemma sends_last:
  assumes "pu_frames p' = pu_frames p" "no_error (pu_frames p)" "\<And>q. \<exists>q'. k q = Halt q' \<and> pu_frames q' = pu_frames q"
  shows "sends p xs (and_go (yield_frame (ErrorFrame m) p') k)"
proof (cases "yield_frame (ErrorFrame m) p'")
  case (Go q)
  with yield_Go [OF Go] assms(1,2) assms(3) [of q] show ?thesis by (auto simp: sends_def)
next
  case (Halt q)
  with yield_halted [of "ErrorFrame m" p'] assms(1,2) show ?thesis by (auto simp: sends_def)
qed

lemma scope_frames [simp]: "pu_frames (fail_scope e c p) = pu_frames p" "pu_frames (count_protocol_error p) = pu_frames p"
  "pu_frames (count_interruption p) = pu_frames p" "pu_frames (finish_complete e p) = pu_frames p"
  by (simp_all add: fail_scope_def count_protocol_error_def count_interruption_def finish_complete_def)

lemma process_events_frames: "process_events e evs p = (t, f, q) \<Longrightarrow>
    pu_frames q = pu_frames p \<and> (f = None \<or> t \<and> (\<exists>m. f = Some (ErrorFrame m)))"
  by (induction e evs p rule: process_events.induct) (auto split: if_splits event_kind.splits)

lemma observe_sends: "no_error (pu_frames p) \<Longrightarrow> sends p [] (observe e evs p)"
proof -
  assume ne: "no_error (pu_frames p)"
  obtain t f q where pe: "process_events e evs p = (t, f, q)" by (metis prod_cases3)
  note fr = process_events_frames [OF pe]
  show ?thesis
  proof (cases f)
    case None
    then show ?thesis using pe fr ne
      by (auto simp: observe_def intro: sends_Go sends_Halt no_error_butlast)
  next
    case (Some x)
    with fr obtain m where "x = ErrorFrame m" "t" by auto
    with Some pe fr ne show ?thesis by (simp add: observe_def) (rule sends_last; simp)
  qed
qed

lemma forward_then:
  assumes "no_error (pu_frames p)" "pu_frames p' = pu_frames p" "\<And>q. no_error (pu_frames q) \<Longrightarrow> sends q [] (k q)"
  shows "sends p [c] (and_go (yield_frame (Raw c) p') k)"
  using sends_and_go [of p "[c]" "yield_frame (Raw c) p'" "[]" k] sends_yield [of "Raw c" p' p] assms by simp

lemma next_chunk_sends: "no_error (pu_frames p) \<Longrightarrow> sends p [c] (next_chunk e c p)"
  by (auto simp: next_chunk_def intro!: sends_last forward_then observe_sends split: prod.splits option.splits)

lemma first_chunk_sends: "no_error (pu_frames p) \<Longrightarrow> sends p [c] (first_chunk e c p)"
  by (auto simp: first_chunk_def intro!: sends_last forward_then observe_sends split: prod.splits option.splits)

lemma upstream_end_sends: "no_error (pu_frames p) \<Longrightarrow> sends p [] (upstream_end e p)"
proof -
  assume ne: "no_error (pu_frames p)"
  obtain d tr where fin: "finish (pu_decoder p) = (d, tr)" by fastforce
  obtain t f q where pe: "process_events e (case tr of Some evs \<Rightarrow> evs | None \<Rightarrow> []) (p\<lparr>pu_decoder := d\<rparr>) = (t, f, q)"
    by (metis prod_cases3)
  note fr = process_events_frames [OF pe]
  show ?thesis
  proof (cases f)
    case None
    then show ?thesis using fin pe fr ne
      by (auto simp: upstream_end_def intro!: sends_last sends_Halt no_error_butlast)
  next
    case (Some x)
    with fr obtain m where "x = ErrorFrame m" "t" by auto
    with Some fin pe fr ne show ?thesis by (simp add: upstream_end_def) (rule sends_last; simp)
  qed
qed

lemma pump_loop_sends: "no_error (pu_frames p) \<Longrightarrow> sends p (chunks_of is) (pump_loop e is p)"
proof (induction "is" arbitrary: p rule: chunks_of.induct)
  case 1
  then show ?case by (simp add: upstream_end_sends)
next
  case (2 c "is")
  then show ?case using sends_and_go [of p "[c]" "next_chunk e c p" "chunks_of is" "pump_loop e is"] next_chunk_sends
    by auto
next
  case (3 "is")
  then show ?case by (auto simp: upstream_error_def intro: sends_last)
next
  case (4 "is")
  then show ?case using sends_and_go [of p "[]" "yield_frame Keepalive p" "chunks_of is" "pump_loop e is"]
      sends_yield [of Keepalive p p] by auto
next
  case (5 "is")
  then show ?case by (simp add: sends_Halt no_error_butlast)
qed

section \<open>Accounting\<close>

text \<open>How a finished request is recorded, relative to the metrics when it was accepted.\<close>

definition failure_classes :: "string list" where
  "failure_classes = [''protocol_error'', ''upstream_error_event'', ''stream_interrupted'', ''unexpected_eof'', ''client_disconnected'']"

text \<open>The counters of attempts, which a stream leaves alone.\<close>

definition attempt_counts :: "metrics \<Rightarrow> 64 word list" where [simp]:
  "attempt_counts m = [route_attempts_total m, upstream_requests_total m, upstream_429_total m, model_account_429_total m,
     quota_exhaustion_total m, model_failovers_total m, cross_model_failovers_total m]"

definition accounted :: "scope_clock \<Rightarrow> metrics \<Rightarrow> pump \<Rightarrow> bool" where
  "accounted ck m0 p = (case pu_scope p of (finished, m) \<Rightarrow>
     requests_total m = requests_total m0 \<and> queue_wait_samples m = queue_wait_samples m0 \<and> attempt_counts m = attempt_counts m0
     \<and> requests_active m = requests_active m0 - (if finished then 1 else 0)
     \<and> request_duration_samples m = request_duration_samples m0 + (if finished then 1 else 0)
     \<and> (if finished then last_failure m = last_failure m0 \<and> pu_clean_stop p
            \<or> last_failure m \<in> (\<lambda>c. Some (c, ck_unix ck)) ` set failure_classes
        else last_failure m = last_failure m0))"

lemma accounted_fail:
  "accounted (se_clock e) m0 p \<Longrightarrow> c \<in> set failure_classes \<Longrightarrow> accounted (se_clock e) m0 (fail_scope e c p)"
  by (cases "pu_scope p") (auto simp: accounted_def fail_scope_def finish_error_def dec_requests_def
      note_request_duration_def note_failure_def)

lemma accounted_counts [simp]:
  "accounted ck m0 (count_protocol_error p) = accounted ck m0 p"
  "accounted ck m0 (count_interruption p) = accounted ck m0 p"
  by (cases "pu_scope p"; simp add: accounted_def count_protocol_error_def count_interruption_def)+

lemma accounted_complete: "accounted (se_clock e) m0 p \<Longrightarrow> pu_clean_stop p \<Longrightarrow> accounted (se_clock e) m0 (finish_complete e p)"
  by (cases "pu_scope p") (auto simp: accounted_def finish_complete_def finish_stream_def dec_requests_def note_request_duration_def)

lemma accounted_irrelevant [simp]:
  "accounted ck m0 (p\<lparr>pu_decoder := d\<rparr>) = accounted ck m0 p" "accounted ck m0 (p\<lparr>pu_committed := b\<rparr>) = accounted ck m0 p"
  "accounted ck m0 (p\<lparr>pu_tool_calls := n\<rparr>) = accounted ck m0 p"
  "accounted ck m0 (p\<lparr>pu_frames := fs, pu_polls := po\<rparr>) = accounted ck m0 p"
  by (simp_all add: accounted_def)

lemma accounted_stop: "accounted ck m0 p \<Longrightarrow> accounted ck m0 (p\<lparr>pu_clean_stop := True\<rparr>)"
  by (auto simp: accounted_def split: prod.splits)

lemma class_members: "''protocol_error'' \<in> set failure_classes" "''upstream_error_event'' \<in> set failure_classes"
  "''stream_interrupted'' \<in> set failure_classes" "''unexpected_eof'' \<in> set failure_classes"
  "''client_disconnected'' \<in> set failure_classes"
  by (simp_all add: failure_classes_def)

lemma process_events_accounted:
  "process_events e evs p = (t, f, q) \<Longrightarrow> accounted (se_clock e) m0 p \<Longrightarrow> accounted (se_clock e) m0 q"
  by (induction e evs p rule: process_events.induct)
    (auto split: if_splits event_kind.splits intro: accounted_fail accounted_stop simp: class_members)

text \<open>A step keeps a request accounted for, however it ends.\<close>

definition keeps :: "scope_clock \<Rightarrow> metrics \<Rightarrow> progress \<Rightarrow> bool" where
  "keeps ck m0 r = accounted ck m0 (halted r)"

lemma keeps_and_go: "keeps ck m0 r \<Longrightarrow> (\<And>q. accounted ck m0 q \<Longrightarrow> keeps ck m0 (k q)) \<Longrightarrow> keeps ck m0 (and_go r k)"
  by (cases r) (simp_all add: keeps_def)

lemma keeps_simps [simp]: "keeps ck m0 (Go p) = accounted ck m0 p" "keeps ck m0 (Halt p) = accounted ck m0 p"
  "keeps ck m0 (yield_frame f p) = accounted ck m0 p"
  by (simp_all add: keeps_def yield_frame_def Let_def)

lemma observe_keeps: "accounted (se_clock e) m0 p \<Longrightarrow> keeps (se_clock e) m0 (observe e evs p)"
  by (auto simp: observe_def accounted_complete dest: process_events_accounted intro!: keeps_and_go
      split: prod.splits option.splits)

lemmas keeps_intros = keeps_and_go observe_keeps accounted_fail class_members

lemma next_chunk_keeps: "accounted (se_clock e) m0 p \<Longrightarrow> keeps (se_clock e) m0 (next_chunk e c p)"
  by (auto simp: next_chunk_def intro!: keeps_intros split: prod.splits option.splits)

lemma first_chunk_keeps: "accounted (se_clock e) m0 p \<Longrightarrow> keeps (se_clock e) m0 (first_chunk e c p)"
  by (auto simp: first_chunk_def intro!: keeps_intros split: prod.splits option.splits)

lemma upstream_end_keeps:
  assumes "accounted (se_clock e) m0 p"
  shows "keeps (se_clock e) m0 (upstream_end e p)"
proof -
  obtain d tr where fin: "finish (pu_decoder p) = (d, tr)" by fastforce
  obtain t f q where pe: "process_events e (case tr of Some evs \<Rightarrow> evs | None \<Rightarrow> []) (p\<lparr>pu_decoder := d\<rparr>) = (t, f, q)"
    by (metis prod_cases3)
  from process_events_accounted [OF pe, of m0] assms have "accounted (se_clock e) m0 q" by simp
  with fin pe show ?thesis
    by (auto simp: upstream_end_def accounted_complete intro!: keeps_intros split: option.splits)
qed

lemma pump_loop_keeps: "accounted (se_clock e) m0 p \<Longrightarrow> keeps (se_clock e) m0 (pump_loop e is p)"
  by (induction e "is" p rule: pump_loop.induct)
    (auto simp: upstream_end_keeps next_chunk_keeps upstream_error_def intro!: keeps_intros)

text \<open>The scope of a finished stream is that of its pump, dropped.\<close>

lemma stream_body_scope:
  "\<exists>q. accounted (se_clock e) m q \<and>
     stream_body e first is (new_pump m polls) = q\<lparr>pu_scope := drop_scope (se_clock e) (pu_scope q)\<rparr>"
proof -
  let ?p = "new_pump m polls" and ?ck = "se_clock e"
  have p: "accounted ?ck m ?p" by (simp add: accounted_def new_pump_def)
  define q where "q = (if pu_polls ?p = Some 0 then ?p else halted (and_go (first_chunk e first ?p) (pump_loop e is)))"
  have "keeps ?ck m (and_go (first_chunk e first ?p) (pump_loop e is))"
    by (intro keeps_and_go first_chunk_keeps pump_loop_keeps p)
  then have "accounted ?ck m q" using p by (simp add: q_def keeps_def)
  moreover have "stream_body e first is ?p = q\<lparr>pu_scope := drop_scope ?ck (pu_scope q)\<rparr>"
    by (simp add: stream_body_def q_def Let_def)
  ultimately show ?thesis by blast
qed

lemmas scope_end_defs = finish_json_def finish_error_def drop_scope_def dec_requests_def note_request_duration_def
  note_failure_def

lemma stream_body_active:
  "requests_active (snd (pu_scope (stream_body e first is (new_pump m polls)))) = requests_active m - 1"
proof -
  obtain q where q: "accounted (se_clock e) m q"
      "stream_body e first is (new_pump m polls) = q\<lparr>pu_scope := drop_scope (se_clock e) (pu_scope q)\<rparr>"
    using stream_body_scope by blast
  then show ?thesis by (cases "pu_scope q") (simp add: accounted_def scope_end_defs)
qed

section \<open>The properties\<close>

text \<open>C3: Verbatim passthrough.  Whatever the upstream sends and whenever the client leaves, the
  chunks in the body are the upstream's own, unchanged and in order, beginning with the first one;
  and no frame follows an error frame.\<close>

theorem stream_verbatim:
  "prefix (payload (pu_frames (stream_body e first is (new_pump m polls)))) (first # chunks_of is)
    \<and> no_error (butlast (pu_frames (stream_body e first is (new_pump m polls))))"
proof -
  let ?p = "new_pump m polls"
  have p: "pu_frames ?p = []" by (simp add: new_pump_def)
  have "sends ?p ([first] @ chunks_of is) (and_go (first_chunk e first ?p) (pump_loop e is))"
    using p by (intro sends_and_go) (simp_all add: first_chunk_sends pump_loop_sends)
  then show ?thesis using p by (auto simp: stream_body_def Let_def sends_def)
qed

text \<open>C17: Exactly one ending.  Whatever happens to a stream, its request leaves the active count
  once and its duration is sampled once; and it ends without a recorded failure only if a
  \<open>message_stop\<close> was decoded: every other ending, the client's disconnection included, is recorded
  as a failure of a known class.\<close>

theorem stream_accounted:
  defines "p' \<equiv> \<lambda>e first is m polls. stream_body e first is (new_pump m polls)"
  shows "fst (pu_scope (p' e first is m polls))
    \<and> requests_active (snd (pu_scope (p' e first is m polls))) = requests_active m - 1
    \<and> request_duration_samples (snd (pu_scope (p' e first is m polls))) = request_duration_samples m + 1
    \<and> (last_failure (snd (pu_scope (p' e first is m polls))) = last_failure m \<and> pu_clean_stop (p' e first is m polls)
       \<or> last_failure (snd (pu_scope (p' e first is m polls))) \<in> (\<lambda>c. Some (c, ck_unix (se_clock e))) ` set failure_classes)"
proof -
  obtain q where q: "accounted (se_clock e) m q"
      "stream_body e first is (new_pump m polls) = q\<lparr>pu_scope := drop_scope (se_clock e) (pu_scope q)\<rparr>"
    using stream_body_scope by blast
  then show ?thesis unfolding p'_def
    by (cases "pu_scope q") (auto simp: accounted_def scope_end_defs class_members)
qed

end
