(* ===== verification/RouterObserve.thy ===== *)
theory RouterObserve
  imports RouterHealth
begin

text \<open>
  What the router's reads observe.  Expired deadlines are forgotten when a read meets them, so a
  read changes the table; \<open>settle\<close> performs all pending forgetting at once, and every read is
  shown to return a pure function of the table and to leave the settled table as it was
  (locale \<open>lazy_read\<close>).  On top of it: the pure specification of \<open>dialability\<close> and of planning.
\<close>

section \<open>Settling a table\<close>

definition refresh_group :: "instant \<Rightarrow> group_entry \<Rightarrow> group_entry" where
  "refresh_group now e = e\<lparr>ge_cooling_until := clear (ge_cooling_until e) now\<rparr>"

definition settle_key :: "instant \<Rightarrow> key_entry \<Rightarrow> key_entry" where
  "settle_key now k = k\<lparr>ke_state := clear_key now (ke_state k)\<rparr>"

definition settle :: "instant \<Rightarrow> route_table \<Rightarrow> route_table" where
  "settle now t = t\<lparr>t_keys := map (settle_key now) (t_keys t),
     t_routes := (\<lambda>r. Some (refresh_route now (or_default (t_routes t r)))),
     t_models := (\<lambda>m. Some (refresh_model now (or_default (t_models t m)))),
     t_groups := (\<lambda>g. Some (refresh_group now (or_default (t_groups t g))))\<rparr>"

lemma clear_key_later [simp]: "now \<le> later \<Longrightarrow> clear_key later (clear_key now s) = clear_key later s"
  by (simp add: clear_key_def clear_later)

lemma settle_key_later [simp]: "now \<le> later \<Longrightarrow> settle_key later (settle_key now k) = settle_key later k"
  by (simp add: settle_key_def)

lemma settle_key_sel [simp]:
  "ke_index (settle_key now k) = ke_index k" "ke_name (settle_key now k) = ke_name k"
  "ke_api_key (settle_key now k) = ke_api_key k" "ke_group (settle_key now k) = ke_group k"
  "ke_state (settle_key now k) = clear_key now (ke_state k)"
  by (simp_all add: settle_key_def)

lemma clear_key_sel [simp]:
  "ks_unusable (clear_key now s) = ks_unusable s" "ks_streak (clear_key now s) = ks_streak s"
  "ks_inflight (clear_key now s) = ks_inflight s" "ks_ttft_ms (clear_key now s) = ks_ttft_ms s"
  "ks_latency_ms (clear_key now s) = ks_latency_ms s"
  "ks_cooling_until (clear_key now s) = clear (ks_cooling_until s) now"
  by (simp_all add: clear_key_def)

lemma refresh_route_later [simp]: "now \<le> later \<Longrightarrow> refresh_route later (refresh_route now e) = refresh_route later e"
  by (simp add: refresh_route_def clear_later)

lemma refresh_group_later [simp]: "now \<le> later \<Longrightarrow> refresh_group later (refresh_group now e) = refresh_group later e"
  by (simp add: refresh_group_def clear_later)

lemma refresh_circuit_later:
  "now \<le> later \<Longrightarrow> refresh_circuit later (refresh_circuit now e) = refresh_circuit later e"
  by (cases "me_open_until e") (auto simp: refresh_circuit_def)

lemma refresh_missing_later:
  "now \<le> later \<Longrightarrow> refresh_missing later (refresh_missing now e) = refresh_missing later e"
  by (cases "me_disabled_until e") (auto simp: refresh_missing_def)

lemma refresh_commute: "refresh_circuit now (refresh_missing now' e) = refresh_missing now' (refresh_circuit now e)"
  by (cases e) (simp add: refresh_circuit_def refresh_missing_def split: option.splits)

lemma refresh_model_later [simp]: "now \<le> later \<Longrightarrow> refresh_model later (refresh_model now e) = refresh_model later e"
  by (simp add: refresh_model_def refresh_commute refresh_missing_later)
     (simp add: refresh_circuit_later refresh_commute [symmetric])

lemma settle_sel [simp]:
  "t_keys (settle now t) = map (settle_key now) (t_keys t)"
  "t_routes (settle now t) r = Some (refresh_route now (or_default (t_routes t r)))"
  "t_models (settle now t) m = Some (refresh_model now (or_default (t_models t m)))"
  "t_groups (settle now t) g = Some (refresh_group now (or_default (t_groups t g)))"
  "t_affinity (settle now t) = t_affinity t" "t_round_robin (settle now t) = t_round_robin t"
  "t_affinity_breaks (settle now t) = t_affinity_breaks t" "t_config (settle now t) = t_config t"
  "t_profiles (settle now t) = t_profiles t"
  by (simp_all add: settle_def)

lemma settle_later: "now \<le> later \<Longrightarrow> settle later (settle now t) = settle later t"
  by (simp add: settle_def comp_def)

lemma settle_idem [simp]: "settle now (settle now t) = settle now t"
  by (rule settle_later) simp

lemma settle_eqI:
  assumes "settle now t' = settle now t" and "now \<le> later"
  shows "settle later t' = settle later t"
  by (metis assms settle_later)

section \<open>The interface of a lazy read\<close>

text \<open>
  A read with a time stamp: its result is a pure function of the state, the same on the settled
  state, and it leaves the settled state as it was.
\<close>

locale lazy_read =
  fixes normal :: "instant \<Rightarrow> 's \<Rightarrow> 's" and read :: "instant \<Rightarrow> 's \<Rightarrow> 'a \<times> 's"
    and spec :: "instant \<Rightarrow> 's \<Rightarrow> 'a"
  assumes normal_later: "now \<le> later \<Longrightarrow> normal later (normal now t) = normal later t"
    and spec_normal: "spec now (normal now t) = spec now t"
    and read_spec: "fst (read now t) = spec now t"
    and read_normal: "normal now (snd (read now t)) = normal now t"
begin

lemma spec_cong: "normal now t' = normal now t \<Longrightarrow> spec now t' = spec now t"
  by (metis spec_normal)

lemma later_cong: "normal now t' = normal now t \<Longrightarrow> now \<le> later \<Longrightarrow> normal later t' = normal later t"
  by (metis normal_later)

lemma read_later: "now \<le> later \<Longrightarrow> spec later (snd (read now t)) = spec later t"
  by (rule spec_cong, rule later_cong [OF read_normal])

lemma read_again: "fst (read now (snd (read now t))) = fst (read now t)"
  by (simp add: read_spec read_later)

lemma read_eq: "read now t = (r, t') \<Longrightarrow> r = spec now t \<and> normal now t' = normal now t"
  by (metis fst_conv read_normal read_spec snd_conv)

end

text \<open>Two reads of the same state do not see each other.\<close>

locale two_reads = a: lazy_read normal reada speca + b: lazy_read normal readb specb
  for normal :: "instant \<Rightarrow> 's \<Rightarrow> 's"
    and reada :: "instant \<Rightarrow> 's \<Rightarrow> 'a \<times> 's" and speca :: "instant \<Rightarrow> 's \<Rightarrow> 'a"
    and readb :: "instant \<Rightarrow> 's \<Rightarrow> 'b \<times> 's" and specb :: "instant \<Rightarrow> 's \<Rightarrow> 'b"
begin

lemma independent: "now \<le> later \<Longrightarrow> fst (readb later (snd (reada now t))) = fst (readb later t)"
  using b.spec_cong [of later "snd (reada now t)" t] a.later_cong [OF a.read_normal, of now later t]
  by (simp add: b.read_spec)

lemma commute: "normal now (snd (readb now (snd (reada now t)))) = normal now (snd (reada now (snd (readb now t))))"
  by (simp add: a.read_normal b.read_normal)

end

section \<open>The elementary reads\<close>

definition model_health :: "string \<Rightarrow> instant \<Rightarrow> route_table \<Rightarrow> model_view" where
  "model_health m now t = view_of_model (refresh_model now (or_default (t_models t m)))"

definition route_health :: "candidate \<Rightarrow> instant \<Rightarrow> route_table \<Rightarrow> route_view" where
  "route_health c now t = (let e = or_default (t_routes t (c_route_id c)) in
     \<lparr>rv_cooling = remaining (rs_cooling_until e) now, rv_disabled = (clear (rs_disabled_until e) now \<noteq> None)\<rparr>)"

definition group_health :: "string \<Rightarrow> instant \<Rightarrow> route_table \<Rightarrow> duration option" where
  "group_health g now t = remaining (ge_cooling_until (or_default (t_groups t g))) now"

definition key_is_ready :: "nat \<Rightarrow> instant \<Rightarrow> route_table \<Rightarrow> bool" where
  "key_is_ready i now t = (case key_entry_at t i of None \<Rightarrow> False
     | Some e \<Rightarrow> \<not> ks_unusable (ke_state e) \<and> clear (ks_cooling_until (ke_state e)) now = None)"

definition key_wait :: "nat \<Rightarrow> instant \<Rightarrow> route_table \<Rightarrow> duration option" where
  "key_wait i now t = (case key_entry_at t i of None \<Rightarrow> None
     | Some e \<Rightarrow> remaining (ks_cooling_until (ke_state e)) now)"

lemma key_entry_at_settle: "key_entry_at (settle now t) i = map_option (settle_key now) (key_entry_at t i)"
  by (simp add: key_entry_at_def)

lemma settle_map_key_state: "settle now (map_key_state i (clear_key now) t) = settle now t"
  by (simp add: map_key_state_def settle_def)
     (auto simp: list_eq_iff_nth_eq nth_list_update settle_key_def)

lemma settle_models [simp]:
  "settle now (t\<lparr>t_models := (t_models t)(m \<mapsto> refresh_model now (or_default (t_models t m)))\<rparr>) = settle now t"
  by (simp add: settle_def fun_eq_iff)

lemma settle_routes [simp]:
  "settle now (t\<lparr>t_routes := (t_routes t)(r \<mapsto> refresh_route now (or_default (t_routes t r)))\<rparr>) = settle now t"
  by (simp add: settle_def fun_eq_iff)

lemma settle_groups [simp]:
  "settle now (t\<lparr>t_groups := (t_groups t)(g \<mapsto> refresh_group now (or_default (t_groups t g)))\<rparr>) = settle now t"
  by (simp add: settle_def fun_eq_iff)

interpretation mv: lazy_read settle "model_view m" "model_health m" for m
  by unfold_locales (simp_all add: settle_later model_health_def model_view_def Let_def)

interpretation rv: lazy_read settle "route_view c" "route_health c" for c
proof unfold_locales
  fix now t
  have r: "view_of_route now (refresh_route now e) =
      \<lparr>rv_cooling = remaining (rs_cooling_until e) now, rv_disabled = (clear (rs_disabled_until e) now \<noteq> None)\<rparr>" for e
    by (simp add: view_of_route_def refresh_route_def remaining_def)
  show "fst (route_view c now t) = route_health c now t"
    by (simp add: route_view_def route_health_def Let_def r)
  show "route_health c now (settle now t) = route_health c now t"
    by (simp add: route_health_def Let_def refresh_route_def)
qed (simp_all add: settle_later route_view_def Let_def)

interpretation gv: lazy_read settle "group_view g" "group_health g" for g
proof unfold_locales
  fix now t
  show "settle now (snd (group_view g now t)) = settle now t"
    unfolding group_view_def Let_def refresh_group_def [symmetric] by simp
qed (simp_all add: settle_later group_health_def group_view_def Let_def refresh_group_def remaining_def)

interpretation kr: lazy_read settle "key_ready i" "\<lambda>now t. if key_is_ready i now t then Some i else None" for i
  by unfold_locales (auto simp: settle_later key_is_ready_def key_ready_def Let_def key_entry_at_settle
      settle_map_key_state split: option.splits)

interpretation kc: lazy_read settle "key_cooling i" "key_wait i" for i
  by unfold_locales (auto simp: settle_later key_wait_def key_cooling_def Let_def key_entry_at_settle
      settle_map_key_state remaining_def split: option.splits)

text \<open>What two tables agree on once they settle to the same table.\<close>

lemma health_cong:
  assumes "settle now t' = settle now t"
  shows "model_health m now t' = model_health m now t" "route_health c now t' = route_health c now t"
    "group_health g now t' = group_health g now t" "key_wait i now t' = key_wait i now t"
    "key_is_ready i now t' = key_is_ready i now t"
  using mv.spec_cong [OF assms, of m] rv.spec_cong [OF assms, of c] gv.spec_cong [OF assms, of g]
    kc.spec_cong [OF assms, of i] kr.spec_cong [OF assms, of i] by (auto split: if_splits)

lemma settled_fields:
  assumes "settle now t' = settle now t"
  shows "t_affinity t' = t_affinity t" "t_round_robin t' = t_round_robin t"
    "t_affinity_breaks t' = t_affinity_breaks t" "t_config t' = t_config t" "t_profiles t' = t_profiles t"
    "map ke_index (t_keys t') = map ke_index (t_keys t)" "map ke_group (t_keys t') = map ke_group (t_keys t)"
proof -
  show "t_affinity t' = t_affinity t" "t_round_robin t' = t_round_robin t"
    "t_affinity_breaks t' = t_affinity_breaks t" "t_config t' = t_config t" "t_profiles t' = t_profiles t"
    using arg_cong [OF assms, of t_affinity] arg_cong [OF assms, of t_round_robin]
      arg_cong [OF assms, of t_affinity_breaks] arg_cong [OF assms, of t_config]
      arg_cong [OF assms, of t_profiles] by simp_all
  have m: "map (settle_key now) (t_keys t') = map (settle_key now) (t_keys t)"
    using arg_cong [OF assms, of t_keys] by simp
  show "map ke_index (t_keys t') = map ke_index (t_keys t)" "map ke_group (t_keys t') = map ke_group (t_keys t)"
    using arg_cong [OF m, of "map ke_index"] arg_cong [OF m, of "map ke_group"] by (simp_all add: comp_def)
qed

lemma key_entry_settled:
  assumes "settle now t' = settle now t"
  shows "map_option (settle_key now) (key_entry_at t' i) = map_option (settle_key now) (key_entry_at t i)"
  using arg_cong [OF assms, of "\<lambda>t. key_entry_at t i"] by (simp add: key_entry_at_settle)

lemma all_keys_unusable_settle: "all_keys_unusable c (settle now t) = all_keys_unusable c t"
  by (simp add: all_keys_unusable_def key_entry_at_settle option.case_eq_if option.map_sel)

lemma all_keys_unusable_cong: "settle now t' = settle now t \<Longrightarrow> all_keys_unusable c t' = all_keys_unusable c t"
  by (metis all_keys_unusable_settle)

section \<open>Reading several credentials\<close>

fun dial_keys_spec :: "nat list \<Rightarrow> instant \<Rightarrow> (nat \<times> duration) option \<Rightarrow> route_table
    \<Rightarrow> bool \<times> (nat \<times> duration) option" where
  "dial_keys_spec [] now best t = (False, best)"
| "dial_keys_spec (i # is) now best t =
     (if key_is_ready i now t then (True, best)
      else (case key_wait i now t of
          None \<Rightarrow> dial_keys_spec is now best t
        | Some rem \<Rightarrow> dial_keys_spec is now (case best of
              Some (_, current) \<Rightarrow> if current \<le> rem then Some (i, current) else Some (i, rem)
            | None \<Rightarrow> Some (i, rem)) t))"

lemma dial_keys_spec_cong:
  assumes "settle now t' = settle now t"
  shows "dial_keys_spec is now best t' = dial_keys_spec is now best t"
  using health_cong [OF assms] by (induction "is" arbitrary: best) (auto split: option.splits)

lemma key_ready_eq:
  "key_ready i now t = (k, t1) \<Longrightarrow> (k \<noteq> None) = key_is_ready i now t \<and> settle now t1 = settle now t"
  by (drule kr.read_eq) auto

lemma dial_keys_eq:
  "dial_keys is now best t = (r, b, t') \<Longrightarrow> (r, b) = dial_keys_spec is now best t \<and> settle now t' = settle now t"
proof (induction "is" arbitrary: best t)
  case (Cons i "is")
  obtain k t1 where k: "key_ready i now t = (k, t1)" by fastforce
  note k' = key_ready_eq [OF k, THEN conjunct1] and s1 = key_ready_eq [OF k, THEN conjunct2]
  obtain w t2 where w: "key_cooling i now t1 = (w, t2)" by fastforce
  have w': "w = key_wait i now t" and s2: "settle now t2 = settle now t"
    using kc.read_eq [OF w] health_cong(4) [OF s1] s1 by simp_all
  show ?case
  proof (cases "key_is_ready i now t")
    case True
    with Cons.prems k k' s1 show ?thesis by (cases k) simp_all
  next
    case False
    with k' have kn: "k = None" by simp
    show ?thesis
    proof (cases w)
      case None
      with Cons.prems k kn w have "dial_keys is now best t2 = (r, b, t')" by simp
      from Cons.IH [OF this] False w' None s2 show ?thesis by (simp add: dial_keys_spec_cong [OF s2])
    next
      case (Some rem)
      let ?best = "case best of Some (_, current) \<Rightarrow> if current \<le> rem then Some (i, current) else Some (i, rem)
            | None \<Rightarrow> Some (i, rem)"
      from Some Cons.prems k kn w have rest: "dial_keys is now ?best t2 = (r, b, t')" by simp
      have "key_wait i now t = Some rem" using w' Some by simp
      with Cons.IH [OF rest] False s2 show ?thesis
        by (simp add: dial_keys_spec_cong [OF s2])
    qed
  qed
qed simp

lemma dial_keys_spec_ready: "fst (dial_keys_spec is now best t) \<longleftrightarrow> (\<exists>i \<in> set is. key_is_ready i now t)"
  by (induction "is" now best t rule: dial_keys_spec.induct) (auto split: option.splits)

lemma any_key_ready_eq:
  "any_key_ready is now t = (r, t') \<Longrightarrow> r = (\<exists>i \<in> set is. key_is_ready i now t) \<and> settle now t' = settle now t"
proof (induction "is" arbitrary: t)
  case (Cons i "is")
  obtain k t1 where k: "key_ready i now t = (k, t1)" by fastforce
  note k' = key_ready_eq [OF k, THEN conjunct1] and s1 = key_ready_eq [OF k, THEN conjunct2]
  show ?case
  proof (cases k)
    case None
    with Cons.prems k have "any_key_ready is now t1 = (r, t')" by simp
    from Cons.IH [OF this] None k' s1 show ?thesis by (simp add: health_cong(5) [OF s1])
  next
    case (Some x)
    with Cons.prems k k' s1 show ?thesis by auto
  qed
qed simp

text \<open>\<open>target\<close> takes the first ready credential.\<close>

lemma find_ready_key_eq:
  "find_ready_key is now t = (r, t') \<Longrightarrow>
     r = find (\<lambda>i. key_is_ready i now t) is \<and> settle now t' = settle now t"
proof (induction "is" arbitrary: t)
  case (Cons i "is")
  obtain k t1 where k: "key_ready i now t = (k, t1)" by fastforce
  note k' = key_ready_eq [OF k, THEN conjunct1] and s1 = key_ready_eq [OF k, THEN conjunct2]
  show ?case
  proof (cases k)
    case None
    with Cons.prems k have "find_ready_key is now t1 = (r, t')" by simp
    from Cons.IH [OF this] None k' s1 show ?thesis by (simp add: health_cong(5) [OF s1])
  next
    case (Some x)
    with Cons.prems k k' s1 show ?thesis by auto
  qed
qed simp

section \<open>Dialability, as a pure function of the health\<close>

definition probe_spec :: "candidate \<Rightarrow> instant \<Rightarrow> bool \<Rightarrow> bool \<Rightarrow> route_table
    \<Rightarrow> dialability \<times> (nat \<times> duration) option" where
  "probe_spec c now half_open probe t =
     (if half_open \<and> probe then (Blocked ModelOpen, None)
      else (case dial_keys_spec (key_choices c) now None t of
          (True, best) \<Rightarrow> (Ready, best)
        | (False, Some (i, rem)) \<Rightarrow> (Cooling rem, Some (i, rem))
        | (False, None) \<Rightarrow> (Blocked (if all_keys_unusable c t then KeyUnusable else KeyCooling), None)))"

definition any_ready :: "candidate \<Rightarrow> instant \<Rightarrow> route_table \<Rightarrow> bool" where
  "any_ready c now t = list_ex (\<lambda>i. key_is_ready i now t) (key_choices c)"

definition half_open_at :: "string \<Rightarrow> instant \<Rightarrow> route_table \<Rightarrow> bool" where
  "half_open_at m now t = (mv_state (model_health m now t) = HalfOpen)"

text \<open>How long the model's circuit still blocks.\<close>

definition circuit_wait :: "string \<Rightarrow> instant \<Rightarrow> route_table \<Rightarrow> duration option" where
  "circuit_wait m now t = (let v = model_health m now t in
     if mv_state v = Open then remaining (mv_open_until v) now else None)"

definition dial_spec :: "candidate \<Rightarrow> instant \<Rightarrow> route_table \<Rightarrow> dialability \<times> (nat \<times> duration) option" where
  "dial_spec c now t =
     (let v = model_health (c_model c) now t; r = route_health c now t;
          half_open = half_open_at (c_model c) now t
      in if mv_disabled v then (Blocked ModelDisabled, None)
         else (case circuit_wait (c_model c) now t of
             Some w \<Rightarrow> (Blocked ModelOpen, Some (c_a_index c, w))
           | None \<Rightarrow>
               if rv_disabled r then (Blocked RouteDisabled, None)
               else (case group_health (c_group c) now t of
                   Some w \<Rightarrow> (Blocked QuotaGroupCooling, Some (c_a_index c, w))
                 | None \<Rightarrow> (case rv_cooling r of
                     Some w \<Rightarrow> if half_open \<and> any_ready c now t
                        then probe_spec c now half_open (mv_probe_in_flight v) t
                        else (Blocked RouteCooling, Some (c_a_index c, w))
                   | None \<Rightarrow> probe_spec c now half_open (mv_probe_in_flight v) t))))"

lemma probe_spec_cong:
  assumes "settle now t' = settle now t"
  shows "probe_spec c now h p t' = probe_spec c now h p t"
  by (simp only: probe_spec_def dial_keys_spec_cong [OF assms] all_keys_unusable_cong [OF assms])

lemma dial_spec_cong:
  assumes "settle now t' = settle now t"
  shows "dial_spec c now t' = dial_spec c now t"
  by (simp only: dial_spec_def half_open_at_def circuit_wait_def any_ready_def health_cong [OF assms]
      probe_spec_cong [OF assms])

lemma dial_probe_eq:
  assumes "dial_probe c now h p t = (r, t')"
  shows "r = probe_spec c now h p t \<and> settle now t' = settle now t"
proof (cases "h \<and> p")
  case True
  with assms show ?thesis by (auto simp: dial_probe_def probe_spec_def)
next
  case False
  obtain k b u where k: "dial_keys (key_choices c) now None t = (k, b, u)" by (metis prod_cases3)
  from dial_keys_eq [OF k] have e: "dial_keys_spec (key_choices c) now None t = (k, b)" "settle now u = settle now t"
    by simp_all
  show ?thesis using assms False k e(1) e(2) all_keys_unusable_cong [OF e(2), of c]
    by (cases k; cases b) (auto simp: dial_probe_def probe_spec_def split: if_splits)
qed

lemma dialability_eq:
  assumes "dialability c now t = (r, t')"
  shows "r = dial_spec c now t \<and> settle now t' = settle now t"
proof -
  obtain v t1 where m: "model_view (c_model c) now t = (v, t1)" by fastforce
  have v: "v = model_health (c_model c) now t" and s1: "settle now t1 = settle now t" using mv.read_eq [OF m] by auto
  obtain q t2 where q: "route_view c now t1 = (q, t2)" by fastforce
  have q': "q = route_health c now t" and s2: "settle now t2 = settle now t"
    using rv.read_eq [OF q] s1 health_cong(2) [OF s1] by auto
  obtain g t3 where g: "group_view (c_group c) now t2 = (g, t3)" by fastforce
  have g': "g = group_health (c_group c) now t" and s3: "settle now t3 = settle now t"
    using gv.read_eq [OF g] s2 health_cong(3) [OF s2] by auto
  obtain y t4 where y: "any_key_ready (key_choices c) now t3 = (y, t4)" by fastforce
  have y': "y = any_ready c now t" and s4: "settle now t4 = settle now t"
    using any_key_ready_eq [OF y] s3 health_cong(5) [OF s3] by (simp_all add: any_ready_def list_ex_iff)
  have probe: "dial_probe c now h p u = (r', u') \<Longrightarrow> settle now u = settle now t \<Longrightarrow>
      r' = probe_spec c now h p t \<and> settle now u' = settle now t" for h p u r' u'
    using dial_probe_eq [of c now h p u r' u'] probe_spec_cong [of now u t c h p] by simp
  define open_until where "open_until = (if mv_state v = Open then mv_open_until v else None)"
  have pair: "(case mv_state v of Open \<Rightarrow> (False, mv_open_until v) | HalfOpen \<Rightarrow> (True, None) | Closed \<Rightarrow> (False, None))
      = (mv_state v = HalfOpen, open_until)"
    by (simp add: open_until_def split: circuit_state.splits)
  have cw: "circuit_wait (c_model c) now t = map_option (\<lambda>u. u - now) (clear open_until now)"
    by (simp add: circuit_wait_def open_until_def v [symmetric] Let_def remaining_def)
  have ho: "half_open_at (c_model c) now t = (mv_state v = HalfOpen)"
    by (simp add: half_open_at_def v)
  note unfolds = dialability_def dial_spec_def m q g y pair Let_def v [symmetric] q' [symmetric]
    g' [symmetric] y' [symmetric] cw ho
  show ?thesis
  proof (cases "mv_disabled v \<or> clear open_until now \<noteq> None \<or> rv_disabled q \<or> g \<noteq> None")
    case True
    with assms s1 s2 s3 show ?thesis by (auto simp: unfolds split: if_splits option.splits)
  next
    case False
    then have clean: "\<not> mv_disabled v" "clear open_until now = None" "\<not> rv_disabled q" "g = None" by auto
    show ?thesis
    proof (cases "rv_cooling q")
      case None
      with assms clean have "dial_probe c now (mv_state v = HalfOpen) (mv_probe_in_flight v) t3 = (r, t')"
        by (simp add: unfolds)
      from probe [OF this s3] None clean show ?thesis by (simp add: unfolds)
    next
      case (Some w)
      show ?thesis
      proof (cases "mv_state v = HalfOpen \<and> y")
        case True
        with Some assms clean have "dial_probe c now (mv_state v = HalfOpen) (mv_probe_in_flight v) t4 = (r, t')"
          by (simp add: unfolds)
        from probe [OF this s4] Some clean True show ?thesis by (simp add: unfolds)
      next
        case False
        with Some assms clean s4 show ?thesis by (auto simp: unfolds)
      qed
    qed
  qed
qed

interpretation di: lazy_read settle "dialability c" "dial_spec c" for c
proof unfold_locales
  fix now t
  show "dial_spec c now (settle now t) = dial_spec c now t" by (rule dial_spec_cong) simp
  show "fst (dialability c now t) = dial_spec c now t" "settle now (snd (dialability c now t)) = settle now t"
    using dialability_eq [of c now t] by (cases "dialability c now t", auto)+
qed (simp add: settle_later)

text \<open>Any two candidates can be looked at in either order.\<close>

interpretation dd: two_reads settle "dialability a" "dial_spec a" "dialability b" "dial_spec b" for a b
  by unfold_locales

end
