(* ===== verification/Samples.thy ===== *)
theory Samples
  imports RouterState
begin

text \<open>
  Small concrete configurations and tables on which the properties are instantiated: two quota
  groups with one credential each, two groups where one has two credentials, and a configuration
  whose first credential is disabled.  All other settings are the documented defaults.
\<close>

definition sample_key :: "string \<Rightarrow> string \<Rightarrow> sensenova_key_config" where
  "sample_key name grp = \<lparr>key_name = name, key_secret = ''secret-'' @ name, key_enabled = True,
     key_quota_group = grp\<rparr>"

definition config_with :: "sensenova_key_config list \<Rightarrow> config" where
  "config_with ks = \<lparr>server = default_server\<lparr>server_api_key := ''client-secret''\<rparr>, upstream = default_upstream,
     sensenova_api_keys = ks, models = default_models, routing = default_routing, retry = default_retry,
     concurrency = default_concurrency, circuit_cfg = default_circuit, runtime = default_runtime\<rparr>"

definition two_groups :: config where
  "two_groups = config_with [sample_key ''a'' ''ga'', sample_key ''b'' ''gb'']"

definition shared_group :: config where
  "shared_group = config_with [sample_key ''a1'' ''ga'', sample_key ''a2'' ''ga'', sample_key ''b'' ''gb'']"

definition disabled_first :: config where
  "disabled_first = config_with [(sample_key ''x'' ''gx'')\<lparr>key_enabled := False\<rparr>, sample_key ''a'' ''ga'',
     sample_key ''b'' ''gb'']"

definition table2 :: route_table where "table2 = new_table two_groups"
definition table3 :: route_table where "table3 = new_table shared_group"
definition table_gap :: route_table where "table_gap = new_table disabled_first"

definition glm :: string where "glm = ''glm-5.2''"

section \<open>The fields of the sample tables\<close>

definition entry :: "nat \<Rightarrow> string \<Rightarrow> string \<Rightarrow> key_entry" where
  "entry i name grp = \<lparr>ke_index = i, ke_name = name, ke_api_key = ''secret-'' @ name, ke_group = grp,
     ke_state = default\<rparr>"

lemma entry_sel [simp]: "ke_index (entry i name grp) = i" "ke_name (entry i name grp) = name"
  "ke_api_key (entry i name grp) = ''secret-'' @ name" "ke_group (entry i name grp) = grp"
  "ke_state (entry i name grp) = default"
  by (simp_all add: entry_def)

lemmas sample_defs = table2_def table3_def table_gap_def two_groups_def shared_group_def disabled_first_def
  new_table_def config_with_def sample_key_def enabled_entries_def entry_def

lemma table2_sel:
  "t_keys table2 = [entry 0 ''a'' ''ga'', entry 1 ''b'' ''gb'']" "t_routes table2 = Map.empty"
  "t_models table2 = Map.empty" "t_groups table2 = Map.empty" "t_affinity table2 = []"
  "t_round_robin table2 = 0" "t_profiles table2 = builtin_profiles" "t_config table2 = route_config_of default_routing"
  by (simp_all add: sample_defs profiles_of_def default_routing_def)

lemma table3_sel:
  "t_keys table3 = [entry 0 ''a1'' ''ga'', entry 1 ''a2'' ''ga'', entry 2 ''b'' ''gb'']"
  "t_routes table3 = Map.empty" "t_models table3 = Map.empty" "t_groups table3 = Map.empty"
  "t_affinity table3 = []" "t_round_robin table3 = 0" "t_profiles table3 = builtin_profiles"
  "t_config table3 = route_config_of default_routing"
  by (simp_all add: sample_defs profiles_of_def default_routing_def)

lemma table_gap_sel:
  "t_keys table_gap = [entry 1 ''a'' ''ga'', entry 2 ''b'' ''gb'']"
  "t_routes table_gap = Map.empty" "t_models table_gap = Map.empty" "t_groups table_gap = Map.empty"
  "t_affinity table_gap = []" "t_round_robin table_gap = 0" "t_profiles table_gap = builtin_profiles"
  "t_config table_gap = route_config_of default_routing"
  by (simp_all add: sample_defs profiles_of_def default_routing_def)

lemma sample_hashes:
  "hash_name ''glm-5.2'' = 1998648559084178823" "hash_name ''deepseek-v4-pro'' = 11143242019508338470"
  "hash_name ''kimi-k3'' = 3652545996393195884" "hash_name ''ga'' = 618461030078440357"
  "hash_name ''gb'' = 618457731543555724"
  by code_simp+

lemma sample_config_sel:
  "route_config_of default_routing = \<lparr>max_route_attempts = 4, soft_affinity = from_secs 300,
     max_affinity_entries = 4096, same_route_429_retries = 0, route_cooldown_initial = from_secs 10,
     route_cooldown_max = from_secs 120, model_trip_distinct_groups = 2, model_trip_window = from_secs 20,
     model_open = from_secs 30, retry_after_max = from_secs 120, max_model_cooldown = from_secs 86400,
     model_missing_distinct_groups = 2, model_missing_window = from_secs 300,
     model_missing_cooldown = from_secs 3600\<rparr>"
  by (simp add: route_config_of_def default_routing_def)

end
