(* ===== verification/RouterSpec.thy ===== *)
theory RouterSpec
  imports RouterObserve Samples
begin

text \<open>
  The specification of planning.  \<open>choose_spec\<close> says, as a pure function of the health at one
  instant, which tier and which candidate are selected or how long to wait; \<open>plan\<close> refines it.
  The facts about planning (tier isolation, health, minimality, absence of panics) are read off
  the specification.
\<close>

section \<open>Scores and candidates do not depend on expired deadlines\<close>

lemma key_score_clear [simp]: "key_score lat (clear_key now s) acc = key_score lat s acc"
  by (simp add: key_score_def Let_def)

lemma score_settle: "score (settle now t) c affinity lat = score t c affinity lat"
proof -
  have "(case key_entry_at (settle now t) i of None \<Rightarrow> acc | Some e \<Rightarrow> key_score lat (ke_state e) acc)
      = (case key_entry_at t i of None \<Rightarrow> acc | Some e \<Rightarrow> key_score lat (ke_state e) acc)" for i acc
    by (simp add: key_entry_at_settle split: option.splits)
  then show ?thesis by (simp add: score_def)
qed

lemma score_cong: "settle now t' = settle now t \<Longrightarrow> score t' c affinity lat = score t c affinity lat"
  by (metis score_settle)

lemma by_group_settle: "by_group (map (settle_key now) ks) = by_group ks"
  by (simp add: by_group_def fold_map comp_def)

lemma candidates_at_settle: "candidates_at (settle now t) m n = candidates_at t m n"
  by (simp add: candidates_at_def by_group_settle)

lemma candidates_at_cong: "settle now t' = settle now t \<Longrightarrow> candidates_at t' m n = candidates_at t m n"
  by (metis candidates_at_settle)

lemma tier_candidates_cong: "settle now t' = settle now t \<Longrightarrow> tier_candidates t' ms = tier_candidates t ms"
  using candidates_at_cong [of now t' t] by (simp add: tier_candidates_def)

section \<open>The specification\<close>

definition eligible :: "identity set \<Rightarrow> instant \<Rightarrow> route_table \<Rightarrow> candidate \<Rightarrow> bool" where
  "eligible skipped now t c = (\<not> all_skipped skipped c \<and> fst (dial_spec c now t) = Ready)"

text \<open>The wait a candidate that is not ready contributes.\<close>

definition wait_of :: "identity set \<Rightarrow> instant \<Rightarrow> route_table \<Rightarrow> candidate \<Rightarrow> duration option" where
  "wait_of skipped now t c = (if all_skipped skipped c then None
     else (case dial_spec c now t of
         (Ready, _) \<Rightarrow> None
       | (Cooling rem, _) \<Rightarrow> Some rem
       | (Blocked _, w) \<Rightarrow> map_option snd w))"

definition shortest :: "duration option \<Rightarrow> duration option \<Rightarrow> duration option" where
  "shortest acc w = (case w of None \<Rightarrow> acc | Some d \<Rightarrow> min_wait acc d)"

definition tier_ready :: "identity set \<Rightarrow> instant \<Rightarrow> route_table \<Rightarrow> string list \<Rightarrow> candidate list" where
  "tier_ready skipped now t ms = filter (eligible skipped now t) (tier_candidates t ms)"

definition tier_wait_spec :: "identity set \<Rightarrow> instant \<Rightarrow> route_table \<Rightarrow> string list \<Rightarrow> duration option" where
  "tier_wait_spec skipped now t ms = fold (\<lambda>c acc. shortest acc (wait_of skipped now t c)) (tier_candidates t ms) None"

definition chosen_spec :: "route_id option \<Rightarrow> bool \<Rightarrow> route_table \<Rightarrow> candidate list \<Rightarrow> candidate" where
  "chosen_spec affinity lat t ready =
     fst (hd (order (map (\<lambda>c. (c, score t c affinity lat)) ready) affinity (t_round_robin t)))"

fun choose_spec :: "identity set \<Rightarrow> route_id option \<Rightarrow> bool \<Rightarrow> bool \<Rightarrow> instant \<Rightarrow> route_table \<Rightarrow> nat
    \<Rightarrow> tier_config list \<Rightarrow> duration option \<Rightarrow> duration option + nat \<times> candidate" where
  "choose_spec skipped affinity lat lower now t tier [] wait = Inl wait"
| "choose_spec skipped affinity lat lower now t tier (cfg # cfgs) wait =
     (let ready = tier_ready skipped now t (tier_models cfg)
      in if ready \<noteq> [] then Inr (tier, chosen_spec affinity lat t ready)
         else (case tier_wait_spec skipped now t (tier_models cfg) of
             Some w \<Rightarrow> if lower then choose_spec skipped affinity lat lower now t (Suc tier) cfgs (min_wait wait w)
                       else Inl (min_wait wait w)
           | None \<Rightarrow> choose_spec skipped affinity lat lower now t (Suc tier) cfgs wait))"

section \<open>The scan refines the specification\<close>

lemma wait_of_cong:
  assumes "settle now t' = settle now t"
  shows "wait_of skipped now t' c = wait_of skipped now t c"
  by (simp only: wait_of_def dial_spec_cong [OF assms])

lemma eligible_cong:
  assumes "settle now t' = settle now t"
  shows "eligible skipped now t' c = eligible skipped now t c"
  by (simp only: eligible_def dial_spec_cong [OF assms])

lemma scan_candidate_eq:
  assumes "scan_candidate skipped affinity lat now c (s, u) = (s', u')" and "settle now u = settle now t"
  shows "sc_available s' = sc_available s @ (if eligible skipped now t c then [(c, score t c affinity lat)] else [])"
    "sc_wait s' = shortest (sc_wait s) (wait_of skipped now t c)" "settle now u' = settle now t"
proof -
  obtain d w u1 where d: "dialability c now u = ((d, w), u1)" by (metis prod.exhaust)
  from dialability_eq [OF d] assms(2) have ds: "dial_spec c now t = (d, w)" and s1: "settle now u1 = settle now t"
    using dial_spec_cong [OF assms(2), of c] by simp_all
  note defs = scan_candidate_def eligible_def wait_of_def shortest_def ds d Let_def score_cong [OF s1]
  have "sc_available s' = sc_available s @ (if eligible skipped now t c then [(c, score t c affinity lat)] else [])
    \<and> sc_wait s' = shortest (sc_wait s) (wait_of skipped now t c) \<and> settle now u' = settle now t"
  proof (cases "all_skipped skipped c")
    case True
    with assms show ?thesis by (simp add: defs)
  next
    case False
    show ?thesis
    proof (cases d)
      case Ready
      with assms(1) False s1 show ?thesis by (clarsimp simp: defs)
    next
      case (Cooling rem)
      with assms(1) False s1 show ?thesis by (clarsimp simp: defs)
    next
      case (Blocked why)
      with assms(1) False s1 show ?thesis by (cases w) (clarsimp simp: defs)+
    qed
  qed
  then show "sc_available s' = sc_available s @ (if eligible skipped now t c then [(c, score t c affinity lat)] else [])"
    "sc_wait s' = shortest (sc_wait s) (wait_of skipped now t c)" "settle now u' = settle now t"
    by blast+
qed

lemma scan_fold_eq:
  assumes "fold (scan_candidate skipped affinity lat now) cs (s, u) = (s', u')" and "settle now u = settle now t"
  shows "sc_available s' = sc_available s @ map (\<lambda>c. (c, score t c affinity lat)) (filter (eligible skipped now t) cs)
    \<and> sc_wait s' = fold (\<lambda>c acc. shortest acc (wait_of skipped now t c)) cs (sc_wait s)
    \<and> settle now u' = settle now t"
  using assms
proof (induction cs arbitrary: s u)
  case (Cons c cs)
  obtain s1 u1 where c: "scan_candidate skipped affinity lat now c (s, u) = (s1, u1)" by fastforce
  note one = scan_candidate_eq [OF c Cons.prems(2)]
  from Cons.prems(1) c have "fold (scan_candidate skipped affinity lat now) cs (s1, u1) = (s', u')" by simp
  from Cons.IH [OF this one(3)] one(1,2) show ?case by simp
qed simp

lemma scan_tier_eq:
  assumes "scan_tier skipped affinity lat now gate ms u = (s', u')" and "settle now u = settle now t"
  shows "sc_available s' = map (\<lambda>c. (c, score t c affinity lat)) (tier_ready skipped now t ms)"
    "sc_wait s' = tier_wait_spec skipped now t ms" "settle now u' = settle now t"
  using scan_fold_eq [OF assms(1) [unfolded scan_tier_def] assms(2)]
  by (simp_all add: tier_ready_def tier_wait_spec_def tier_candidates_cong [OF assms(2)])

section \<open>Sorting picks a minimum\<close>

lemma sort_key_Nil_iff [simp]: "sort_key f xs = [] \<longleftrightarrow> xs = []"
  by (metis set_empty set_sort)

lemma order_set: "set (order scored affinity rotation) = set scored"
  by (simp add: order_def) (metis list.set_map map_snd_enumerate)

lemma order_Nil_iff [simp]: "order scored affinity rotation = [] \<longleftrightarrow> scored = []"
  by (simp add: order_def enumerate_eq_zip)

lemma order_hd_in: "scored \<noteq> [] \<Longrightarrow> hd (order scored affinity rotation) \<in> set scored"
  using hd_in_set [of "order scored affinity rotation"] by (simp add: order_set)

lemma sort_key_hd: "xs \<noteq> [] \<Longrightarrow> x \<in> set xs \<Longrightarrow> f (hd (sort_key f xs)) \<le> f x"
proof -
  assume "xs \<noteq> []" "x \<in> set xs"
  have ne: "sort_key f xs \<noteq> []" using \<open>xs \<noteq> []\<close> by simp
  have "sorted (map f (sort_key f xs))" by (rule sorted_sort_key)
  moreover have "x \<in> set (sort_key f xs)" using \<open>x \<in> set xs\<close> by simp
  ultimately show ?thesis using ne by (cases "sort_key f xs") auto
qed

text \<open>Affinity first, then the score: what the head of the order is no worse than.\<close>

lemma order_hd_minimal:
  fixes affinity rotation
  assumes "scored \<noteq> []" and "(c, sc) \<in> set scored"
  defines "best \<equiv> hd (order scored affinity rotation)"
  shows "(affinity \<noteq> Some (c_route_id (fst best)), snd best) \<le> (affinity \<noteq> Some (c_route_id c), sc)"
proof -
  let ?rank = "rank affinity rotation (length scored)"
  let ?e = "enumerate 0 scored"
  have ne: "?e \<noteq> []" using assms(1) by (simp add: enumerate_eq_zip)
  from assms(2) obtain p where p: "(p, c, sc) \<in> set ?e"
    by (auto simp: in_set_conv_nth [of _ scored] in_set_enumerate_eq)
  have le: "?rank (hd (sort_key ?rank ?e)) \<le> ?rank (p, c, sc)" by (rule sort_key_hd [OF ne p])
  have "sort_key ?rank ?e \<noteq> []" using ne by simp
  then have "best = snd (hd (sort_key ?rank ?e))" by (simp add: best_def order_def hd_map)
  moreover obtain p' c' sc' where h: "hd (sort_key ?rank ?e) = (p', c', sc')" by (metis prod_cases3)
  moreover have "(affinity \<noteq> Some (c_route_id c'), sc') \<le> (affinity \<noteq> Some (c_route_id c), sc)"
    using le unfolding h rank_def by (auto simp: less_eq_prod_def)
  ultimately show ?thesis by simp
qed

lemma chosen_in_ready: "ready \<noteq> [] \<Longrightarrow> chosen_spec affinity lat t ready \<in> set ready"
  using order_hd_in [of "map (\<lambda>c. (c, score t c affinity lat)) ready" affinity "t_round_robin t"]
  by (auto simp: chosen_spec_def)

lemma chosen_minimal:
  fixes affinity lat t
  assumes "c \<in> set ready"
  defines "b \<equiv> chosen_spec affinity lat t ready"
  shows "(affinity \<noteq> Some (c_route_id b), score t b affinity lat) \<le> (affinity \<noteq> Some (c_route_id c), score t c affinity lat)"
proof -
  let ?scored = "map (\<lambda>c. (c, score t c affinity lat)) ready"
  let ?best = "hd (order ?scored affinity (t_round_robin t))"
  have ne: "?scored \<noteq> []" and mem: "(c, score t c affinity lat) \<in> set ?scored" using assms(1) by auto
  have "?best \<in> set ?scored" using ne by (rule order_hd_in)
  then have "snd ?best = score t b affinity lat" by (auto simp: b_def chosen_spec_def)
  with order_hd_minimal [OF ne mem, of affinity "t_round_robin t"] show ?thesis
    by (simp add: b_def chosen_spec_def)
qed

section \<open>Planning refines the specification\<close>

definition target_spec :: "candidate \<Rightarrow> nat \<Rightarrow> instant \<Rightarrow> route_table \<Rightarrow> route_target option" where
  "target_spec c tier now t = map_option (\<lambda>e. \<lparr>rt_model = c_model c, rt_quota_group = c_group c,
       rt_key = new_selected_key (ke_index e) (ke_name e) (ke_group e) (ke_api_key e), rt_tier = tier\<rparr>)
     (key_entry_at t (case find (\<lambda>i. key_is_ready i now t) (key_choices c) of Some i \<Rightarrow> i | None \<Rightarrow> c_a_index c))"

lemma target_spec_sel:
  assumes "target_spec c tier now t = Some r"
  shows "rt_model r = c_model c" "rt_quota_group r = c_group c" "rt_tier r = tier"
proof -
  from assms [unfolded target_spec_def map_option_eq_Some] obtain e :: key_entry where r: "\<lparr>rt_model = c_model c, rt_quota_group = c_group c,
      rt_key = new_selected_key (ke_index e) (ke_name e) (ke_group e) (ke_api_key e), rt_tier = tier\<rparr> = r"
    by blast
  show "rt_model r = c_model c" "rt_quota_group r = c_group c" "rt_tier r = tier" by (simp_all add: r [symmetric])
qed

lemma target_spec_settle:
  "target_spec c tier now (settle now t) = target_spec c tier now t"
  using health_cong(5) [of now "settle now t" t]
  by (simp add: target_spec_def key_entry_at_settle option.map_comp comp_def)

lemma target_spec_cong: "settle now t' = settle now t \<Longrightarrow> target_spec c tier now t' = target_spec c tier now t"
  by (metis target_spec_settle)

lemma target_of_eq:
  assumes "target_of c tier now t = (r, t')"
  shows "r = target_spec c tier now t \<and> settle now t' = settle now t"
proof -
  obtain k u where k: "find_ready_key (key_choices c) now t = (k, u)" by fastforce
  from find_ready_key_eq [OF k] have k': "k = find (\<lambda>i. key_is_ready i now t) (key_choices c)"
    and s: "settle now u = settle now t" by auto
  from assms k have r: "t' = u" "r = map_option (\<lambda>e. \<lparr>rt_model = c_model c, rt_quota_group = c_group c,
       rt_key = new_selected_key (ke_index e) (ke_name e) (ke_group e) (ke_api_key e), rt_tier = tier\<rparr>)
     (key_entry_at u (case k of Some i \<Rightarrow> i | None \<Rightarrow> c_a_index c))"
    by (auto simp: target_of_def)
  have "r = target_spec c tier now u"
    unfolding r target_spec_def k' health_cong(5) [OF s] ..
  with s r(1) show ?thesis by (simp add: target_spec_cong [OF s])
qed

lemma key_is_ready_mono:
  assumes "key_is_ready i now t" "now \<le> later"
  shows "key_is_ready i later t"
  using assms by (auto simp: key_is_ready_def intro: clear_None_mono split: option.splits)

text \<open>A ready candidate has a ready credential, and keeps it until the credential is picked.\<close>

lemma probe_spec_Ready: "fst (probe_spec c now h p t) = Ready \<Longrightarrow> any_ready c now t \<and> \<not> (h \<and> p)"
  using dial_keys_spec_ready [of "key_choices c" now None t]
  by (auto simp: probe_spec_def any_ready_def list_ex_iff split: if_splits prod.splits bool.splits option.splits)

lemma dial_spec_Ready:
  assumes "fst (dial_spec c now t) = Ready"
  defines "v \<equiv> model_health (c_model c) now t"
  shows "any_ready c now t" "\<not> mv_disabled v" "circuit_wait (c_model c) now t = None"
    "\<not> rv_disabled (route_health c now t)" "group_health (c_group c) now t = None"
    "half_open_at (c_model c) now t \<Longrightarrow> \<not> mv_probe_in_flight v"
    "\<not> half_open_at (c_model c) now t \<Longrightarrow> rv_cooling (route_health c now t) = None"
  using assms(1) unfolding dial_spec_def Let_def v_def [symmetric]
  by (auto split: if_splits option.splits dest: probe_spec_Ready)

lemma target_spec_ready:
  assumes "any_ready c now t" "now \<le> now2"
  shows "\<exists>i e. i \<in> set (key_choices c) \<and> key_is_ready i now2 t \<and> key_entry_at t i = Some e \<and>
    target_spec c tier now2 t = Some \<lparr>rt_model = c_model c, rt_quota_group = c_group c,
       rt_key = new_selected_key (ke_index e) (ke_name e) (ke_group e) (ke_api_key e), rt_tier = tier\<rparr>"
proof -
  from assms have "\<exists>i \<in> set (key_choices c). key_is_ready i now2 t"
    by (auto simp: any_ready_def list_ex_iff intro: key_is_ready_mono)
  then obtain i where f: "find (\<lambda>i. key_is_ready i now2 t) (key_choices c) = Some i"
    by (metis find_None_iff not_None_eq)
  then have i: "i \<in> set (key_choices c)" "key_is_ready i now2 t" by (auto simp: find_Some_iff)
  then obtain e where "key_entry_at t i = Some e" by (auto simp: key_is_ready_def split: option.splits)
  with i f show ?thesis by (auto simp: target_spec_def)
qed

text \<open>The rotation counter and the affinity table are not part of the health.\<close>

lemma frame_settle [frame_simps]:
  "settle now (t\<lparr>t_round_robin := r\<rparr>) = (settle now t)\<lparr>t_round_robin := r\<rparr>"
  "settle now (t\<lparr>t_affinity := a\<rparr>) = (settle now t)\<lparr>t_affinity := a\<rparr>"
  by (simp_all add: settle_def)

lemma frame_health [frame_simps]:
  "key_is_ready i now (t\<lparr>t_round_robin := r\<rparr>) = key_is_ready i now t"
  "key_is_ready i now (t\<lparr>t_affinity := a\<rparr>) = key_is_ready i now t"
  "key_entry_at (t\<lparr>t_round_robin := r\<rparr>) i = key_entry_at t i"
  "key_entry_at (t\<lparr>t_affinity := a\<rparr>) i = key_entry_at t i"
  by (simp_all add: key_is_ready_def key_entry_at_def)

lemma target_spec_frame [frame_simps]:
  "target_spec c tier now (t\<lparr>t_round_robin := r\<rparr>) = target_spec c tier now t"
  "target_spec c tier now (t\<lparr>t_affinity := a\<rparr>) = target_spec c tier now t"
  by (simp_all add: target_spec_def frame_simps)

text \<open>The outcome the specification demands of a plan.\<close>

definition meets :: "identity set \<Rightarrow> tier_config list \<Rightarrow> nat \<Rightarrow> instant \<Rightarrow> instant \<Rightarrow> route_table
    \<Rightarrow> duration option + nat \<times> candidate \<Rightarrow> plan_result \<Rightarrow> route_table \<Rightarrow> bool" where
  "meets skipped ts tier0 now now2 t res r t' = (case res of
      Inl w \<Rightarrow> r = Waitable w \<and> settle now2 t' = settle now2 t
    | Inr (k, c) \<Rightarrow> (\<exists>target g. target_spec c k now2 t = Some target
        \<and> r = Planned \<lparr>p_target = target, p_stepped_down = k, p_gate = g,
              p_next_alternative = tier_wait_spec skipped now t (tier_models (ts ! (k - tier0)))\<rparr>
        \<and> tier0 \<le> k \<and> k < tier0 + length ts
        \<and> settle now2 t' = settle now2 (t\<lparr>t_round_robin := t_round_robin t + 1\<rparr>)))"

lemma choose_route_eq:
  assumes "choose_route tier affinity now2 s u m = (r, u', m')"
    and av: "sc_available s = map (\<lambda>c. (c, score t c affinity lat)) ready" and ne: "ready \<noteq> []"
    and el: "\<forall>c \<in> set ready. eligible skipped now t c"
    and w: "sc_wait s = tier_wait_spec skipped now t (tier_models cfg)"
    and st: "settle now u = settle now t" and le: "now \<le> now2"
  shows "meets skipped (cfg # cfgs) tier now now2 t (Inr (tier, chosen_spec affinity lat t ready)) r u'"
proof -
  let ?c = "chosen_spec affinity lat t ready"
  let ?u = "u\<lparr>t_round_robin := t_round_robin u + 1\<rparr>"
  have st2: "settle now2 u = settle now2 t" by (rule settle_eqI [OF st le])
  have chosen: "fst (hd (order (sc_available s) affinity (t_round_robin u))) = ?c"
    by (simp add: av chosen_spec_def settled_fields(2) [OF st])
  have "?c \<in> set ready" by (rule chosen_in_ready [OF ne])
  then have "any_ready ?c now t" using el dial_spec_Ready(1) by (auto simp: eligible_def)
  from target_spec_ready [OF this le] obtain target where tg: "target_spec ?c tier now2 t = Some target" by blast
  obtain o' u2 where k: "target_of ?c tier now2 ?u = (o', u2)" by fastforce
  have "o' = target_spec ?c tier now2 ?u" and su: "settle now2 u2 = settle now2 ?u"
    using target_of_eq [OF k] by auto
  then have o': "o' = Some target" using tg by (simp add: frame_simps target_spec_cong [OF st2])
  have r: "r = Planned \<lparr>p_target = target, p_stepped_down = tier, p_gate = sc_gate s, p_next_alternative = sc_wait s\<rparr>"
    and u': "u' = u2"
    using assms(1) unfolding choose_route_def chosen k Let_def by (simp_all add: o')
  have "settle now2 u' = settle now2 (t\<lparr>t_round_robin := t_round_robin t + 1\<rparr>)"
    unfolding u' su frame_simps st2 settled_fields(2) [OF st] ..
  with r w tg show ?thesis by (simp add: meets_def)
qed

lemma plan_tiers_eq:
  assumes "plan_tiers skipped affinity lat lower now now2 tier cfgs gate wait u m = (r, u', m')"
    and "settle now u = settle now t" and le: "now \<le> now2"
  shows "meets skipped cfgs tier now now2 t (choose_spec skipped affinity lat lower now t tier cfgs wait) r u'"
  using assms(1,2)
proof (induction cfgs arbitrary: tier gate wait u m)
  case Nil
  then show ?case using settle_eqI [OF Nil.prems(2) le] by (auto simp: meets_def)
next
  case (Cons cfg cfgs)
  obtain s u1 where s: "scan_tier skipped affinity lat now gate (tier_models cfg) u = (s, u1)" by fastforce
  note sc = scan_tier_eq [OF s Cons.prems(2)]
  let ?ready = "tier_ready skipped now t (tier_models cfg)"
  have shift: "meets skipped (cfg # cfgs) tier now now2 t res r u'"
    if "meets skipped cfgs (Suc tier) now now2 t res r u'" for res
    using that by (auto simp: meets_def nth_Cons' split: sum.splits prod.splits)
  show ?case
  proof (cases "?ready = []")
    case False
    with s sc(1) Cons.prems(1) have c: "choose_route tier affinity now2 s u1 m = (r, u', m')" by simp
    have "\<forall>c \<in> set ?ready. eligible skipped now t c" by (simp add: tier_ready_def)
    from choose_route_eq [OF c sc(1) False this sc(2,3) le, of cfgs] False show ?thesis by simp
  next
    case True
    with s sc(1) Cons.prems(1) have rest: "(case availability s of
            TemporarilyUnavailable w \<Rightarrow>
              if lower
              then plan_tiers skipped affinity lat lower now now2 (Suc tier) cfgs (sc_gate s) (min_wait wait w) u1 m
              else (Waitable (min_wait wait w), u1, m)
          | HardBlocked \<Rightarrow>
              plan_tiers skipped affinity lat lower now now2 (Suc tier) cfgs (sc_gate s) wait u1 m) = (r, u', m')"
      by simp
    show ?thesis
    proof (cases "tier_wait_spec skipped now t (tier_models cfg)")
      case None
      with rest sc(2) have "plan_tiers skipped affinity lat lower now now2 (Suc tier) cfgs (sc_gate s) wait u1 m = (r, u', m')"
        by (simp add: availability_def)
      from Cons.IH [OF this sc(3)] shift True None show ?thesis by simp
    next
      case (Some w)
      show ?thesis
      proof (cases lower)
        case True
        with Some rest sc(2) have "plan_tiers skipped affinity lat lower now now2 (Suc tier) cfgs (sc_gate s) (min_wait wait w) u1 m = (r, u', m')"
          by (simp add: availability_def)
        from Cons.IH [OF this sc(3)] shift \<open>?ready = []\<close> Some True show ?thesis by simp
      next
        case False
        with Some rest sc(2) have "r = Waitable (min_wait wait w)" "u' = u1" by (auto simp: availability_def)
        with \<open>?ready = []\<close> Some False settle_eqI [OF sc(3) le] show ?thesis by (simp add: meets_def)
      qed
    qed
  qed
qed

section \<open>What the credentials of a candidate are\<close>

lemma map_of_push_group:
  "map_of (push_group g i gs) = (map_of gs)(g \<mapsto> (case map_of gs g of None \<Rightarrow> [i] | Some is \<Rightarrow> is @ [i]))"
  by (induction g i gs rule: push_group.induct) (auto simp: fun_eq_iff)

lemma fst_push_group: "set (map fst (push_group g i gs)) = insert g (set (map fst gs))"
  by (induction g i gs rule: push_group.induct) auto

lemma distinct_push_group: "distinct (map fst gs) \<Longrightarrow> distinct (map fst (push_group g i gs))"
proof (induction g i gs rule: push_group.induct)
  case (2 g i h "is" gs)
  then show ?case using fst_push_group [of g i gs] by auto
qed simp

definition members :: "string \<Rightarrow> key_entry list \<Rightarrow> nat list" where
  "members g ks = map ke_index (filter (\<lambda>k. ke_group k = g) ks)"

lemma by_group_spec:
  "distinct (map fst (by_group ks))
   \<and> map_of (by_group ks) g = (if members g ks = [] then None else Some (members g ks))"
proof (induction ks arbitrary: g rule: rev_induct)
  case Nil
  then show ?case by (simp add: by_group_def members_def)
next
  case (snoc k ks)
  have step: "by_group (ks @ [k]) = push_group (ke_group k) (ke_index k) (by_group ks)"
    by (simp add: by_group_def)
  have "distinct (map fst (by_group ks))" using snoc.IH by blast
  moreover have "map_of (by_group ks) h = (if members h ks = [] then None else Some (members h ks))" for h
    using snoc.IH by blast
  ultimately show ?case unfolding step
    by (auto simp: map_of_push_group distinct_push_group members_def)
qed

lemma by_group_entry:
  assumes "(g, is) \<in> set (by_group ks)"
  shows "is = members g ks \<and> is \<noteq> []"
proof -
  have "distinct (map fst (by_group ks))" using by_group_spec [of ks] by blast
  then have "map_of (by_group ks) g = Some is" using assms by simp
  then show ?thesis using by_group_spec [of ks g] by (auto split: if_splits)
qed

lemma candidate_at_facts:
  assumes "(g, is) \<in> set (by_group (t_keys t))" and c: "c = candidate_at r m n (g, is)"
  shows "c_model c = m" "c_group c = g" "c_model_hash c = hash_name m" "c_group_hash c = hash_name g"
    "order_key c = n" "set (key_choices c) \<subseteq> set (members g (t_keys t))"
proof -
  note f = by_group_entry [OF assms(1)]
  have nth: "is ! (x mod length is) \<in> set is" for x using f by (intro nth_mem) auto
  show "c_model c = m" "c_group c = g" "c_model_hash c = hash_name m" "c_group_hash c = hash_name g" "order_key c = n"
    by (simp_all add: c candidate_at_def Let_def order_key_def)
  show "set (key_choices c) \<subseteq> set (members g (t_keys t))"
    using nth f by (auto simp: c candidate_at_def Let_def key_choices_def split: if_splits)
qed

lemma candidates_at_facts:
  assumes "c \<in> set (candidates_at t m n)"
  shows "c_model c = m" "c_model_hash c = hash_name (c_model c)" "c_group_hash c = hash_name (c_group c)"
    "order_key c = n" "set (key_choices c) \<subseteq> set (members (c_group c) (t_keys t))"
proof -
  from assms obtain g "is" where i: "(g, is) \<in> set (by_group (t_keys t))"
    and c: "c = candidate_at (t_round_robin t) m n (g, is)" by (auto simp: candidates_at_def)
  from candidate_at_facts [OF i c]
  show "c_model c = m" "c_model_hash c = hash_name (c_model c)" "c_group_hash c = hash_name (c_group c)"
    "order_key c = n" "set (key_choices c) \<subseteq> set (members (c_group c) (t_keys t))" by simp_all
qed

lemma tier_candidates_facts:
  assumes "c \<in> set (tier_candidates t ms)"
  shows "c_model c \<in> set ms" "c_model_hash c = hash_name (c_model c)" "c_group_hash c = hash_name (c_group c)"
    "order_key c < length ms" "ms ! order_key c = c_model c"
    "set (key_choices c) \<subseteq> set (members (c_group c) (t_keys t))"
proof -
  from assms obtain n m where e: "(n, m) \<in> set (enumerate 0 ms)" and c: "c \<in> set (candidates_at t m n)"
    by (auto simp: tier_candidates_def)
  from e have n: "n < length ms" "ms ! n = m" by (auto simp: in_set_enumerate_eq)
  note f = candidates_at_facts [OF c]
  from n f(1) show "c_model c \<in> set ms" by (metis nth_mem)
  from n f show "c_model_hash c = hash_name (c_model c)" "c_group_hash c = hash_name (c_group c)"
    "order_key c < length ms" "ms ! order_key c = c_model c"
    "set (key_choices c) \<subseteq> set (members (c_group c) (t_keys t))" by simp_all
qed

text \<open>At most one candidate of a model per quota group.\<close>

lemma candidates_distinct_groups: "distinct (map c_group (candidates_at t m n))"
proof -
  have "map c_group (candidates_at t m n) = map fst (by_group (t_keys t))"
    by (auto simp: candidates_at_def candidate_at_def Let_def split: prod.splits)
  then show ?thesis using by_group_spec [of "t_keys t"] by simp
qed

section \<open>Reading a choice\<close>

lemma choose_spec_Inr:
  assumes "choose_spec skipped affinity lat lower now t tier cfgs wait = Inr (k, c)"
  shows "tier \<le> k \<and> k < tier + length cfgs
    \<and> tier_ready skipped now t (tier_models (cfgs ! (k - tier))) \<noteq> []
    \<and> c = chosen_spec affinity lat t (tier_ready skipped now t (tier_models (cfgs ! (k - tier))))
    \<and> (\<forall>j < k - tier. tier_ready skipped now t (tier_models (cfgs ! j)) = []
          \<and> (lower \<or> tier_wait_spec skipped now t (tier_models (cfgs ! j)) = None))"
  using assms
proof (induction cfgs arbitrary: tier wait)
  case (Cons cfg cfgs)
  show ?case
  proof (cases "tier_ready skipped now t (tier_models cfg) = []")
    case False
    with Cons.prems show ?thesis by (auto simp: Let_def)
  next
    case True
    then obtain wait' where rest: "choose_spec skipped affinity lat lower now t (Suc tier) cfgs wait' = Inr (k, c)"
      and ok: "lower \<or> tier_wait_spec skipped now t (tier_models cfg) = None"
      using Cons.prems by (auto simp: Let_def split: option.splits if_splits)
    from Cons.IH [OF rest] have ih: "Suc tier \<le> k" "k < Suc tier + length cfgs"
      "tier_ready skipped now t (tier_models (cfgs ! (k - Suc tier))) \<noteq> []"
      "c = chosen_spec affinity lat t (tier_ready skipped now t (tier_models (cfgs ! (k - Suc tier))))"
      "\<And>j. j < k - Suc tier \<Longrightarrow> tier_ready skipped now t (tier_models (cfgs ! j)) = []
          \<and> (lower \<or> tier_wait_spec skipped now t (tier_models (cfgs ! j)) = None)" by auto
    have shift: "(cfg # cfgs) ! (k - tier) = cfgs ! (k - Suc tier)" using ih(1) by (simp add: nth_Cons')
    have "tier_ready skipped now t (tier_models ((cfg # cfgs) ! j)) = []
          \<and> (lower \<or> tier_wait_spec skipped now t (tier_models ((cfg # cfgs) ! j)) = None)" if "j < k - tier" for j
      using that True ok ih(1) ih(5) [of "j - 1"] by (cases j) auto
    with ih shift show ?thesis by simp
  qed
qed simp

lemma choose_spec_Inl:
  assumes "choose_spec skipped affinity lat lower now t tier cfgs wait = Inl w"
  shows "\<exists>n \<le> length cfgs. (\<forall>j < n. tier_ready skipped now t (tier_models (cfgs ! j)) = [])
    \<and> w = fold (\<lambda>cfg acc. shortest acc (tier_wait_spec skipped now t (tier_models cfg))) (take n cfgs) wait
    \<and> (n = length cfgs \<or> \<not> lower \<and> 0 < n \<and> tier_wait_spec skipped now t (tier_models (cfgs ! (n - 1))) \<noteq> None)"
  using assms
proof (induction cfgs arbitrary: tier wait)
  case (Cons cfg cfgs)
  let ?w = "tier_wait_spec skipped now t (tier_models cfg)"
  from Cons.prems have none: "tier_ready skipped now t (tier_models cfg) = []" by (auto simp: Let_def split: if_splits)
  show ?case
  proof (cases "?w = None \<or> lower")
    case True
    then have "choose_spec skipped affinity lat lower now t (Suc tier) cfgs (shortest wait ?w) = Inl w"
      using Cons.prems none by (auto simp: shortest_def split: option.splits)
    from Cons.IH [OF this] obtain n where n: "n \<le> length cfgs"
      "\<forall>j < n. tier_ready skipped now t (tier_models (cfgs ! j)) = []"
      "w = fold (\<lambda>cfg acc. shortest acc (tier_wait_spec skipped now t (tier_models cfg))) (take n cfgs) (shortest wait ?w)"
      "n = length cfgs \<or> \<not> lower \<and> 0 < n \<and> tier_wait_spec skipped now t (tier_models (cfgs ! (n - 1))) \<noteq> None" by blast
    have "\<forall>j < Suc n. tier_ready skipped now t (tier_models ((cfg # cfgs) ! j)) = []"
      using n(2) none by (auto simp: less_Suc_eq_0_disj)
    with n show ?thesis by (intro exI [of _ "Suc n"]) (auto simp: nth_Cons')
  next
    case False
    then obtain d where "?w = Some d" by auto
    with False none Cons.prems show ?thesis
      by (intro exI [of _ 1]) (auto simp: shortest_def)
  qed
qed simp

section \<open>A plan, from its specification\<close>

lemma affinity_frame_health [frame_simps]:
  "model_health m now (t\<lparr>t_affinity := a\<rparr>) = model_health m now t"
  "route_health c now (t\<lparr>t_affinity := a\<rparr>) = route_health c now t"
  "group_health g now (t\<lparr>t_affinity := a\<rparr>) = group_health g now t"
  "key_wait i now (t\<lparr>t_affinity := a\<rparr>) = key_wait i now t"
  "all_keys_unusable c (t\<lparr>t_affinity := a\<rparr>) = all_keys_unusable c t"
  unfolding model_health_def route_health_def group_health_def key_wait_def all_keys_unusable_def frame_simps
  by simp_all

lemma affinity_frame_keys [frame_simps]:
  "dial_keys_spec is now best (t\<lparr>t_affinity := a\<rparr>) = dial_keys_spec is now best t"
  by (induction "is" arbitrary: best) (auto simp: frame_simps split: option.splits)

lemma affinity_frame_gates [frame_simps]:
  "any_ready c now (t\<lparr>t_affinity := a\<rparr>) = any_ready c now t"
  "circuit_wait m now (t\<lparr>t_affinity := a\<rparr>) = circuit_wait m now t"
  "half_open_at m now (t\<lparr>t_affinity := a\<rparr>) = half_open_at m now t"
  "probe_spec c now h q (t\<lparr>t_affinity := a\<rparr>) = probe_spec c now h q t"
  unfolding any_ready_def circuit_wait_def half_open_at_def probe_spec_def frame_simps by (rule refl)+

lemma affinity_frame_spec [frame_simps]:
  "dial_spec c now (t\<lparr>t_affinity := a\<rparr>) = dial_spec c now t"
  "score (t\<lparr>t_affinity := a\<rparr>) c aff lat = score t c aff lat"
  "tier_candidates (t\<lparr>t_affinity := a\<rparr>) ms = tier_candidates t ms"
  unfolding dial_spec_def score_def tier_candidates_def candidates_at_def frame_simps by simp_all

lemma affinity_frame_tier [frame_simps]:
  "tier_ready skipped now (t\<lparr>t_affinity := a\<rparr>) ms = tier_ready skipped now t ms"
  "tier_wait_spec skipped now (t\<lparr>t_affinity := a\<rparr>) ms = tier_wait_spec skipped now t ms"
  "chosen_spec aff lat (t\<lparr>t_affinity := a\<rparr>) ready = chosen_spec aff lat t ready"
  unfolding tier_ready_def tier_wait_spec_def chosen_spec_def eligible_def wait_of_def frame_simps by simp_all

lemma affinity_frame_choose [frame_simps]:
  "choose_spec skipped aff lat lower now (t\<lparr>t_affinity := a\<rparr>) tier cfgs wait
     = choose_spec skipped aff lat lower now t tier cfgs wait"
  by (induction cfgs arbitrary: tier wait) (auto simp: frame_simps Let_def split: option.splits)

lemma affinity_route_frame: "\<exists>a. snd (affinity_route tag now t) = t\<lparr>t_affinity := a\<rparr>"
proof -
  have "\<exists>a. t = t\<lparr>t_affinity := a\<rparr>" by (rule exI [of _ "t_affinity t"]) simp
  moreover have "\<exists>a. t\<lparr>t_affinity := b\<rparr> = t\<lparr>t_affinity := a\<rparr>" for b by blast
  ultimately show ?thesis by (simp add: affinity_route_def split: option.splits)
qed

text \<open>The route a session is pinned to at an instant.\<close>

definition pinned :: "string \<Rightarrow> instant \<Rightarrow> route_table \<Rightarrow> route_id option" where
  "pinned tag now t = fst (affinity_route tag now t)"

lemma plan_outcome:
  assumes "plan spec tag skipped now now2 t m = (r, t', m')" and "now \<le> now2"
    and "spec_tiers (t_profiles t) spec = Some (ts, lat, lower)"
  shows "\<exists>a. meets skipped ts 0 now now2 (t\<lparr>t_affinity := a\<rparr>)
     (choose_spec skipped (pinned tag now t) lat lower now t 0 ts None) r t'"
proof -
  obtain a where a: "snd (affinity_route tag now t) = t\<lparr>t_affinity := a\<rparr>" using affinity_route_frame by blast
  then have "affinity_route tag now t = (pinned tag now t, t\<lparr>t_affinity := a\<rparr>)"
    by (metis pinned_def prod.collapse)
  with assms have "plan_tiers skipped (pinned tag now t) lat lower now now2 0 ts None None (t\<lparr>t_affinity := a\<rparr>) m = (r, t', m')"
    by (simp add: plan_def)
  from plan_tiers_eq [OF this refl assms(2)] show ?thesis by (auto simp: frame_simps)
qed

lemma plan_cases:
  assumes "plan spec tag skipped now now2 t m = (r, t', m')" and "now \<le> now2"
    and "spec_tiers (t_profiles t) spec = Some (ts, lat, lower)"
  obtains (wait) w a where "choose_spec skipped (pinned tag now t) lat lower now t 0 ts None = Inl w"
      "r = Waitable w" "settle now2 t' = settle now2 (t\<lparr>t_affinity := a\<rparr>)"
  | (choice) k c p a where "choose_spec skipped (pinned tag now t) lat lower now t 0 ts None = Inr (k, c)"
      "r = Planned p" "settle now2 t' = settle now2 (t\<lparr>t_affinity := a, t_round_robin := t_round_robin t + 1\<rparr>)"
proof -
  let ?res = "choose_spec skipped (pinned tag now t) lat lower now t 0 ts None"
  from plan_outcome [OF assms] obtain a where m: "meets skipped ts 0 now now2 (t\<lparr>t_affinity := a\<rparr>) ?res r t'" by blast
  show ?thesis
  proof (cases ?res)
    case (Inl w)
    with m wait show ?thesis by (simp add: meets_def)
  next
    case (Inr kc)
    then obtain k c where kc: "?res = Inr (k, c)" by (cases kc) auto
    with m have "\<exists>p. r = Planned p" "settle now2 t' = settle now2 (t\<lparr>t_affinity := a, t_round_robin := t_round_robin t + 1\<rparr>)"
      unfolding meets_def kc by auto
    with choice [OF kc] show ?thesis by blast
  qed
qed

lemma plan_chosen:
  assumes "plan spec tag skipped now now2 t m = (Planned p, t', m')" and "now \<le> now2"
  obtains ts lat lower c where "spec_tiers (t_profiles t) spec = Some (ts, lat, lower)"
    "choose_spec skipped (pinned tag now t) lat lower now t 0 ts None = Inr (p_stepped_down p, c)"
    "target_spec c (p_stepped_down p) now2 t = Some (p_target p)" "p_stepped_down p < length ts"
    "p_next_alternative p = tier_wait_spec skipped now t (tier_models (ts ! p_stepped_down p))"
proof (cases "spec_tiers (t_profiles t) spec")
  case None
  with assms(1) show ?thesis by (simp add: plan_def)
next
  case (Some x)
  then obtain ts lat lower where x: "spec_tiers (t_profiles t) spec = Some (ts, lat, lower)" by (cases x) auto
  let ?res = "choose_spec skipped (pinned tag now t) lat lower now t 0 ts None"
  from plan_outcome [OF assms(1,2) x] obtain a
    where m: "meets skipped ts 0 now now2 (t\<lparr>t_affinity := a\<rparr>) ?res (Planned p) t'" by blast
  then obtain k c where res: "?res = Inr (k, c)" by (cases ?res) (auto simp: meets_def)
  with m show ?thesis using that [OF x, of c] by (auto simp: meets_def frame_simps)
qed

text \<open>The converse: what the specification chooses, a plan returns.\<close>

lemma plan_exists:
  assumes "spec_tiers (t_profiles t) spec = Some (ts, lat, lower)" "now \<le> now2"
    "choose_spec skipped (pinned tag now t) lat lower now t 0 ts None = Inr (k, c)"
    "target_spec c k now2 t = Some target"
  obtains p t' m' where "plan spec tag skipped now now2 t m = (Planned p, t', m')" "p_target p = target"
    "p_stepped_down p = k"
proof -
  obtain r t' m' where r: "plan spec tag skipped now now2 t m = (r, t', m')" by (metis prod_cases3)
  from plan_outcome [OF r assms(2,1)] assms(3,4) obtain p where "r = Planned p" "p_target p = target" "p_stepped_down p = k"
    by (auto simp: meets_def frame_simps)
  with r that show ?thesis by blast
qed

end
