(* ===== verification/RouterSteps.thy ===== *)
theory RouterSteps
  imports RouterSpec
begin

text \<open>
  The router as a transition system.  \<open>forgets\<close> generates what reads may do to a table;
  \<open>table_step\<close> has one rule per operation of the table; invariants of every reachable table are
  proved by rule induction: the model circuits, the evidence lists, the bounded affinity table,
  and what never changes (the credentials' identities and the configuration).
\<close>

section \<open>What a read may do\<close>

inductive forgets :: "route_table \<Rightarrow> route_table \<Rightarrow> bool" where
  idle: "forgets t t"
| model: "forgets t u \<Longrightarrow> forgets t (u\<lparr>t_models := (t_models u)(m \<mapsto> refresh_model now (or_default (t_models u m)))\<rparr>)"
| route: "forgets t u \<Longrightarrow> forgets t (u\<lparr>t_routes := (t_routes u)(r \<mapsto> refresh_route now (or_default (t_routes u r)))\<rparr>)"
| grp: "forgets t u \<Longrightarrow> forgets t (u\<lparr>t_groups := (t_groups u)(g \<mapsto> refresh_group now (or_default (t_groups u g)))\<rparr>)"
| key: "forgets t u \<Longrightarrow> forgets t (map_key_state i (clear_key now) u)"
| all_keys: "forgets t u \<Longrightarrow> forgets t (clear_all_keys now u)"
| rotate: "forgets t u \<Longrightarrow> forgets t (u\<lparr>t_round_robin := n\<rparr>)"
| unpin: "forgets t u \<Longrightarrow> forgets t (u\<lparr>t_affinity := al_remove tag (t_affinity u)\<rparr>)"

lemma forgets_model_view: "forgets t u \<Longrightarrow> forgets t (snd (model_view m now u))"
  by (simp add: model_view_def Let_def forgets.model)

lemma forgets_route_view: "forgets t u \<Longrightarrow> forgets t (snd (route_view c now u))"
  by (simp add: route_view_def Let_def forgets.route)

lemma forgets_group_view: "forgets t u \<Longrightarrow> forgets t (snd (group_view g now u))"
  unfolding group_view_def Let_def refresh_group_def [symmetric] by (simp add: forgets.grp)

lemma forgets_key_ready: "forgets t u \<Longrightarrow> forgets t (snd (key_ready i now u))"
  by (simp add: key_ready_def Let_def forgets.key split: option.split)

lemma forgets_key_cooling: "forgets t u \<Longrightarrow> forgets t (snd (key_cooling i now u))"
  by (simp add: key_cooling_def Let_def forgets.key split: option.split)

lemmas forgets_elementary = forgets_model_view forgets_route_view forgets_group_view forgets_key_ready forgets_key_cooling

text \<open>Forward forms, for reads taken apart by \<open>case\<close>.\<close>

lemma forgets_reads:
  "model_view m now u = (v, u') \<Longrightarrow> forgets t u \<Longrightarrow> forgets t u'"
  "route_view c now u = (q, u') \<Longrightarrow> forgets t u \<Longrightarrow> forgets t u'"
  "group_view g now u = (w, u') \<Longrightarrow> forgets t u \<Longrightarrow> forgets t u'"
  "key_ready i now u = (k, u') \<Longrightarrow> forgets t u \<Longrightarrow> forgets t u'"
  "key_cooling i now u = (w, u') \<Longrightarrow> forgets t u \<Longrightarrow> forgets t u'"
  by (metis forgets_elementary snd_conv)+

lemma forgets_dial_keys: "dial_keys is now best u = (r, b, u') \<Longrightarrow> forgets t u \<Longrightarrow> forgets t u'"
proof (induction "is" arbitrary: best u)
  case (Cons i "is")
  obtain k u1 where k: "key_ready i now u = (k, u1)" by fastforce
  note f1 = forgets_reads(4) [OF k Cons.prems(2)]
  obtain w u2 where w: "key_cooling i now u1 = (w, u2)" by fastforce
  note f2 = forgets_reads(5) [OF w f1]
  show ?case using Cons.prems(1) f1 Cons.IH [OF _ f2]
    by (cases k; cases w) (simp_all add: k w)
qed simp

lemma forgets_any_key_ready: "any_key_ready is now u = (r, u') \<Longrightarrow> forgets t u \<Longrightarrow> forgets t u'"
proof (induction "is" arbitrary: u)
  case (Cons i "is")
  obtain k u1 where k: "key_ready i now u = (k, u1)" by fastforce
  note f1 = forgets_reads(4) [OF k Cons.prems(2)]
  show ?case using Cons.prems(1) f1 Cons.IH [OF _ f1] by (cases k) (simp_all add: k)
qed simp

lemma forgets_find_ready_key: "find_ready_key is now u = (r, u') \<Longrightarrow> forgets t u \<Longrightarrow> forgets t u'"
proof (induction "is" arbitrary: u)
  case (Cons i "is")
  obtain k u1 where k: "key_ready i now u = (k, u1)" by fastforce
  note f1 = forgets_reads(4) [OF k Cons.prems(2)]
  show ?case using Cons.prems(1) f1 Cons.IH [OF _ f1] by (cases k) (simp_all add: k)
qed simp

lemma forgets_dial_probe:
  assumes "dial_probe c now h p u = (r, u')" "forgets t u"
  shows "forgets t u'"
proof -
  obtain k b u1 where k: "dial_keys (key_choices c) now None u = (k, b, u1)" by (metis prod_cases3)
  from assms forgets_dial_keys [OF k assms(2)] show ?thesis
    by (cases k; cases b) (auto simp: dial_probe_def k split: if_splits)
qed

lemma forgets_dialability:
  assumes "dialability c now u = (r, u')" "forgets t u"
  shows "forgets t u'"
proof -
  obtain v u1 where m: "model_view (c_model c) now u = (v, u1)" by fastforce
  note f1 = forgets_reads(1) [OF m assms(2)]
  obtain q u2 where q: "route_view c now u1 = (q, u2)" by fastforce
  note f2 = forgets_reads(2) [OF q f1]
  obtain g u3 where g: "group_view (c_group c) now u2 = (g, u3)" by fastforce
  note f3 = forgets_reads(3) [OF g f2]
  obtain y u4 where y: "any_key_ready (key_choices c) now u3 = (y, u4)" by fastforce
  note f4 = forgets_any_key_ready [OF y f3]
  have pair: "(case mv_state v of Open \<Rightarrow> (False, mv_open_until v) | HalfOpen \<Rightarrow> (True, None) | Closed \<Rightarrow> (False, None))
      = (mv_state v = HalfOpen, if mv_state v = Open then mv_open_until v else None)"
    by (simp split: circuit_state.splits)
  show ?thesis using assms(1) f1 f2 f3 f4 forgets_dial_probe [OF _ f3] forgets_dial_probe [OF _ f4]
    unfolding dialability_def m q g y pair prod.case Let_def
    by (auto split: if_splits option.splits)
qed

lemma forgets_scan_fold:
  "fold (scan_candidate skipped affinity lat now) cs (s, u) = (s', u') \<Longrightarrow> forgets t u \<Longrightarrow> forgets t u'"
proof (induction cs arbitrary: s u)
  case (Cons c cs)
  obtain d w u1 where d: "dialability c now u = ((d, w), u1)" by (metis prod.exhaust)
  note f1 = forgets_dialability [OF d Cons.prems(2)]
  obtain s2 u2 where s2: "scan_candidate skipped affinity lat now c (s, u) = (s2, u2)" by fastforce
  then have "u2 = u \<or> u2 = u1"
    by (auto simp: scan_candidate_def d Let_def split: if_splits dialability.splits option.splits)
  with f1 Cons.prems(2) have "forgets t u2" by blast
  with Cons.IH [of s2 u2] Cons.prems(1) s2 show ?case by simp
qed simp

lemma forgets_scan_tier: "scan_tier skipped affinity lat now gate ms u = (s, u') \<Longrightarrow> forgets t u \<Longrightarrow> forgets t u'"
  unfolding scan_tier_def by (rule forgets_scan_fold)

lemma forgets_choose_route:
  assumes "choose_route tier affinity now2 s u m = (r, u', m')" "forgets t u"
  shows "forgets t u'"
proof -
  let ?c = "fst (hd (order (sc_available s) affinity (t_round_robin u)))"
  obtain k u1 where k: "find_ready_key (key_choices ?c) now2 (u\<lparr>t_round_robin := t_round_robin u + 1\<rparr>) = (k, u1)" by fastforce
  from assms(1) have "u' = u1" by (auto simp: choose_route_def target_of_def k Let_def split: option.splits)
  then show ?thesis using forgets_find_ready_key [OF k forgets.rotate [OF assms(2)]] by simp
qed

lemma forgets_plan_tiers:
  "plan_tiers skipped affinity lat lower now now2 tier cfgs gate wait u m = (r, u', m') \<Longrightarrow> forgets t u \<Longrightarrow> forgets t u'"
proof (induction cfgs arbitrary: tier gate wait u m)
  case (Cons cfg cfgs)
  obtain s u1 where s: "scan_tier skipped affinity lat now gate (tier_models cfg) u = (s, u1)" by fastforce
  note f1 = forgets_scan_tier [OF s Cons.prems(2)]
  show ?case using Cons.prems(1) f1 Cons.IH [OF _ f1] forgets_choose_route [OF _ f1]
    by (auto simp: s split: if_splits tier_availability.splits)
qed simp

lemma forgets_plan:
  assumes "plan spec tag skipped now now2 t m = (r, t', m')"
  shows "forgets t t'"
proof -
  obtain aff t1 where a: "affinity_route tag now t = (aff, t1)" by fastforce
  have "forgets t t1" using a
    by (auto simp: affinity_route_def intro: forgets.idle forgets.unpin [OF forgets.idle] split: if_splits option.splits)
  with assms forgets_plan_tiers show ?thesis
    by (auto simp: plan_def a intro: forgets.idle split: option.splits prod.splits)
qed

lemma forgets_any_ready_in_group: "any_ready_in_group g now cs u = (r, u') \<Longrightarrow> forgets t u \<Longrightarrow> forgets t u'"
proof (induction cs arbitrary: u)
  case (Cons c cs)
  obtain d w u1 where d: "dialability c now u = ((d, w), u1)" by (metis prod.exhaust)
  from Cons.prems Cons.IH [of u1] Cons.IH [of u] forgets_dialability [OF d Cons.prems(2)] show ?case
    by (auto simp: d split: if_splits)
qed simp

lemma forgets_count_usable: "count_usable now ps u = (n, u') \<Longrightarrow> forgets t u \<Longrightarrow> forgets t u'"
proof (induction ps arbitrary: u n u')
  case (Cons p ps)
  obtain m g where p: "p = (m, g)" by fastforce
  obtain ok u1 where a: "any_ready_in_group g now (candidates u m) u = (ok, u1)" by fastforce
  obtain k u2 where c: "count_usable now ps u1 = (k, u2)" by fastforce
  from Cons.IH [OF c forgets_any_ready_in_group [OF a Cons.prems(2)]] Cons.prems(1) show ?case
    by (auto simp: p a c split: if_splits)
qed simp

lemma forgets_usable_route_count: "usable_route_count now t = (n, t') \<Longrightarrow> forgets t t'"
  unfolding usable_route_count_def by (erule forgets_count_usable) (rule forgets.idle)

lemma forgets_usable_credential_count: "usable_credential_count now t = (n, t') \<Longrightarrow> forgets t t'"
  by (auto simp: usable_credential_count_def Let_def intro: forgets.all_keys forgets.idle)

lemma forgets_earliest_retry_after: "earliest_retry_after now t = (w, t') \<Longrightarrow> forgets t t'"
  by (auto simp: earliest_retry_after_def Let_def intro: forgets.all_keys forgets.idle)

section \<open>The operations of the table as steps\<close>

text \<open>Every operation but the two that report a failure of a route.\<close>

inductive calm_step :: "route_table \<Rightarrow> route_table \<Rightarrow> bool" where
  plan: "plan spec tag skipped now now2 t m = (r, t', m') \<Longrightarrow> calm_step t t'"
| dialability: "dialability c now t = (d, t') \<Longrightarrow> calm_step t t'"
| count_routes: "usable_route_count now t = (n, t') \<Longrightarrow> calm_step t t'"
| count_keys: "usable_credential_count now t = (n, t') \<Longrightarrow> calm_step t t'"
| retry_after: "earliest_retry_after now t = (w, t') \<Longrightarrow> calm_step t t'"
| success: "calm_step t (note_success target ttft elapsed t)"
| quota: "calm_step t (note_quota_exhausted target cooldown now t)"
| authentication: "calm_step t (note_authentication_failure target t)"
| missing: "calm_step t (note_model_missing target now t)"
| session: "calm_step t (note_session_route tag target now t)"
| unpin: "break_affinity tag t m = (t', m') \<Longrightarrow> calm_step t t'"
| begin_attempt: "begin_attempt target t = (g, t') \<Longrightarrow> calm_step t t'"
| release: "release_probe g t = (g', t') \<Longrightarrow> calm_step t t'"
| drop_it: "calm_step t (drop_guard g t)"

inductive table_step :: "route_table \<Rightarrow> route_table \<Rightarrow> bool" where
  calm: "calm_step t t' \<Longrightarrow> table_step t t'"
| rate_limited: "note_rate_limited target attempt streak hint jitter now t m = (d, t', m') \<Longrightarrow> table_step t t'"
| transient: "note_transient_failure target attempt hint jitter now t m = (d, t', m') \<Longrightarrow> table_step t t'"

definition reachable :: "config \<Rightarrow> route_table \<Rightarrow> bool" where
  "reachable c t = table_step\<^sup>*\<^sup>* (new_table c) t"


text \<open>To show that every step preserves a property it is enough to look at what each operation
  writes: the five kinds of reads share the rules of \<open>forgets\<close>.\<close>

lemma calm_step_preserves:
  assumes "calm_step t t'"
    and read: "\<And>t'. forgets t t' \<Longrightarrow> P t'"
    and writes: "\<And>target ttft elapsed. P (note_success target ttft elapsed t)"
      "\<And>target cooldown now. P (note_quota_exhausted target cooldown now t)"
      "\<And>target. P (note_authentication_failure target t)"
      "\<And>target now. P (note_model_missing target now t)"
      "\<And>tag target now. P (note_session_route tag target now t)"
      "\<And>tag m. P (fst (break_affinity tag t m))"
      "\<And>target. P (snd (begin_attempt target t))" "\<And>g. P (snd (release_probe g t))" "\<And>g. P (drop_guard g t)"
  shows "P t'"
  using assms(1)
proof cases
  case (plan spec tag skipped now now2 m r m')
  then show ?thesis using read forgets_plan by blast
next
  case (dialability c now d)
  then show ?thesis using read forgets_dialability forgets.idle by blast
next
  case (count_routes now n)
  then show ?thesis using read forgets_usable_route_count by blast
next
  case (count_keys now n)
  then show ?thesis using read forgets_usable_credential_count by blast
next
  case (retry_after now w)
  then show ?thesis using read forgets_earliest_retry_after by blast
next
  case (unpin tag m m')
  then show ?thesis using writes(6) by (metis fst_conv)
next
  case (begin_attempt target g)
  then show ?thesis using writes(7) by (metis snd_conv)
next
  case (release g g')
  then show ?thesis using writes(8) by (metis snd_conv)
qed (use writes in simp_all)

lemma table_step_preserves:
  assumes "table_step t t'" and "P t"
    and read: "\<And>t'. forgets t t' \<Longrightarrow> P t'"
    and writes: "\<And>target ttft elapsed. P (note_success target ttft elapsed t)"
      "\<And>target attempt streak hint jitter now m. P (fst (snd (note_rate_limited target attempt streak hint jitter now t m)))"
      "\<And>target cooldown now. P (note_quota_exhausted target cooldown now t)"
      "\<And>target. P (note_authentication_failure target t)"
      "\<And>target now. P (note_model_missing target now t)"
      "\<And>target attempt hint jitter now m. P (fst (snd (note_transient_failure target attempt hint jitter now t m)))"
      "\<And>tag target now. P (note_session_route tag target now t)"
      "\<And>tag m. P (fst (break_affinity tag t m))"
      "\<And>target. P (snd (begin_attempt target t))" "\<And>g. P (snd (release_probe g t))" "\<And>g. P (drop_guard g t)"
  shows "P t'"
  using assms(1)
proof cases
  case calm
  then show ?thesis by (rule calm_step_preserves) (use read writes in simp_all)
next
  case (rate_limited target attempt streak hint jitter now m d m')
  then show ?thesis using writes(2) by (metis fst_conv snd_conv)
next
  case (transient target attempt hint jitter now m d m')
  then show ?thesis using writes(6) by (metis fst_conv snd_conv)
qed

section \<open>Invariants of a model entry\<close>

text \<open>
  Evidence lists hold each quota group once, missing evidence is always below its threshold (at
  the threshold the model is disabled and the evidence spent), a probe is only in flight while
  the circuit is half-open, and open or disabled states always know when they end.
\<close>

definition model_inv :: "route_config \<Rightarrow> model_entry \<Rightarrow> bool" where
  "model_inv cfg e = (distinct (map fst (me_failing_groups e)) \<and> distinct (map fst (me_missing_groups e))
     \<and> length (me_missing_groups e) < model_missing_distinct_groups cfg
     \<and> (me_probe_in_flight e \<longrightarrow> me_state e = HalfOpen)
     \<and> (me_state e = Open \<longrightarrow> me_open_until e \<noteq> None) \<and> (me_disabled e \<longrightarrow> me_disabled_until e \<noteq> None))"

lemma model_inv_default: "0 < model_missing_distinct_groups cfg \<Longrightarrow> model_inv cfg default"
  by (simp add: model_inv_def)

lemma distinct_push_evidence: "distinct (map fst ev) \<Longrightarrow> distinct (map fst (push_evidence g now w ev))"
  using distinct_filter_fst [of ev "\<lambda>(h, stamp). h \<noteq> g \<and> now - stamp \<le> w"]
  by (auto simp: push_evidence_def)

lemma model_inv_refresh: "model_inv cfg e \<Longrightarrow> model_inv cfg (refresh_model now e)"
  by (auto simp: model_inv_def refresh_model_def refresh_circuit_def refresh_missing_def split: option.splits)

lemma model_inv_failure: "model_inv cfg e \<Longrightarrow> model_inv cfg (snd (record_failure_entry cfg g now e))"
  by (cases "me_state e")
    (auto simp: model_inv_def record_failure_entry_def transition_model_circuit_def deadline_def Let_def
       distinct_push_evidence)

lemma model_inv_missing: "0 < model_missing_distinct_groups cfg \<Longrightarrow> model_inv cfg e \<Longrightarrow> model_inv cfg (missing_entry cfg g now e)"
  by (auto simp: model_inv_def missing_entry_def deadline_def Let_def distinct_push_evidence)

lemma model_inv_success: "model_inv cfg e \<Longrightarrow> model_inv cfg (success_model e)"
  by (auto simp: model_inv_def success_model_def close_model_circuit_def)

lemma model_inv_probe:
  "model_inv cfg e \<Longrightarrow> me_state e = HalfOpen \<Longrightarrow> model_inv cfg (e\<lparr>me_probe_in_flight := True\<rparr>)"
  "model_inv cfg e \<Longrightarrow> model_inv cfg (e\<lparr>me_probe_in_flight := False\<rparr>)"
  "model_inv cfg e \<Longrightarrow> model_inv cfg (e\<lparr>me_probe_in_flight := False, me_state := Closed\<rparr>)"
  by (auto simp: model_inv_def)

lemmas model_inv_intros = model_inv_default model_inv_refresh model_inv_failure model_inv_missing
  model_inv_success model_inv_probe

section \<open>Invariants of a table\<close>

definition models_ok :: "route_table \<Rightarrow> bool" where
  "models_ok t = (0 < model_missing_distinct_groups (t_config t)
     \<and> (\<forall>m. model_inv (t_config t) (or_default (t_models t m))))"

definition pins_ok :: "route_table \<Rightarrow> bool" where
  "pins_ok t = (0 < max_affinity_entries (t_config t) \<and> distinct (map fst (t_affinity t))
     \<and> length (t_affinity t) \<le> max_affinity_entries (t_config t))"

text \<open>What the operations leave alone, field by field.\<close>

lemma map_key_state_sel [simp]:
  "t_routes (map_key_state i f t) = t_routes t" "t_models (map_key_state i f t) = t_models t"
  "t_groups (map_key_state i f t) = t_groups t" "t_affinity (map_key_state i f t) = t_affinity t"
  "t_round_robin (map_key_state i f t) = t_round_robin t" "t_config (map_key_state i f t) = t_config t"
  "t_affinity_breaks (map_key_state i f t) = t_affinity_breaks t"
  "t_profiles (map_key_state i f t) = t_profiles t" "length (t_keys (map_key_state i f t)) = length (t_keys t)"
  by (simp_all add: map_key_state_def)

lemma update_sel [simp]:
  "t_models (update_model m e t) = (t_models t)(m \<mapsto> e)" "t_routes (update_model m e t) = t_routes t"
  "t_groups (update_model m e t) = t_groups t" "t_keys (update_model m e t) = t_keys t"
  "t_affinity (update_model m e t) = t_affinity t" "t_config (update_model m e t) = t_config t"
  "t_profiles (update_model m e t) = t_profiles t" "t_round_robin (update_model m e t) = t_round_robin t"
  "t_routes (update_route r f t) = (t_routes t)(r \<mapsto> f)" "t_models (update_route r f t) = t_models t"
  "t_groups (update_route r f t) = t_groups t" "t_keys (update_route r f t) = t_keys t"
  "t_affinity (update_route r f t) = t_affinity t" "t_config (update_route r f t) = t_config t"
  "t_profiles (update_route r f t) = t_profiles t" "t_round_robin (update_route r f t) = t_round_robin t"
  "t_groups (update_group g h t) = (t_groups t)(g \<mapsto> h)" "t_models (update_group g h t) = t_models t"
  "t_routes (update_group g h t) = t_routes t" "t_keys (update_group g h t) = t_keys t"
  "t_affinity (update_group g h t) = t_affinity t" "t_config (update_group g h t) = t_config t"
  "t_profiles (update_group g h t) = t_profiles t" "t_round_robin (update_group g h t) = t_round_robin t"
  by (simp_all add: update_model_def update_route_def update_group_def)

lemma break_where_sel [simp]:
  "t_models (break_affinity_where h t) = t_models t" "t_routes (break_affinity_where h t) = t_routes t"
  "t_groups (break_affinity_where h t) = t_groups t" "t_keys (break_affinity_where h t) = t_keys t"
  "t_config (break_affinity_where h t) = t_config t" "t_profiles (break_affinity_where h t) = t_profiles t"
  "t_affinity (break_affinity_where h t) = filter (\<lambda>(tag, e). \<not> h e) (t_affinity t)"
  by (simp_all add: break_affinity_where_def)

lemma cool_group_sel [simp]:
  "t_models (cool_group_keys g u t) = t_models t" "t_routes (cool_group_keys g u t) = t_routes t"
  "t_groups (cool_group_keys g u t) = t_groups t" "t_affinity (cool_group_keys g u t) = t_affinity t"
  "t_config (cool_group_keys g u t) = t_config t" "t_profiles (cool_group_keys g u t) = t_profiles t"
  by (simp_all add: cool_group_keys_def)

lemmas outcome_defs = note_success_def note_rate_limited_def note_quota_exhausted_def
  note_authentication_failure_def note_model_missing_def note_transient_failure_def note_session_route_def
  break_affinity_def break_affinity_for_route_def break_affinity_for_group_def begin_attempt_def
  release_probe_def drop_guard_def record_route_failure_def

lemma models_okI:
  assumes "0 < model_missing_distinct_groups (t_config t)" "t_config t' = t_config t"
    and "\<And>m. t_models t' m = t_models t m \<or> model_inv (t_config t) (or_default (t_models t' m))"
    and "models_ok t"
  shows "models_ok t'"
  using assms by (metis models_ok_def)

lemma models_ok_forgets: "forgets t u \<Longrightarrow> models_ok t \<Longrightarrow> models_ok u"
  by (induction rule: forgets.induct)
    (auto simp: models_ok_def model_inv_refresh clear_all_keys_def)

lemma record_route_failure_table:
  "snd (record_route_failure target now t) = update_model (rt_model target)
     (snd (record_failure_entry (t_config t) (hash_name (rt_quota_group target)) now
        (or_default (t_models t (rt_model target))))) t"
  by (simp add: record_route_failure_def case_prod_beta)

lemma note_rate_limited_table:
  "fst (snd (note_rate_limited target attempt streak hint jitter now t m)) =
     (let d = fst (note_rate_limited target attempt streak hint jitter now t m)
      in snd (record_route_failure target now (update_route (route_id target)
           ((or_default (t_routes t (route_id target)))\<lparr>rs_cooling_until := deadline now d\<rparr>)
           (map_key_state (sk_index (rt_key target)) (\<lambda>s. s\<lparr>ks_streak := sat_add u32_max streak 1\<rparr>) t))))"
  by (simp add: note_rate_limited_def Let_def case_prod_beta)

lemma note_transient_failure_table:
  "fst (snd (note_transient_failure target attempt hint jitter now t m)) =
     (let d = fst (note_transient_failure target attempt hint jitter now t m)
      in snd (record_route_failure target now (if key_has_alternatives target t
           then map_key_state (sk_index (rt_key target)) (\<lambda>s. s\<lparr>ks_cooling_until := deadline now d\<rparr>) t
           else t)))"
  by (simp add: note_transient_failure_def Let_def case_prod_beta)

lemma begin_attempt_table:
  "snd (begin_attempt target t) =
     (let e = or_default (t_models t (rt_model target))
      in map_key_state (sk_index (rt_key target)) (\<lambda>s. s\<lparr>ks_inflight := sat_add u64_max (ks_inflight s) 1\<rparr>)
           (update_model (rt_model target)
             (if me_state e = HalfOpen \<and> \<not> me_probe_in_flight e then e\<lparr>me_probe_in_flight := True\<rparr> else e) t))"
  by (simp add: begin_attempt_def Let_def)

lemmas table_eqs = record_route_failure_table note_rate_limited_table note_transient_failure_table begin_attempt_table

lemma models_ok_step:
  assumes step: "table_step t t'" and ok: "models_ok t"
  shows "models_ok t'"
proof (rule table_step_preserves [where P = models_ok, OF step ok])
  have pos: "0 < model_missing_distinct_groups (t_config t)" using ok by (simp add: models_ok_def)
  have inv: "model_inv (t_config t) (or_default (t_models t m))" for m using ok by (simp add: models_ok_def)
  have entry: "t_models t m = Some e \<Longrightarrow> model_inv (t_config t) e" for m e using inv [of m] by simp
  note I = models_okI [OF pos _ _ ok]
  fix target :: route_target and ttft elapsed attempt streak hint jitter now m cooldown tag and g :: inflight_guard
  show "models_ok (note_success target ttft elapsed t)"
    by (rule I) (auto simp: note_success_def Let_def intro: model_inv_success entry split: option.splits)
  show "models_ok (fst (snd (note_rate_limited target attempt streak hint jitter now t m)))"
    by (rule I) (simp_all add: table_eqs Let_def model_inv_failure inv)
  show "models_ok (fst (snd (note_transient_failure target attempt hint jitter now t m)))"
    by (rule I) (simp_all add: table_eqs Let_def model_inv_failure inv)
  show "models_ok (note_quota_exhausted target cooldown now t)"
    by (rule I) (simp_all add: note_quota_exhausted_def break_affinity_for_group_def Let_def)
  show "models_ok (note_authentication_failure target t)"
    by (rule I) (simp_all add: note_authentication_failure_def break_affinity_for_route_def)
  show "models_ok (note_model_missing target now t)"
    by (rule I) (simp_all add: note_model_missing_def break_affinity_for_route_def Let_def model_inv_missing pos inv)
  show "models_ok (note_session_route tag target now t)"
    by (rule I) (simp_all add: note_session_route_def Let_def)
  show "models_ok (fst (break_affinity tag t m))"
    by (rule I) (simp_all add: break_affinity_def)
  show "models_ok (snd (begin_attempt target t))"
    by (rule I) (simp_all add: table_eqs Let_def model_inv_probe inv)
  show "models_ok (snd (release_probe g t))"
    by (rule I) (auto simp: release_probe_def intro: model_inv_probe entry split: option.splits)
  show "models_ok (drop_guard g t)"
    by (rule I) (auto simp: drop_guard_def Let_def intro: model_inv_probe entry split: option.splits)
qed (rule models_ok_forgets [OF _ ok])

lemma models_ok_new: "models_ok (new_table c)"
  by (simp add: models_ok_def new_table_def route_config_of_def model_inv_default)

section \<open>Pins stay bounded\<close>

lemma oldest_mem: "oldest al = Some tag \<Longrightarrow> tag \<in> fst ` set al"
proof (cases al)
  case (Cons e es)
  have "fold (\<lambda>x best. if ae_expires (snd x) < ae_expires (snd best) then x else best) es b \<in> insert b (set es)" for b
  proof (induction es arbitrary: b)
    case (Cons x xs)
    from Cons.IH [of x] Cons.IH [of b] show ?case by auto
  qed simp
  from this [of e] Cons show "oldest al = Some tag \<Longrightarrow> tag \<in> fst ` set al" by (auto simp: oldest_def)
qed (simp add: oldest_def)

lemma oldest_Some: "al \<noteq> [] \<Longrightarrow> oldest al \<noteq> None"
  by (cases al) (simp_all add: oldest_def)

lemma pins_session:
  assumes "pins_ok t"
  shows "pins_ok (note_session_route tag target now t)"
proof (cases "soft_affinity (t_config t) = 0 \<or> tag = [] \<or> tag = sess_none")
  case True
  then have "note_session_route tag target now t = t" by (auto simp: note_session_route_def)
  with assms show ?thesis by simp
next
  case False
  define live where "live = filter (\<lambda>(tg, e). now < ae_expires e) (t_affinity t)"
  define room where "room = (if map_of live tag = None \<and> max_affinity_entries (t_config t) \<le> length live
      then (case oldest live of None \<Rightarrow> live | Some old \<Rightarrow> al_remove old live) else live)"
  let ?mx = "max_affinity_entries (t_config t)"
  have pos: "0 < ?mx" using assms by (simp add: pins_ok_def)
  have live: "distinct (map fst live)" "length live \<le> ?mx"
    using assms le_trans [OF length_filter_le] by (auto simp: live_def pins_ok_def distinct_filter_fst)
  have room: "distinct (map fst room)" using live(1) by (auto simp: room_def distinct_al_remove split: option.split)
  have "length (al_remove tag room) < ?mx"
  proof (cases "map_of live tag = None")
    case True
    show ?thesis
    proof (cases "?mx \<le> length live")
      case False
      then show ?thesis using length_al_remove_le [of tag room] by (auto simp: room_def)
    next
      case True
      with pos have "live \<noteq> []" by auto
      then obtain old where old: "oldest live = Some old" using oldest_Some by blast
      from length_al_remove_less [OF oldest_mem [OF old]] live(2) length_al_remove_le [of tag "al_remove old live"]
      show ?thesis using True \<open>map_of live tag = None\<close> by (simp add: room_def old)
    qed
  next
    case False
    then have "tag \<in> fst ` set live" by (simp add: map_of_eq_None_iff)
    from length_al_remove_less [OF this] live(2) have "length (al_remove tag live) < ?mx" by linarith
    moreover have "room = live" unfolding room_def using False by (simp del: not_None_eq)
    ultimately show ?thesis by simp
  qed
  moreover have "note_session_route tag target now t = t\<lparr>t_affinity := al_insert tag
      \<lparr>ae_route = route_id target, ae_expires = now + soft_affinity (t_config t)\<rparr> room\<rparr>"
    unfolding note_session_route_def Let_def room_def live_def using False by simp
  ultimately show ?thesis using distinct_al_insert [OF room, of tag] pos by (simp add: pins_ok_def al_insert_def Suc_le_eq)
qed

lemma pins_okI:
  assumes "pins_ok t" "t_config t' = t_config t" "\<exists>P. t_affinity t' = filter P (t_affinity t)"
  shows "pins_ok t'"
  using assms by (auto simp: pins_ok_def distinct_filter_fst intro: le_trans [OF length_filter_le])

lemma keeps_pins: "t_affinity t' = t_affinity t \<Longrightarrow> \<exists>P. t_affinity t' = filter P (t_affinity t)"
  by (intro exI [of _ "\<lambda>_. True"]) simp

lemma pins_forgets: "forgets t u \<Longrightarrow> pins_ok t \<Longrightarrow> pins_ok u"
  by (induction rule: forgets.induct)
    (auto simp: pins_ok_def clear_all_keys_def distinct_al_remove intro: le_trans [OF length_al_remove_le])

lemma pins_step:
  assumes step: "table_step t t'" and ok: "pins_ok t"
  shows "pins_ok t'"
proof (rule table_step_preserves [where P = pins_ok, OF step ok])
  note I = pins_okI [OF ok] and K = pins_okI [OF ok _ keeps_pins]
  fix target :: route_target and ttft elapsed attempt streak hint jitter now m cooldown tag and g :: inflight_guard
  show "pins_ok (note_success target ttft elapsed t)"
    by (rule K) (simp_all add: note_success_def Let_def split: option.split)
  show "pins_ok (fst (snd (note_rate_limited target attempt streak hint jitter now t m)))"
    by (rule K) (simp_all add: table_eqs Let_def)
  show "pins_ok (fst (snd (note_transient_failure target attempt hint jitter now t m)))"
    by (rule K) (simp_all add: table_eqs Let_def)
  show "pins_ok (note_quota_exhausted target cooldown now t)"
    by (rule I) (auto simp: note_quota_exhausted_def break_affinity_for_group_def Let_def)
  show "pins_ok (note_authentication_failure target t)"
    by (rule I) (auto simp: note_authentication_failure_def break_affinity_for_route_def)
  show "pins_ok (note_model_missing target now t)"
    by (rule I) (auto simp: note_model_missing_def break_affinity_for_route_def Let_def)
  show "pins_ok (note_session_route tag target now t)" by (rule pins_session [OF ok])
  show "pins_ok (fst (break_affinity tag t m))"
  proof (cases "tag = [] \<or> tag = sess_none \<or> map_of (t_affinity t) tag = None")
    case True
    with ok show ?thesis by (simp add: break_affinity_def)
  next
    case False
    then show ?thesis by (intro I) (auto simp: break_affinity_def al_remove_def)
  qed
  show "pins_ok (snd (begin_attempt target t))" by (rule K) (simp_all add: table_eqs Let_def)
  show "pins_ok (snd (release_probe g t))" by (rule K) (simp_all add: release_probe_def split: option.split)
  show "pins_ok (drop_guard g t)" by (rule K) (simp_all add: drop_guard_def Let_def split: option.split)
qed (rule pins_forgets [OF _ ok])

lemma pins_new: "pins_ok (new_table c)"
  by (simp add: pins_ok_def new_table_def route_config_of_def)

section \<open>What never changes\<close>

definition identities :: "route_table \<Rightarrow> (nat \<times> string \<times> string \<times> string) list" where
  "identities t = map (\<lambda>k. (ke_index k, ke_name k, ke_api_key k, ke_group k)) (t_keys t)"

definition static :: "route_table \<Rightarrow> (nat \<times> string \<times> string \<times> string) list \<times> route_config \<times> profiles" where
  "static t = (identities t, t_config t, t_profiles t)"

lemma identities_map_key_state [simp]: "identities (map_key_state i f t) = identities t"
  by (auto simp: identities_def map_key_state_def list_eq_iff_nth_eq nth_list_update)

lemma identities_update [simp]:
  "identities (update_model m e t) = identities t" "identities (update_route r f t) = identities t"
  "identities (update_group g h t) = identities t" "identities (break_affinity_where P t) = identities t"
  "identities (cool_group_keys g u t) = identities t" "identities (clear_all_keys now t) = identities t"
  by (auto simp: identities_def cool_group_keys_def clear_all_keys_def)

lemma identities_frame [simp]:
  "identities (t\<lparr>t_models := a\<rparr>) = identities t" "identities (t\<lparr>t_routes := b\<rparr>) = identities t"
  "identities (t\<lparr>t_groups := c\<rparr>) = identities t" "identities (t\<lparr>t_affinity := d\<rparr>) = identities t"
  "identities (t\<lparr>t_round_robin := r\<rparr>) = identities t" "identities (t\<lparr>t_affinity_breaks := x\<rparr>) = identities t"
  by (simp_all add: identities_def)

lemma static_forgets: "forgets t u \<Longrightarrow> static u = static t"
  by (induction rule: forgets.induct) (simp_all add: static_def, simp add: clear_all_keys_def)

lemma static_step:
  assumes step: "table_step t t'"
  shows "static t' = static t"
proof (rule table_step_preserves [where P = "\<lambda>u. static u = static t", OF step refl])
  fix target :: route_target and ttft elapsed attempt streak hint jitter now m cooldown tag and g :: inflight_guard
  show "static (note_success target ttft elapsed t) = static t"
    by (simp add: static_def note_success_def Let_def split: option.split)
  show "static (fst (snd (note_rate_limited target attempt streak hint jitter now t m))) = static t"
    by (simp add: static_def table_eqs Let_def)
  show "static (fst (snd (note_transient_failure target attempt hint jitter now t m))) = static t"
    by (simp add: static_def table_eqs Let_def)
  show "static (note_quota_exhausted target cooldown now t) = static t"
    by (simp add: static_def note_quota_exhausted_def break_affinity_for_group_def Let_def)
  show "static (note_authentication_failure target t) = static t"
    by (simp add: static_def note_authentication_failure_def break_affinity_for_route_def)
  show "static (note_model_missing target now t) = static t"
    by (simp add: static_def note_model_missing_def break_affinity_for_route_def Let_def)
  show "static (note_session_route tag target now t) = static t"
    by (simp add: static_def note_session_route_def Let_def)
  show "static (fst (break_affinity tag t m)) = static t" by (simp add: static_def break_affinity_def)
  show "static (snd (begin_attempt target t)) = static t" by (simp add: static_def table_eqs Let_def)
  show "static (snd (release_probe g t)) = static t" by (simp add: static_def release_probe_def split: option.split)
  show "static (drop_guard g t) = static t" by (simp add: static_def drop_guard_def Let_def split: option.split)
qed (rule static_forgets)

section \<open>A rejected credential stays rejected\<close>

definition rejected :: "route_table \<Rightarrow> nat \<Rightarrow> bool" where
  "rejected t i = (case key_entry_at t i of Some e \<Rightarrow> ks_unusable (ke_state e) | None \<Rightarrow> False)"

lemma rejected_map_key_state:
  assumes "\<And>s. ks_unusable s \<Longrightarrow> ks_unusable (f s)" and "rejected t i"
  shows "rejected (map_key_state j f t) i"
  using assms by (auto simp: rejected_def key_entry_at_def map_key_state_def nth_list_update split: if_splits)

lemma rejected_frame [simp]:
  "rejected (update_model m e t) = rejected t" "rejected (update_route r f t) = rejected t"
  "rejected (update_group g h t) = rejected t" "rejected (break_affinity_where P t) = rejected t"
  "rejected (t\<lparr>t_models := a\<rparr>) = rejected t" "rejected (t\<lparr>t_routes := b\<rparr>) = rejected t"
  "rejected (t\<lparr>t_groups := c\<rparr>) = rejected t" "rejected (t\<lparr>t_affinity := d\<rparr>) = rejected t"
  "rejected (t\<lparr>t_round_robin := n\<rparr>) = rejected t" "rejected (t\<lparr>t_affinity_breaks := x\<rparr>) = rejected t"
  by (simp_all add: rejected_def key_entry_at_def fun_eq_iff)

lemma rejected_map_keys:
  assumes "\<And>k. ks_unusable (ke_state k) \<Longrightarrow> ks_unusable (ke_state (h k))" and "rejected t i"
  shows "rejected (t\<lparr>t_keys := map h (t_keys t)\<rparr>) i"
  using assms by (auto simp: rejected_def key_entry_at_def split: if_splits)

lemma rejected_forgets: "forgets t u \<Longrightarrow> rejected t i \<Longrightarrow> rejected u i"
proof (induction rule: forgets.induct)
  case (key t u j now)
  then show ?case by (intro rejected_map_key_state) simp_all
next
  case (all_keys t u now)
  then show ?case unfolding clear_all_keys_def by (intro rejected_map_keys) simp_all
qed simp_all

lemma success_key_unusable [simp]: "ks_unusable (success_key ttft elapsed s) = ks_unusable s"
  by (simp add: success_key_def Let_def split: option.split)

lemma rejected_step:
  assumes step: "table_step t t'" and ok: "rejected t i"
  shows "rejected t' i"
proof (rule table_step_preserves [where P = "\<lambda>u. rejected u i", OF step ok])
  fix target :: route_target and ttft elapsed attempt streak hint jitter now m cooldown tag and g :: inflight_guard
  note K = rejected_map_key_state [OF _ ok]
  show "rejected (note_success target ttft elapsed t) i"
    by (auto simp: note_success_def Let_def intro: K split: option.split)
  show "rejected (fst (snd (note_rate_limited target attempt streak hint jitter now t m))) i"
    by (auto simp: table_eqs Let_def intro: K)
  show "rejected (fst (snd (note_transient_failure target attempt hint jitter now t m))) i"
    using ok by (auto simp: table_eqs Let_def intro: K)
  show "rejected (note_quota_exhausted target cooldown now t) i"
    unfolding note_quota_exhausted_def break_affinity_for_group_def Let_def rejected_frame cool_group_keys_def
    by (intro rejected_map_keys) (simp_all add: ok)
  show "rejected (note_authentication_failure target t) i"
    by (auto simp: note_authentication_failure_def break_affinity_for_route_def intro: K)
  show "rejected (note_model_missing target now t) i"
    by (simp add: note_model_missing_def break_affinity_for_route_def Let_def ok)
  show "rejected (note_session_route tag target now t) i" by (simp add: note_session_route_def Let_def ok)
  show "rejected (fst (break_affinity tag t m)) i" by (simp add: break_affinity_def ok)
  show "rejected (snd (begin_attempt target t)) i"
    unfolding table_eqs Let_def by (intro rejected_map_key_state) (simp_all add: ok)
  show "rejected (snd (release_probe g t)) i" by (simp add: release_probe_def ok split: option.split)
  show "rejected (drop_guard g t) i" by (auto simp: drop_guard_def Let_def intro: K split: option.split)
qed (rule rejected_forgets [OF _ ok])

interpretation rej: preserved table_step "\<lambda>t. rejected t i" for i
  by unfold_locales (rule rejected_step)

interpretation sta: preserved table_step "\<lambda>t. static t = s" for s
  by unfold_locales (auto dest: static_step)

interpretation mok: preserved table_step models_ok
  by unfold_locales (rule models_ok_step)

interpretation pin: preserved table_step pins_ok
  by unfold_locales (rule pins_step)

lemmas rejected_steps = rej.run_inv

lemma static_steps: "table_step\<^sup>*\<^sup>* t t' \<Longrightarrow> static t' = static t"
  by (rule sta.run_inv) simp_all

section \<open>Evidence is history\<close>

text \<open>A run that records every failure report: model, hash of the quota group, instant.\<close>

inductive traced :: "config \<Rightarrow> (string \<times> 64 word \<times> instant) list \<Rightarrow> route_table \<Rightarrow> bool" where
  start: "traced c [] (new_table c)"
| calm: "traced c H t \<Longrightarrow> calm_step t t' \<Longrightarrow> traced c H t'"
| rate_limited: "traced c H t \<Longrightarrow> note_rate_limited target attempt streak hint jitter now t m = (d, t', m')
    \<Longrightarrow> traced c ((rt_model target, hash_name (rt_quota_group target), now) # H) t'"
| transient: "traced c H t \<Longrightarrow> note_transient_failure target attempt hint jitter now t m = (d, t', m')
    \<Longrightarrow> traced c ((rt_model target, hash_name (rt_quota_group target), now) # H) t'"

lemma traced_reachable: "traced c H t \<Longrightarrow> reachable c t"
  unfolding reachable_def
  by (induction rule: traced.induct) (auto intro: rtranclp.rtrancl_into_rtrancl table_step.intros)

definition evidenced :: "(string \<times> 64 word \<times> instant) list \<Rightarrow> route_table \<Rightarrow> bool" where
  "evidenced H t = (\<forall>m. Pair m ` set (me_failing_groups (or_default (t_models t m))) \<subseteq> set H)"

lemma evidencedI:
  assumes "evidenced H t" "set H \<subseteq> set H'"
    and "\<And>m. t_models t' m = t_models t m \<or>
      Pair m ` set (me_failing_groups (or_default (t_models t' m))) \<subseteq> set H'"
  shows "evidenced H' t'"
proof -
  have "Pair m ` set (me_failing_groups (or_default (t_models t' m))) \<subseteq> set H'" for m
  proof (cases "t_models t' m = t_models t m")
    case True
    have "Pair m ` set (me_failing_groups (or_default (t_models t m))) \<subseteq> set H"
      using assms(1) by (simp add: evidenced_def)
    then show ?thesis unfolding True using assms(2) by (rule order_trans)
  next
    case False
    with assms(3) [of m] show ?thesis by (elim disjE) (erule notE)
  qed
  then show ?thesis by (simp add: evidenced_def)
qed

lemma failing_refresh [simp]: "me_failing_groups (refresh_model now e) = me_failing_groups e"
  by (simp add: refresh_model_def refresh_circuit_def refresh_missing_def)

lemma failing_success: "set (me_failing_groups (success_model e)) \<subseteq> set (me_failing_groups e)"
  by (simp add: success_model_def close_model_circuit_def)

lemma failing_missing [simp]: "me_failing_groups (missing_entry cfg g now e) = me_failing_groups e"
  by (simp add: missing_entry_def Let_def)

lemma set_push_evidence: "set (push_evidence g now w ev) \<subseteq> insert (g, now) (set ev)"
  by (auto simp: push_evidence_def)

lemma failing_failure:
  "set (me_failing_groups (snd (record_failure_entry cfg g now e))) \<subseteq> insert (g, now) (set (me_failing_groups e))"
  using set_push_evidence [of g now "model_trip_window cfg" "me_failing_groups e"]
  by (cases "me_state e") (auto simp: record_failure_entry_def transition_model_circuit_def Let_def)

lemma evidenced_forgets: "forgets t u \<Longrightarrow> evidenced H t \<Longrightarrow> evidenced H u"
  by (induction rule: forgets.induct) (auto simp: evidenced_def clear_all_keys_def)

lemma evidenced_calm:
  assumes step: "calm_step t t'" and ok: "evidenced H t"
  shows "evidenced H t'"
proof (rule calm_step_preserves [where P = "evidenced H", OF step])
  note I = evidencedI [OF ok order_refl]
  have entry: "t_models t m = Some e \<Longrightarrow> Pair m ` set (me_failing_groups e) \<subseteq> set H" for m e
    using ok [unfolded evidenced_def, rule_format, of m] by simp
  have base: "Pair m ` set (me_failing_groups (or_default (t_models t m))) \<subseteq> set H" for m
    using ok by (simp add: evidenced_def)
  fix target :: route_target and ttft elapsed now m cooldown tag and g :: inflight_guard
  show "evidenced H (note_success target ttft elapsed t)"
  proof (rule I)
    fix m'
    show "t_models (note_success target ttft elapsed t) m' = t_models t m' \<or>
      Pair m' ` set (me_failing_groups (or_default (t_models (note_success target ttft elapsed t) m'))) \<subseteq> set H"
      using entry failing_success
      by (auto simp: note_success_def Let_def image_subset_iff subset_iff split: option.splits)
  qed
  show "evidenced H (note_quota_exhausted target cooldown now t)"
    by (rule I) (simp add: note_quota_exhausted_def break_affinity_for_group_def Let_def)
  show "evidenced H (note_authentication_failure target t)"
    by (rule I) (simp add: note_authentication_failure_def break_affinity_for_route_def)
  show "evidenced H (note_model_missing target now t)"
    by (rule I) (simp add: note_model_missing_def break_affinity_for_route_def Let_def base)
  show "evidenced H (note_session_route tag target now t)"
    by (rule I) (simp add: note_session_route_def Let_def)
  show "evidenced H (fst (break_affinity tag t m))" by (rule I) (simp add: break_affinity_def)
  show "evidenced H (snd (begin_attempt target t))"
    by (rule I) (simp add: begin_attempt_table Let_def base)
  show "evidenced H (snd (release_probe g t))"
    by (rule I) (auto simp: release_probe_def dest: entry split: option.split)
  show "evidenced H (drop_guard g t)"
    by (rule I) (auto simp: drop_guard_def Let_def dest: entry split: option.split)
qed (rule evidenced_forgets [OF _ ok])

lemma evidenced_failure:
  assumes ok: "evidenced H t"
    and "t_models t' = (t_models t)(m \<mapsto> snd (record_failure_entry cfg g now (or_default (t_models t m))))"
  shows "evidenced ((m, g, now) # H) t'"
proof -
  have "Pair m ` set (me_failing_groups (or_default (t_models t m))) \<subseteq> set H"
    using ok by (simp add: evidenced_def)
  with failing_failure [of cfg g now "or_default (t_models t m)"]
  have "Pair m ` set (me_failing_groups (snd (record_failure_entry cfg g now (or_default (t_models t m))))) \<subseteq> set ((m, g, now) # H)"
    by auto
  then show ?thesis using assms(2) by (intro evidencedI [OF ok]) auto
qed

lemma traced_evidenced: "traced c H t \<Longrightarrow> evidenced H t"
proof (induction rule: traced.induct)
  case (start c)
  then show ?case by (simp add: evidenced_def new_table_def)
next
  case (calm c H t t')
  then show ?case using evidenced_calm by blast
next
  case (rate_limited c H t target attempt streak hint jitter now m d t' m')
  then have "t' = fst (snd (note_rate_limited target attempt streak hint jitter now t m))" by simp
  with rate_limited.IH show ?case
    by (intro evidenced_failure [of H t _ _ "t_config t"]) (simp_all add: table_eqs Let_def)
next
  case (transient c H t target attempt hint jitter now m d t' m')
  then have "t' = fst (snd (note_transient_failure target attempt hint jitter now t m))" by simp
  with transient.IH show ?case
    by (intro evidenced_failure [of H t _ _ "t_config t"]) (simp_all add: table_eqs Let_def if_distrib [of t_models] cong: if_cong)
qed

end
