(* ===== verification/SendCalls.thy ===== *)
theory SendCalls
  imports Upstream RouterSteps
begin

text \<open>
  What one attempt does to the shared state, as two interfaces of the exchange of \<open>src/upstream.rs\<close>:
  with the router's table (locale \<open>table_calls\<close>), where a property that every call the outcome handlers
  make preserves is preserved by the handlers, by \<open>handle_exchange\<close> and by the follow-up decision (the
  two calls left out, \<open>begin_attempt\<close> and the drop of its guard, bracket the exchange); and with the
  metrics (locales \<open>router_counts\<close>, \<open>outcome_counts\<close> and \<open>metric_calls\<close>, each of which extends the one
  before), where a quantity that ignores the counters of the router, of the outcomes and of the
  follow-up decision is the same after each of these.
\<close>

section \<open>The calls of the table\<close>

locale table_calls =
  fixes P :: "route_table \<Rightarrow> bool"
  assumes calls:
    "plan spec tag skipped now now2 u m = (r, v, m') \<Longrightarrow> P u \<Longrightarrow> P v"
    "break_affinity tag u m = (v, m') \<Longrightarrow> P u \<Longrightarrow> P v"
    "usable_route_count now u = (n, v) \<Longrightarrow> P u \<Longrightarrow> P v"
    "earliest_retry_after now u = (w, v) \<Longrightarrow> P u \<Longrightarrow> P v"
    "note_rate_limited target attempt streak hint jitter now u m = (d, v, m') \<Longrightarrow> P u \<Longrightarrow> P v"
    "note_transient_failure target attempt hint jitter now u m = (d, v, m') \<Longrightarrow> P u \<Longrightarrow> P v"
    "release_probe g u = (g', v) \<Longrightarrow> P u \<Longrightarrow> P v"
    "P u \<Longrightarrow> P (note_success target ttft elapsed u)"
    "P u \<Longrightarrow> P (note_quota_exhausted target cooldown now u)"
    "P u \<Longrightarrow> P (note_authentication_failure target u)"
    "P u \<Longrightarrow> P (note_model_missing target now u)"
    "P u \<Longrightarrow> P (note_session_route tag target now u)"
begin

lemma followup_keeps:
  assumes "followup spec tag failed skipped now now2 u m = (r, v, m')" "P u"
  shows "P v"
proof -
  obtain u1 m1 where b: "break_affinity tag u m = (u1, m1)" by fastforce
  obtain q u2 m2 where p: "plan spec sess_none (insert (identity failed) skipped) now now2 u1 m1 = (q, u2, m2)"
    by (metis prod_cases3)
  from assms(1) have "v = u2" by (auto simp: followup_def b p split: plan_result.splits option.splits)
  then show ?thesis using calls(1) [OF p calls(2) [OF b assms(2)]] by simp
qed

lemma transient_keeps:
  assumes "transient target tag attempt hint e sh = (d, sh')" "P (sh_table sh)"
  shows "P (sh_table sh')"
proof -
  obtain d1 t1 m1 where n: "note_transient_failure target attempt hint (pseudo_jitter (e_nanos e)) (e_note e) (sh_table sh) (sh_metrics sh) = (d1, t1, m1)"
    by (metis prod_cases3)
  obtain t2 m2 where b: "break_affinity tag t1 m1 = (t2, m2)" by fastforce
  from assms(1) have "sh_table sh' = t2" by (auto simp: transient_def n b)
  then show ?thesis using calls(2) [OF b calls(6) [OF n assms(2)]] by simp
qed

lemma transient_failure_keeps:
  assumes "transient_failure status msg cls target tag attempt e sh = (f, sh')" "P (sh_table sh)"
  shows "P (sh_table sh')"
proof -
  obtain d sh1 where d: "transient target tag attempt None e (overload e sh) = (d, sh1)" by fastforce
  from assms(1) have "sh' = sh1" by (auto simp: transient_failure_def d)
  then show ?thesis using transient_keeps [OF d] assms(2) by (simp add: overload_def)
qed

lemma local_failure_keeps:
  "on_send_error err target tag attempt e sh = (f, sh') \<Longrightarrow> P (sh_table sh) \<Longrightarrow> P (sh_table sh')"
  "on_stream_failure oerr target tag attempt e sh = (f, sh') \<Longrightarrow> P (sh_table sh) \<Longrightarrow> P (sh_table sh')"
  "on_first_byte_timeout target tag attempt e sh = (f, sh') \<Longrightarrow> P (sh_table sh) \<Longrightarrow> P (sh_table sh')"
  "on_invalid_json target tag attempt e sh = (f, sh') \<Longrightarrow> P (sh_table sh) \<Longrightarrow> P (sh_table sh')"
  unfolding on_send_error_def on_stream_failure_def on_first_byte_timeout_def on_invalid_json_def
  by (drule transient_failure_keeps; simp add: count_transport_error_def)+

lemma on_success_keeps:
  assumes "on_success ttft elapsed target tag attempt e g sh = (g', sh')" "P (sh_table sh)"
  shows "P (sh_table sh')"
proof -
  define t2 where "t2 = (if attempt = 1 then note_session_route tag target (e_note e) (note_success target ttft elapsed (sh_table sh))
    else note_success target ttft elapsed (sh_table sh))"
  have "P t2" using assms(2) by (auto simp: t2_def intro: calls)
  moreover obtain g1 t3 where r: "release_probe g t2 = (g1, t3)" by fastforce
  moreover have "sh_table sh' = t3"
    using assms(1) unfolding on_success_def Let_def t2_def [symmetric] r by auto
  ultimately show ?thesis using calls(7) by metis
qed

lemma on_rate_limited_keeps:
  assumes "on_rate_limited ac target tag attempt e sh = (f, sh')" "P (sh_table sh)"
  shows "P (sh_table sh')"
proof -
  define fb where "fb = (case ac_hint ac of Some h \<Rightarrow> rh_source h = Fallback | None \<Rightarrow> False)"
  define m0 where "m0 = (sh_metrics sh)\<lparr>upstream_429_total := upstream_429_total (sh_metrics sh) + 1,
      model_account_429_total := model_account_429_total (sh_metrics sh) + 1\<rparr>"
  obtain d t1 m1 where n: "note_rate_limited target attempt (if fb then rate_limit_streak target (sh_table sh) else 0)
      (if fb then None else map_option rh_duration (ac_hint ac)) (pseudo_jitter (e_nanos e)) (e_note e) (sh_table sh) m0 = (d, t1, m1)"
    by (metis prod_cases3)
  obtain t2 m2 where b: "break_affinity tag t1 m1 = (t2, m2)" by fastforce
  from assms(1) have "sh_table sh' = t2"
    unfolding on_rate_limited_def Let_def fb_def [symmetric] m0_def [symmetric] n prod.case b by auto
  then show ?thesis using calls(2) [OF b calls(5) [OF n assms(2)]] by simp
qed

lemma on_quota_exhausted_keeps:
  assumes "on_quota_exhausted co ac target tag e sh = (f, sh')" "P (sh_table sh)"
  shows "P (sh_table sh')"
proof -
  define cd where "cd = cap_cooldown (case ac_hint ac of Some h \<Rightarrow> rh_duration h | None \<Rightarrow> from_secs 3600) (co_max_quota_cooldown co)"
  define m0 where "m0 = (sh_metrics sh)\<lparr>upstream_429_total := upstream_429_total (sh_metrics sh) + 1,
                  quota_exhaustion_total := quota_exhaustion_total (sh_metrics sh) + 1\<rparr>"
  obtain t2 m2 where b: "break_affinity tag (note_quota_exhausted target cd (e_note e) (sh_table sh)) m0 = (t2, m2)" by fastforce
  obtain n t3 where c: "usable_route_count (e_note e) t2 = (n, t3)" by fastforce
  from assms(1) have "sh_table sh' = t3"
    unfolding on_quota_exhausted_def Let_def cd_def [symmetric] m0_def [symmetric] b prod.case c by auto
  then show ?thesis using calls(3) [OF c calls(2) [OF b calls(9) [OF assms(2)]]] by simp
qed

lemma on_credential_rejected_keeps:
  assumes "on_credential_rejected ac target tag sh = (f, sh')" "P (sh_table sh)"
  shows "P (sh_table sh')"
proof -
  define t1 where "t1 = (if ac_class ac = Authentication then note_authentication_failure target (sh_table sh) else sh_table sh)"
  have s1: "P t1" using assms(2) by (simp add: t1_def calls)
  obtain t2 m2 where b: "break_affinity tag t1 (sh_metrics sh) = (t2, m2)" by fastforce
  from assms(1) have "sh_table sh' = t2"
    unfolding on_credential_rejected_def Let_def t1_def [symmetric] b by (auto simp: neutral_def)
  then show ?thesis using calls(2) [OF b s1] by simp
qed

lemma on_not_found_keeps:
  assumes "on_not_found ac target tag e sh = (f, sh')" "P (sh_table sh)"
  shows "P (sh_table sh')"
proof -
  obtain t2 m2 where b: "break_affinity tag (note_model_missing target (e_note e) (sh_table sh)) (sh_metrics sh) = (t2, m2)" by fastforce
  from assms(1) have "sh_table sh' = t2" by (auto simp: on_not_found_def b neutral_def)
  then show ?thesis using calls(2) [OF b calls(11) [OF assms(2)]] by simp
qed

lemma on_error_answer_keeps:
  assumes "on_error_answer co ac target tag attempt e sh = (f, sh')" "P (sh_table sh)"
  shows "P (sh_table sh')"
proof -
  have server: "P (sh_table sh')" if s: "on_server_error ac target tag attempt e sh = (f, sh')"
  proof -
    define sh1 where "sh1 = sh\<lparr>sh_metrics := (sh_metrics sh)\<lparr>upstream_5xx_total := upstream_5xx_total (sh_metrics sh) + 1\<rparr>\<rparr>"
    obtain d sh2 where d: "transient target tag attempt (map_option rh_duration (ac_hint ac)) e (overload e sh1) = (d, sh2)" by fastforce
    have "sh' = sh2" using s by (auto simp: on_server_error_def Let_def sh1_def [symmetric] d)
    then show ?thesis using transient_keeps [OF d] assms(2) by (simp add: overload_def sh1_def)
  qed
  have invalid: "P (sh_table sh')" if s: "on_invalid_request co ac target tag attempt e sh = (f, sh')"
  proof -
    obtain d sh2 where d: "transient target tag attempt None e (neutral sh) = (d, sh2)" by fastforce
    have "sh' = sh2 \<or> sh' = neutral sh" using s by (auto simp: on_invalid_request_def d split: if_splits)
    then show ?thesis using transient_keeps [OF d] assms(2) by (auto simp: neutral_def)
  qed
  show ?thesis using assms server invalid
      on_rate_limited_keeps [of ac target tag attempt e sh f sh'] on_quota_exhausted_keeps [of co ac target tag e sh f sh']
      on_credential_rejected_keeps [of ac target tag sh f sh'] on_not_found_keeps [of ac target tag e sh f sh']
    by (cases "ac_class ac") (auto simp: on_error_answer_def neutral_def)
qed

lemma handle_exchange_keeps:
  assumes "handle_exchange co rq target attempt e g x sh = (r, g', sh')" "P (sh_table sh)"
  shows "P (sh_table sh')"
proof -
  note failing = local_failure_keeps [OF _ assms(2)] on_error_answer_keeps [OF _ assms(2)]
  have ok: "P (sh_table sh')" if "on_success ttft el target (rq_tag rq) attempt e g sh1 = (g', sh')"
    "sh_table sh1 = sh_table sh" for ttft el sh1
    using on_success_keeps [OF that(1)] that(2) assms(2) by simp
  show ?thesis using assms(1) unfolding handle_exchange_def Let_def
    by (auto split: exchange.splits if_splits first_byte.splits prod.splits intro: failing ok)
qed

lemma next_attempt_keeps:
  "next_attempt co spec tag failed skipped sr attempt cd e sh = (n, sr', sh') \<Longrightarrow> P (sh_table sh) \<Longrightarrow> P (sh_table sh')"
  by (cases "followup spec tag failed skipped (e_follow e) (e_follow_target e) (sh_table sh) (sh_metrics sh)")
    (auto simp: next_attempt_def dest: followup_keeps split: if_splits option.splits followup.splits)

lemma next_attempt_group_keeps:
  assumes "next_attempt_group co spec tag failed skipped attempt e sh = (n, sh')" "P (sh_table sh)"
  shows "P (sh_table sh')"
proof -
  obtain r u m where p: "plan spec tag (insert (identity failed) skipped) (e_follow e) (e_follow_target e) (sh_table sh) (sh_metrics sh) = (r, u, m)"
    by (metis prod_cases3)
  show ?thesis using assms calls(1) [OF p assms(2)]
    by (auto simp: next_attempt_group_def p split: if_splits plan_result.splits)
qed

lemma next_attempt_model_keeps:
  assumes "next_attempt_model co spec tag failed skipped attempt e sh = (n, sh')" "P (sh_table sh)"
  shows "P (sh_table sh')"
proof -
  obtain r u m where p: "plan spec tag skipped (e_follow e) (e_follow_target e) (sh_table sh) (sh_metrics sh) = (r, u, m)"
    by (metis prod_cases3)
  show ?thesis using assms calls(1) [OF p assms(2)]
    by (auto simp: next_attempt_model_def p Let_def split: if_splits plan_result.splits)
qed

lemma follow_up_keeps:
  "follow_up co rq target skipped sr attempt e rule sh = (n, sr', sh') \<Longrightarrow> P (sh_table sh) \<Longrightarrow> P (sh_table sh')"
  by (auto simp: follow_up_def split: retry_rule.splits prod.splits
      dest: next_attempt_keeps next_attempt_group_keeps next_attempt_model_keeps)

lemma route_unavailable_keeps: "route_unavailable co w now sh = (r, sh') \<Longrightarrow> P (sh_table sh) \<Longrightarrow> P (sh_table sh')"
  by (cases "usable_route_count now (sh_table sh)") (auto simp: route_unavailable_def split: option.splits dest: calls(3))

end

section \<open>What an attempt counts\<close>

text \<open>The counters the router writes; any value may be written.\<close>

locale router_counts =
  fixes Q :: "metrics \<Rightarrow> 'a"
  assumes router_counted [simp]:
    "Q (m\<lparr>model_circuit_open_total := w\<rparr>) = Q m"
    "Q (m\<lparr>affinity_hits_total := w\<rparr>) = Q m"
    "Q (m\<lparr>affinity_breaks_total := w\<rparr>) = Q m"
    "Q (m\<lparr>tier_steps_total := w\<rparr>) = Q m"
    "Q (m\<lparr>health_excluded_total := w\<rparr>) = Q m"
begin

lemma choose_route_keeps: "choose_route tier aff now2 s t m = (r, t', m') \<Longrightarrow> Q m' = Q m"
  by (auto simp: choose_route_def Let_def split: prod.splits option.splits if_splits)

lemma plan_tiers_keeps:
  "plan_tiers skipped aff lat lower now now2 tier cfgs gate w t m = (r, t', m') \<Longrightarrow> Q m' = Q m"
proof (induction cfgs arbitrary: tier gate w t)
  case (Cons cfg cfgs)
  obtain s u where s: "scan_tier skipped aff lat now gate (tier_models cfg) t = (s, u)" by fastforce
  show ?case
  proof (cases "sc_available s \<noteq> []")
    case True
    then show ?thesis using Cons(2) s by (auto dest: choose_route_keeps)
  next
    case False
    then show ?thesis using Cons s by (auto split: tier_availability.splits if_splits)
  qed
qed simp

lemma plan_keeps: "plan spec tag sk now now2 t m = (r, t', m') \<Longrightarrow> Q m' = Q m"
  by (auto simp: plan_def dest: plan_tiers_keeps split: option.splits prod.splits)

lemma break_affinity_keeps: "break_affinity tag t m = (t', m') \<Longrightarrow> Q m' = Q m"
  by (auto simp: break_affinity_def split: if_splits)

lemma followup_keeps: "followup spec tag f sk now now2 t m = (r, t', m') \<Longrightarrow> Q m' = Q m"
  by (auto simp: followup_def dest!: plan_keeps break_affinity_keeps split: prod.splits)

lemma count_opening_keeps [simp]: "Q (count_opening tr m) = Q m"
  by (simp add: count_opening_def)

lemma note_rate_limited_keeps:
  "note_rate_limited target a s h j now t m = (d, t', m') \<Longrightarrow> Q m' = Q m"
  by (auto simp: note_rate_limited_def Let_def split: prod.splits)

lemma note_transient_keeps:
  "note_transient_failure target a h j now t m = (d, t', m') \<Longrightarrow> Q m' = Q m"
  by (auto simp: note_transient_failure_def Let_def split: prod.splits)

end

text \<open>
  Those of the attempts and their outcomes.  Some are only written together, each one up, and a
  quantity may depend on how they relate.
\<close>

locale outcome_counts = router_counts +
  assumes counted [simp]:
    "Q (m\<lparr>upstream_5xx_total := w\<rparr>) = Q m"
    "Q (m\<lparr>upstream_transport_errors_total := w\<rparr>) = Q m"
    "Q (m\<lparr>retries_total := w\<rparr>) = Q m"
    "Q (m\<lparr>cross_group_failovers_total := w\<rparr>) = Q m"
    "Q (m\<lparr>route_failovers_total := w\<rparr>) = Q m"
    "Q (m\<lparr>routing_exhausted_total := w\<rparr>) = Q m"
    "Q (m\<lparr>time_to_first_event_us_total := w\<rparr>) = Q m"
    "Q (m\<lparr>time_to_first_event_samples := w\<rparr>) = Q m"
  and counted_together [simp]:
    "a = route_attempts_total m + 1 \<Longrightarrow> b = upstream_requests_total m + 1 \<Longrightarrow>
      Q (m\<lparr>route_attempts_total := a, upstream_requests_total := b\<rparr>) = Q m"
    "a = upstream_429_total m + 1 \<Longrightarrow> b = model_account_429_total m + 1 \<Longrightarrow>
      Q (m\<lparr>upstream_429_total := a, model_account_429_total := b\<rparr>) = Q m"
    "a = upstream_429_total m + 1 \<Longrightarrow> b = quota_exhaustion_total m + 1 \<Longrightarrow>
      Q (m\<lparr>upstream_429_total := a, quota_exhaustion_total := b\<rparr>) = Q m"
begin

lemma next_attempt_keeps: "next_attempt co spec tag f sk sr a c e sh = (n, sr', sh') \<Longrightarrow> Q (sh_metrics sh') = Q (sh_metrics sh)"
  by (auto simp: next_attempt_def dest!: followup_keeps split: if_splits prod.splits option.splits followup.splits)

lemma next_attempt_group_keeps: "next_attempt_group co spec tag f sk a e sh = (n, sh') \<Longrightarrow> Q (sh_metrics sh') = Q (sh_metrics sh)"
  by (auto simp: next_attempt_group_def dest!: plan_keeps split: if_splits prod.splits plan_result.splits)

lemma route_unavailable_keeps: "route_unavailable co w now sh = (r, sh') \<Longrightarrow> Q (sh_metrics sh') = Q (sh_metrics sh)"
  by (auto simp: route_unavailable_def split: option.splits)

lemma transient_keeps: "transient target tag a hint e sh = (c, sh') \<Longrightarrow> Q (sh_metrics sh') = Q (sh_metrics sh)"
  by (auto simp: transient_def dest!: note_transient_keeps break_affinity_keeps split: prod.splits)

lemma shared_keeps [simp]:
  "Q (sh_metrics (overload e sh)) = Q (sh_metrics sh)" "Q (sh_metrics (neutral sh)) = Q (sh_metrics sh)" "Q (sh_metrics (count_transport_error sh)) = Q (sh_metrics sh)"
  "Q (sh_metrics (sh\<lparr>sh_table := t\<rparr>)) = Q (sh_metrics sh)" "Q (sh_metrics (sh\<lparr>sh_circuit := c\<rparr>)) = Q (sh_metrics sh)"
  by (simp_all add: overload_def neutral_def count_transport_error_def)

lemma transient_failure_keeps: "transient_failure st msg cls target tag a e sh = (f, sh') \<Longrightarrow> Q (sh_metrics sh') = Q (sh_metrics sh)"
  by (auto simp: transient_failure_def dest!: transient_keeps split: prod.splits)

lemma rate_limited_keeps: "on_rate_limited ac target tag a e sh = (f, sh') \<Longrightarrow> Q (sh_metrics sh') = Q (sh_metrics sh)"
  by (auto simp: on_rate_limited_def Let_def dest!: note_rate_limited_keeps break_affinity_keeps split: prod.splits)

lemma quota_keeps: "on_quota_exhausted co ac target tag e sh = (f, sh') \<Longrightarrow> Q (sh_metrics sh') = Q (sh_metrics sh)"
  by (auto simp: on_quota_exhausted_def Let_def dest!: break_affinity_keeps split: prod.splits)

lemma credential_keeps: "on_credential_rejected ac target tag sh = (f, sh') \<Longrightarrow> Q (sh_metrics sh') = Q (sh_metrics sh)"
  by (auto simp: on_credential_rejected_def neutral_def Let_def dest!: break_affinity_keeps split: prod.splits)

lemma not_found_keeps: "on_not_found ac target tag e sh = (f, sh') \<Longrightarrow> Q (sh_metrics sh') = Q (sh_metrics sh)"
  by (auto simp: on_not_found_def neutral_def Let_def dest!: break_affinity_keeps split: prod.splits)

lemma server_error_keeps: "on_server_error ac target tag a e sh = (f, sh') \<Longrightarrow> Q (sh_metrics sh') = Q (sh_metrics sh)"
  by (auto simp: on_server_error_def Let_def dest!: transient_keeps split: prod.splits)

lemma invalid_request_keeps: "on_invalid_request co ac target tag a e sh = (f, sh') \<Longrightarrow> Q (sh_metrics sh') = Q (sh_metrics sh)"
  by (auto simp: on_invalid_request_def dest!: transient_keeps split: prod.splits if_splits)

lemma error_answer_keeps: "on_error_answer co ac target tag a e sh = (f, sh') \<Longrightarrow> Q (sh_metrics sh') = Q (sh_metrics sh)"
  by (auto simp: on_error_answer_def rate_limited_keeps quota_keeps credential_keeps not_found_keeps
      server_error_keeps invalid_request_keeps split: error_class.splits)

lemma on_success_keeps: "on_success t d target tag a e g sh = (g', sh') \<Longrightarrow> Q (sh_metrics sh') = Q (sh_metrics sh)"
  by (auto simp: on_success_def Let_def split: prod.splits)

lemma ttfe_keeps [simp]: "Q (note_time_to_first_event d m) = Q m"
  by (simp add: note_time_to_first_event_def)

lemma handle_exchange_keeps: "handle_exchange co rq target a e g x sh = (r, g', sh') \<Longrightarrow> Q (sh_metrics sh') = Q (sh_metrics sh)"
  by (cases x) (auto simp: handle_exchange_def on_send_error_def on_stream_failure_def on_first_byte_timeout_def
      on_invalid_json_def Let_def dest!: transient_failure_keeps on_success_keeps error_answer_keeps
      split: prod.splits if_splits first_byte.splits)

text \<open>A request that finds its budget spent.\<close>

lemma exhausted_keeps: "exhausted e prior sh = (r, sh') \<Longrightarrow> Q (sh_metrics sh') = Q (sh_metrics sh)"
  by (auto simp: exhausted_def Let_def split: option.splits prod.splits)

end

text \<open>The failover after a 404 has a pair of its own.\<close>

locale metric_calls = outcome_counts +
  assumes counted_failover [simp]:
    "a = model_failovers_total m + 1 \<Longrightarrow> b = cross_model_failovers_total m + 1 \<Longrightarrow>
      Q (m\<lparr>model_failovers_total := a, cross_model_failovers_total := b\<rparr>) = Q m"
begin

lemma next_attempt_model_keeps: "next_attempt_model co spec tag f sk a e sh = (n, sh') \<Longrightarrow> Q (sh_metrics sh') = Q (sh_metrics sh)"
  by (auto simp: next_attempt_model_def Let_def dest!: plan_keeps
      split: if_splits prod.splits plan_result.splits)

lemma follow_up_keeps: "follow_up co rq target sk sr a e rule sh = (n, sr', sh') \<Longrightarrow> Q (sh_metrics sh') = Q (sh_metrics sh)"
  by (auto simp: follow_up_def next_attempt_keeps next_attempt_group_keeps next_attempt_model_keeps
      split: retry_rule.splits prod.splits)

end

end
