(* ===== verification/PlanFacts.thy ===== *)
theory PlanFacts
  imports RouterSpec
begin

text \<open>
  The properties of planning: which tier, which route and which credential \<open>plan\<close> selects, what
  it reports when it selects none, and what it leaves of the health.  Each is read off
  \<open>plan_chosen\<close>/\<open>plan_outcome\<close>, the refinement of \<open>plan\<close> to its specification.
\<close>

section \<open>Evaluating the specification on the samples\<close>

definition sole :: "string \<Rightarrow> string \<Rightarrow> nat \<Rightarrow> nat \<Rightarrow> candidate" where
  "sole m g ordinal i = \<lparr>c_model = m, c_model_hash = hash_name m, c_group = g, c_group_hash = hash_name g,
     c_a_index = i, c_b_index = None, c_ordinal = (ordinal, i)\<rparr>"

lemma sole_sel [simp]:
  "c_model (sole m g n i) = m" "c_group (sole m g n i) = g" "c_model_hash (sole m g n i) = hash_name m"
  "c_group_hash (sole m g n i) = hash_name g" "c_a_index (sole m g n i) = i"
  "key_choices (sole m g n i) = [i]" "order_key (sole m g n i) = n"
  by (simp_all add: sole_def key_choices_def order_key_def)

lemmas gate_eval = dial_spec_def Let_def model_health_def refresh_model_def refresh_circuit_def
  refresh_missing_def view_of_model_def circuit_wait_def route_health_def group_health_def half_open_at_def
  remaining_def any_ready_def probe_spec_def key_is_ready_def key_entry_at_def key_wait_def

lemmas score_eval = chosen_spec_def score_def key_entry_at_def key_score_def Let_def sat_add_def
  order_def rank_def

text \<open>A route nothing was ever recorded about is ready.\<close>

lemma untouched_ready:
  assumes "t_models t (c_model c) = None" "t_routes t (c_route_id c) = None" "t_groups t (c_group c) = None"
    and "key_choices c = i # is" "key_is_ready i now t"
  shows "fst (dial_spec c now t) = Ready"
  using assms by (simp add: dial_spec_def Let_def model_health_def refresh_model_def refresh_circuit_def
      refresh_missing_def view_of_model_def circuit_wait_def route_health_def group_health_def
      half_open_at_def remaining_def any_ready_def probe_spec_def)

lemma table2_candidates:
  "tier_candidates table2 [m] = [sole m ''ga'' 0 0, sole m ''gb'' 0 1]"
  "tier_candidates table2 [m, n] = [sole m ''ga'' 0 0, sole m ''gb'' 0 1, sole n ''ga'' 1 0, sole n ''gb'' 1 1]"
  by (simp_all add: tier_candidates_def candidates_at_def by_group_def candidate_at_def Let_def table2_sel sole_def)

lemma table2_eligible:
  "i < 2 \<Longrightarrow> eligible skipped now table2 (sole m g n i) \<longleftrightarrow> (hash_name m, hash_name g, i) \<notin> skipped"
  using untouched_ready [of table2 "sole m g n i" i "[]" now]
  by (auto simp: eligible_def all_skipped_def table2_sel key_is_ready_def key_entry_at_def less_2_cases_iff)

lemma table2_chosen:
  "chosen_spec None lat table2 [sole m ''ga'' 0 0, sole m ''gb'' 0 1] = sole m ''ga'' 0 0"
  by (simp add: score_eval table2_sel)

lemma table2_target:
  "target_spec (sole m ''ga'' n 0) k now table2 = Some \<lparr>rt_model = m, rt_quota_group = ''ga'',
     rt_key = new_selected_key 0 ''a'' ''ga'' ''secret-a'', rt_tier = k\<rparr>"
  by (simp add: target_spec_def table2_sel key_is_ready_def key_entry_at_def)

lemma table2_pinned: "pinned tag now table2 = None"
  by (simp add: pinned_def affinity_route_def table2_sel)

text \<open>The identities of the first tier of the hard profile, all tried already.\<close>

definition tried_tier0 :: "identity set" where
  "tried_tier0 = {(hash_name m, hash_name g, i) |m g i. (m = ''glm-5.2'' \<or> m = ''deepseek-v4-pro'')
     \<and> (g = ''ga'' \<and> i = 0 \<or> g = ''gb'' \<and> i = 1)}"

lemma tried_mem:
  "(hash_name ''glm-5.2'', hash_name ''ga'', 0) \<in> tried_tier0" "(hash_name ''glm-5.2'', hash_name ''gb'', 1) \<in> tried_tier0"
  "(hash_name ''deepseek-v4-pro'', hash_name ''ga'', 0) \<in> tried_tier0" "(hash_name ''deepseek-v4-pro'', hash_name ''gb'', 1) \<in> tried_tier0"
  "(hash_name ''kimi-k3'', g, i) \<notin> tried_tier0"
  unfolding tried_tier0_def by (blast, blast, blast, blast, simp add: sample_hashes, fastforce simp: sample_hashes)

lemma sample_plan_any:
  "\<exists>p t' m'. plan (Literal ''glm-5.2'') tag {} 5 6 table2 m = (Planned p, t', m') \<and> p_target p =
    \<lparr>rt_model = ''glm-5.2'', rt_quota_group = ''ga'', rt_key = new_selected_key 0 ''a'' ''ga'' ''secret-a'', rt_tier = 0\<rparr>"
proof -
  have "choose_spec {} (pinned tag 5 table2) False False 5 table2 0 [\<lparr>tier_models = [''glm-5.2'']\<rparr>] None
      = Inr (0, sole ''glm-5.2'' ''ga'' 0 0)"
    by (simp add: Let_def tier_ready_def table2_candidates table2_eligible table2_pinned table2_chosen [simplified])
  from plan_exists [OF _ _ this table2_target, of "Literal ''glm-5.2''" 6 m] show ?thesis by fastforce
qed

lemmas sample_plan = sample_plan_any [of "''s''"]

text \<open>With the first tier of the hard profile tried, the plan steps down to the second.\<close>

lemma sample_step_down:
  "\<exists>p t' m'. plan (Profile hard_profile) ''s'' tried_tier0 5 6 table2 m = (Planned p, t', m')
    \<and> p_stepped_down p = 1 \<and> rt_model (p_target p) = ''kimi-k3''"
proof -
  let ?ts = "[\<lparr>tier_models = [''glm-5.2'', ''deepseek-v4-pro'']\<rparr>, \<lparr>tier_models = [''kimi-k3'']\<rparr>]"
  have w: "tier_wait_spec tried_tier0 5 table2 [''glm-5.2'', ''deepseek-v4-pro''] = None"
    by (simp add: tier_wait_spec_def table2_candidates wait_of_def all_skipped_def shortest_def
        tried_mem tried_mem(2,4) [simplified])
  have ts: "spec_tiers (t_profiles table2) (Profile hard_profile) = Some (?ts, False, True)"
    by (simp add: table2_sel builtin_profiles_def hard_profile_def fast_profile_def)
  have "choose_spec tried_tier0 (pinned ''s'' 5 table2) False True 5 table2 0 ?ts None
      = Inr (1, sole ''kimi-k3'' ''ga'' 0 0)"
    by (simp add: Let_def tier_ready_def table2_candidates table2_eligible table2_pinned w
        table2_chosen [simplified] tried_mem tried_mem(2,4) [simplified])
  from plan_exists [OF ts _ this table2_target, of 6 m] show ?thesis by fastforce
qed

section \<open>Which tier and which model\<close>

lemma plan_quality_isolation_core:
  assumes "plan spec tag skipped now now2 t m = (Planned p, t', m')" and "now \<le> now2"
  shows "\<exists>ts lat lower. spec_tiers (t_profiles t) spec = Some (ts, lat, lower)
    \<and> p_stepped_down p < length ts \<and> rt_tier (p_target p) = p_stepped_down p
    \<and> rt_model (p_target p) \<in> set (tier_models (ts ! p_stepped_down p))
    \<and> (\<forall>l. spec = Literal l \<longrightarrow> rt_model (p_target p) = l)"
proof -
  from plan_chosen [OF assms] obtain ts lat lower c where x: "spec_tiers (t_profiles t) spec = Some (ts, lat, lower)"
    "choose_spec skipped (pinned tag now t) lat lower now t 0 ts None = Inr (p_stepped_down p, c)"
    "target_spec c (p_stepped_down p) now2 t = Some (p_target p)" "p_stepped_down p < length ts" by metis
  from choose_spec_Inr [OF x(2)] have "c \<in> set (tier_ready skipped now t (tier_models (ts ! p_stepped_down p)))"
    using chosen_in_ready by auto
  then have "c_model c \<in> set (tier_models (ts ! p_stepped_down p))"
    using tier_candidates_facts(1) by (auto simp: tier_ready_def)
  moreover have "rt_model (p_target p) = c_model c" "rt_tier (p_target p) = p_stepped_down p"
    using target_spec_sel [OF x(3)] by simp_all
  ultimately have "rt_model (p_target p) \<in> set (tier_models (ts ! p_stepped_down p))" "rt_tier (p_target p) = p_stepped_down p"
    by simp_all
  moreover have "\<forall>l. spec = Literal l \<longrightarrow> rt_model (p_target p) = l"
    using x(1,4) calculation(1) by auto
  ultimately show ?thesis using x(1,4) by blast
qed

text \<open>Quality isolation.  Whatever the health, the affinity, the scores and the credentials
  already tried, a planned target's model is one the requested profile itself lists, in the tier
  that the plan reports; a literal model is never substituted.\<close>

theorem plan_quality_isolation:
  assumes "plan spec tag skipped now now2 t m = (Planned p, t', m')" and "now \<le> now2"
  shows "\<exists>ts lat lower. spec_tiers (t_profiles t) spec = Some (ts, lat, lower)
    \<and> p_stepped_down p < length ts \<and> rt_tier (p_target p) = p_stepped_down p
    \<and> rt_model (p_target p) \<in> set (tier_models (ts ! p_stepped_down p))
    \<and> (\<forall>l. spec = Literal l \<longrightarrow> rt_model (p_target p) = l)"
  using assms by (rule plan_quality_isolation_core)

theorem plan_quality_isolation_witness:
  "\<exists>p t' m'. plan (Profile hard_profile) ''s'' tried_tier0 5 6 table2 new_metrics = (Planned p, t', m')
    \<and> rt_model (p_target p) \<in> set [''kimi-k3'']"
proof -
  obtain p t' m' where p: "plan (Profile hard_profile) ''s'' tried_tier0 5 6 table2 new_metrics = (Planned p, t', m')"
    "p_stepped_down p = 1" using sample_step_down by blast
  from plan_quality_isolation [OF p(1)] p(2) have "rt_model (p_target p) \<in> set [''kimi-k3'']"
    by (auto simp: table2_sel builtin_profiles_def hard_profile_def fast_profile_def)
  with p show ?thesis by blast
qed



section \<open>Which route and which credential\<close>

text \<open>The route a target stands for passed every health gate at the planning instant.\<close>

definition route_healthy :: "instant \<Rightarrow> route_table \<Rightarrow> route_target \<Rightarrow> bool" where
  "route_healthy now t r =
     (let v = model_health (rt_model r) now t; rs = or_default (t_routes t (route_id r))
      in \<not> mv_disabled v \<and> circuit_wait (rt_model r) now t = None
         \<and> clear (rs_disabled_until rs) now = None \<and> group_health (rt_quota_group r) now t = None
         \<and> (if half_open_at (rt_model r) now t then \<not> mv_probe_in_flight v
             else clear (rs_cooling_until rs) now = None))"

text \<open>The credential of a target is an entry of the table that is usable at an instant.\<close>

definition key_usable :: "instant \<Rightarrow> route_table \<Rightarrow> route_target \<Rightarrow> bool" where
  "key_usable now t r = list_ex (\<lambda>e. ke_index e = sk_index (rt_key r) \<and> ke_name e = sk_name (rt_key r)
      \<and> ke_api_key e = sk_api_key (rt_key r) \<and> ke_group e = sk_quota_group (rt_key r)
      \<and> \<not> ks_unusable (ke_state e) \<and> clear (ks_cooling_until (ke_state e)) now = None) (t_keys t)"

lemma plan_target_healthy_core:
  assumes "plan spec tag skipped now now2 t m = (Planned p, t', m')" and "now \<le> now2"
  shows "route_healthy now t (p_target p) \<and> key_usable now2 t (p_target p)"
proof -
  from plan_chosen [OF assms] obtain ts lat lower c where x:
    "choose_spec skipped (pinned tag now t) lat lower now t 0 ts None = Inr (p_stepped_down p, c)"
    "target_spec c (p_stepped_down p) now2 t = Some (p_target p)" by metis
  from choose_spec_Inr [OF x(1)] have "c \<in> set (tier_ready skipped now t (tier_models (ts ! p_stepped_down p)))"
    using chosen_in_ready by auto
  then have ready: "fst (dial_spec c now t) = Ready"
    and cand: "c \<in> set (tier_candidates t (tier_models (ts ! p_stepped_down p)))"
    by (auto simp: tier_ready_def eligible_def)
  note r = dial_spec_Ready [OF ready] and f = tier_candidates_facts [OF cand]
  have rid: "route_id (p_target p) = c_route_id c"
    using target_spec_sel [OF x(2)] f(2,3) by (simp add: route_id_def c_route_id_def)
  have "route_healthy now t (p_target p)"
    using r(2-7) target_spec_sel [OF x(2)]
    by (simp add: route_healthy_def Let_def rid route_health_def remaining_eq_None)
  moreover from target_spec_ready [OF r(1) assms(2), of "p_stepped_down p"] x(2) obtain i e
    where k: "key_is_ready i now2 t" "key_entry_at t i = Some e"
      "rt_key (p_target p) = new_selected_key (ke_index e) (ke_name e) (ke_group e) (ke_api_key e)" by auto
  then have "e \<in> set (t_keys t)" by (auto simp: key_entry_at_def split: if_splits)
  with k have "key_usable now2 t (p_target p)"
    by (auto simp: key_usable_def list_ex_iff new_selected_key_def key_is_ready_def)
  ultimately show ?thesis ..
qed

text \<open>C8: Health.  A planned target's model is neither missing nor circuit-open, its route is not
  disabled and not cooling (unless it is the single half-open probe), its quota group is not
  cooling, and its credential is neither unusable nor cooling when it is picked.\<close>

theorem plan_target_healthy:
  assumes "plan spec tag skipped now now2 t m = (Planned p, t', m')" and "now \<le> now2"
  shows "route_healthy now t (p_target p) \<and> key_usable now2 t (p_target p)"
  using assms by (rule plan_target_healthy_core)

theorem plan_target_healthy_witness:
  "\<exists>p t' m'. plan (Literal ''glm-5.2'') ''s'' {} 5 6 table2 new_metrics = (Planned p, t', m')
    \<and> route_healthy 5 table2 (p_target p) \<and> key_usable 6 table2 (p_target p)"
proof -
  obtain p t' m' where p: "plan (Literal ''glm-5.2'') ''s'' {} 5 6 table2 new_metrics = (Planned p, t', m')"
    using sample_plan by blast
  from plan_target_healthy [OF p] p show ?thesis by auto
qed

text \<open>C29: Selection.  Among the dialable routes of the chosen tier, the session's pinned route
  comes first; otherwise no route has a lower score (load, streak and, for a latency-optimised
  profile, observed latency) than the chosen one.\<close>

theorem plan_selects_minimum:
  assumes "plan spec tag skipped now now2 t m = (Planned p, t', m')" and "now \<le> now2"
    and "spec_tiers (t_profiles t) spec = Some (ts, lat, lower)"
  defines "ready \<equiv> tier_ready skipped now t (tier_models (ts ! p_stepped_down p))"
    and "aff \<equiv> pinned tag now t"
  shows "\<exists>c \<in> set ready. rt_model (p_target p) = c_model c \<and> rt_quota_group (p_target p) = c_group c
    \<and> (\<forall>d \<in> set ready. (aff \<noteq> Some (c_route_id c), score t c aff lat) \<le> (aff \<noteq> Some (c_route_id d), score t d aff lat))"
proof -
  from plan_chosen [OF assms(1,2)] assms(3) obtain c where x:
    "choose_spec skipped (pinned tag now t) lat lower now t 0 ts None = Inr (p_stepped_down p, c)"
    "target_spec c (p_stepped_down p) now2 t = Some (p_target p)" by (metis Pair_inject option.inject)
  from choose_spec_Inr [OF x(1)] have ne: "ready \<noteq> []" and c: "c = chosen_spec aff lat t ready"
    by (simp_all add: ready_def aff_def)
  have "c \<in> set ready" unfolding c by (rule chosen_in_ready [OF ne])
  moreover have "(aff \<noteq> Some (c_route_id c), score t c aff lat) \<le> (aff \<noteq> Some (c_route_id d), score t d aff lat)"
    if "d \<in> set ready" for d unfolding c by (rule chosen_minimal [OF that])
  ultimately show ?thesis using target_spec_sel [OF x(2)] by blast
qed

theorem plan_selects_minimum_witness:
  "\<exists>p t' m'. plan (Literal ''glm-5.2'') ''s'' {} 5 6 table2 new_metrics = (Planned p, t', m')
    \<and> list_ex (\<lambda>c. rt_quota_group (p_target p) = c_group c) (tier_ready {} 5 table2 [''glm-5.2''])"
proof -
  obtain p t' m' where p: "plan (Literal ''glm-5.2'') ''s'' {} 5 6 table2 new_metrics = (Planned p, t', m')"
    using sample_plan by blast
  have s: "p_stepped_down p = 0" using plan_chosen [OF p] by auto
  from plan_selects_minimum [OF p, of "[\<lparr>tier_models = [''glm-5.2'']\<rparr>]" False False] p s show ?thesis
    by (auto simp: list_ex_iff)
qed

section \<open>Totality, waiting, and what a plan leaves behind\<close>



text \<open>Waiting.  When \<open>plan\<close> selects nothing, no scanned tier had a dialable route that was
  not already tried; all tiers were scanned unless the profile forbids lower tiers and a tier
  is only temporarily unavailable; and the reported wait is the shortest over the scanned tiers.\<close>

theorem plan_waits:
  assumes "plan spec tag skipped now now2 t m = (Waitable w, t', m')" and "now \<le> now2"
    and "spec_tiers (t_profiles t) spec = Some (ts, lat, lower)"
  shows "\<exists>n \<le> length ts. (\<forall>j < n. tier_ready skipped now t (tier_models (ts ! j)) = [])
    \<and> w = fold (\<lambda>cfg acc. shortest acc (tier_wait_spec skipped now t (tier_models cfg))) (take n ts) None
    \<and> (n = length ts \<or> \<not> lower \<and> 0 < n \<and> tier_wait_spec skipped now t (tier_models (ts ! (n - 1))) \<noteq> None)"
proof -
  from plan_cases [OF assms] have "choose_spec skipped (pinned tag now t) lat lower now t 0 ts None = Inl w"
    by (cases) simp_all
  from choose_spec_Inl [OF this] show ?thesis .
qed

lemma sample_wait:
  "\<exists>t' m'. plan (Literal ''glm-5.2'') ''s'' tried_tier0 5 6 table2 m = (Waitable None, t', m')"
proof -
  obtain r t' m' where r: "plan (Literal ''glm-5.2'') ''s'' tried_tier0 5 6 table2 m = (r, t', m')" by (metis prod_cases3)
  have "choose_spec tried_tier0 (pinned ''s'' 5 table2) False False 5 table2 0 [\<lparr>tier_models = [''glm-5.2'']\<rparr>] None = Inl None"
    by (simp add: Let_def tier_ready_def table2_candidates table2_eligible tier_wait_spec_def wait_of_def
        all_skipped_def shortest_def tried_mem tried_mem(2) [simplified])
  with plan_outcome [OF r, of "[\<lparr>tier_models = [''glm-5.2'']\<rparr>]" False False] r show ?thesis by (auto simp: meets_def)
qed

theorem plan_waits_witness: "tier_ready tried_tier0 5 table2 [''glm-5.2''] = []"
proof -
  obtain t' m' where p: "plan (Literal ''glm-5.2'') ''s'' tried_tier0 5 6 table2 new_metrics = (Waitable None, t', m')"
    using sample_wait by blast
  from plan_waits [OF p, of "[\<lparr>tier_models = [''glm-5.2'']\<rparr>]" False False] obtain n
    where "n \<le> 1" "\<forall>j < n. tier_ready tried_tier0 5 table2 (tier_models ([\<lparr>tier_models = [''glm-5.2'']\<rparr>] ! j)) = []"
      "n = 1 \<or> 0 < n" by auto
  then show ?thesis by (cases n) auto
qed

text \<open>Planning is an observation.  Once expired deadlines are forgotten, the table after a
  plan differs from the one before only in the rotation counter and the session pins: planning
  never changes the health of a model, route, quota group or credential.\<close>

theorem plan_keeps_health:
  assumes "plan spec tag skipped now now2 t m = (r, t', m')" and "now \<le> now2"
  shows "\<exists>a n. settle now2 t' = settle now2 (t\<lparr>t_affinity := a, t_round_robin := n\<rparr>)"
proof (cases "spec_tiers (t_profiles t) spec")
  case None
  then have "t' = t" using assms(1) by (simp add: plan_def)
  then have "settle now2 t' = settle now2 (t\<lparr>t_affinity := t_affinity t, t_round_robin := t_round_robin t\<rparr>)" by simp
  then show ?thesis by blast
next
  case (Some x)
  then obtain ts lat lower where x: "spec_tiers (t_profiles t) spec = Some (ts, lat, lower)" by (cases x) auto
  show ?thesis
  proof (rule plan_cases [OF assms x])
    fix w a
    assume "settle now2 t' = settle now2 (t\<lparr>t_affinity := a\<rparr>)"
    then have "settle now2 t' = settle now2 (t\<lparr>t_affinity := a, t_round_robin := t_round_robin t\<rparr>)" by simp
    then show ?thesis by blast
  qed blast
qed

theorem plan_keeps_health_witness:
  "\<exists>r t' m'. plan (Profile hard_profile) ''s'' {} 5 6 table3 new_metrics = (r, t', m') \<and> t_config (settle 6 t') = t_config table3"
proof -
  obtain r t' m' where p: "plan (Profile hard_profile) ''s'' {} 5 6 table3 new_metrics = (r, t', m')" by (metis prod_cases3)
  from plan_keeps_health [OF this] obtain a n
    where e: "settle 6 t' = settle 6 (table3\<lparr>t_affinity := a, t_round_robin := n\<rparr>)" by auto
  show ?thesis using p arg_cong [OF e, of t_config] by auto
qed

section \<open>Credentials by position\<close>

text \<open>\<open>key_entry(index)\<close> is positional, but an entry's index is its place in the configuration; the
  two agree exactly when no disabled credential precedes an enabled one.\<close>

definition positional :: "route_table \<Rightarrow> bool" where
  "positional t = (map ke_index (t_keys t) = [0..<length (t_keys t)])"

lemma positional_entry:
  assumes "positional t" "i \<in> set (members g (t_keys t))" "key_entry_at t i = Some e"
  shows "ke_group e = g"
proof -
  from assms(2) obtain k where k: "k \<in> set (t_keys t)" "ke_index k = i" "ke_group k = g" by (auto simp: members_def)
  then obtain j where j: "j < length (t_keys t)" "t_keys t ! j = k" by (auto simp: in_set_conv_nth)
  have "ke_index (t_keys t ! j) = j" using assms(1) j(1) by (metis add_0 diff_zero nth_map nth_upt positional_def)
  with j k assms(3) show ?thesis by (simp add: key_entry_at_def)
qed

text \<open>With a positional table, a target dials its quota group with one of that group's own
  credentials.\<close>

theorem plan_key_of_group:
  assumes "plan spec tag skipped now now2 t m = (Planned p, t', m')" and "now \<le> now2" and "positional t"
  shows "sk_quota_group (rt_key (p_target p)) = rt_quota_group (p_target p)"
proof -
  from plan_chosen [OF assms(1,2)] obtain ts lat lower c where x:
    "choose_spec skipped (pinned tag now t) lat lower now t 0 ts None = Inr (p_stepped_down p, c)"
    "target_spec c (p_stepped_down p) now2 t = Some (p_target p)" by metis
  from choose_spec_Inr [OF x(1)] have "c \<in> set (tier_ready skipped now t (tier_models (ts ! p_stepped_down p)))"
    using chosen_in_ready by auto
  then have ready: "fst (dial_spec c now t) = Ready"
    and cand: "c \<in> set (tier_candidates t (tier_models (ts ! p_stepped_down p)))"
    by (auto simp: tier_ready_def eligible_def)
  from target_spec_ready [OF dial_spec_Ready(1) [OF ready] assms(2), of "p_stepped_down p"] x(2) obtain i e
    where k: "i \<in> set (key_choices c)" "key_entry_at t i = Some e"
      "rt_key (p_target p) = new_selected_key (ke_index e) (ke_name e) (ke_group e) (ke_api_key e)" by auto
  from k(1) tier_candidates_facts(6) [OF cand] have "i \<in> set (members (c_group c) (t_keys t))" by blast
  from positional_entry [OF assms(3) this k(2)] k(3) target_spec_sel(2) [OF x(2)]
  show ?thesis by (simp add: new_selected_key_def)
qed

theorem plan_key_of_group_witness:
  "\<exists>p t' m'. plan (Literal ''glm-5.2'') ''s'' {} 5 6 table2 new_metrics = (Planned p, t', m')
    \<and> sk_quota_group (rt_key (p_target p)) = rt_quota_group (p_target p)"
proof -
  obtain p t' m' where p: "plan (Literal ''glm-5.2'') ''s'' {} 5 6 table2 new_metrics = (Planned p, t', m')"
    using sample_plan by blast
  from plan_key_of_group [OF p] p show ?thesis by (auto simp: positional_def table2_sel)
qed

text \<open>With a disabled credential in front, the group \<open>ga\<close> is dialed with the credential of \<open>gb\<close>,
  and the group \<open>gb\<close> can never be dialed at all.\<close>

lemma gap_candidates:
  "tier_candidates table_gap [m] = [sole m ''ga'' 0 1, sole m ''gb'' 0 2]"
  by (simp add: tier_candidates_def candidates_at_def by_group_def candidate_at_def Let_def table_gap_sel sole_def)

lemma gap_wrong_credential:
  "\<exists>p t' m'. plan (Literal ''glm-5.2'') ''s'' {} 5 6 table_gap new_metrics = (Planned p, t', m')
    \<and> rt_quota_group (p_target p) = ''ga'' \<and> sk_quota_group (rt_key (p_target p)) = ''gb''
    \<and> sk_api_key (rt_key (p_target p)) = ''secret-b''"
proof -
  have r1: "eligible {} 5 table_gap (sole ''glm-5.2'' ''ga'' 0 (Suc 0))"
    using untouched_ready [of table_gap "sole ''glm-5.2'' ''ga'' 0 (Suc 0)" "Suc 0" "[]" 5]
    by (simp add: eligible_def all_skipped_def table_gap_sel key_is_ready_def key_entry_at_def)
  have r2: "\<not> eligible {} 5 table_gap (sole ''glm-5.2'' ''gb'' 0 2)"
    by (simp add: eligible_def gate_eval table_gap_sel all_keys_unusable_def)
  have ch: "choose_spec {} (pinned ''s'' 5 table_gap) False False 5 table_gap 0 [\<lparr>tier_models = [''glm-5.2'']\<rparr>] None
      = Inr (0, sole ''glm-5.2'' ''ga'' 0 (Suc 0))"
    by (simp add: Let_def tier_ready_def gap_candidates r1 r2 chosen_spec_def order_def)
  have tg: "target_spec (sole ''glm-5.2'' ''ga'' 0 (Suc 0)) 0 6 table_gap = Some \<lparr>rt_model = ''glm-5.2'',
      rt_quota_group = ''ga'', rt_key = new_selected_key 2 ''b'' ''gb'' ''secret-b'', rt_tier = 0\<rparr>"
    by (simp add: target_spec_def table_gap_sel key_is_ready_def key_entry_at_def)
  have "spec_tiers (t_profiles table_gap) (Literal ''glm-5.2'') = Some ([\<lparr>tier_models = [''glm-5.2'']\<rparr>], False, False)" by simp
  then obtain p t' m' where "plan (Literal ''glm-5.2'') ''s'' {} 5 6 table_gap new_metrics = (Planned p, t', m')"
    "p_target p = \<lparr>rt_model = ''glm-5.2'', rt_quota_group = ''ga'', rt_key = new_selected_key 2 ''b'' ''gb'' ''secret-b'', rt_tier = 0\<rparr>"
    by (rule plan_exists [OF _ _ ch tg]) simp
  then show ?thesis by (auto simp: new_selected_key_def)
qed

text \<open>A group is planned while one of its credentials is untried, but its first ready credential is
  dialed: the one that was tried (a 403, say, leaves it ready) is dialed again.\<close>

lemma skipped_credential_redialed:
  "\<exists>p t' m'. plan (Literal ''glm-5.2'') ''s'' {(hash_name ''glm-5.2'', hash_name ''ga'', 0)} 5 6
      (table3\<lparr>t_keys := [entry 0 ''a1'' ''ga'', entry (Suc 0) ''a2'' ''ga'']\<rparr>) m = (Planned p, t', m')
    \<and> identity (p_target p) = (hash_name ''glm-5.2'', hash_name ''ga'', 0)"
proof -
  let ?t = "table3\<lparr>t_keys := [entry 0 ''a1'' ''ga'', entry (Suc 0) ''a2'' ''ga'']\<rparr>"
  let ?sk = "{(hash_name ''glm-5.2'', hash_name ''ga'', 0)} :: identity set"
  let ?c = "(sole ''glm-5.2'' ''ga'' 0 0)\<lparr>c_b_index := Some (Suc 0)\<rparr>"
  have cand: "tier_candidates ?t [''glm-5.2''] = [?c]"
    by (simp add: tier_candidates_def candidates_at_def by_group_def candidate_at_def Let_def sole_def table3_sel)
  have ready: "fst (dial_spec ?c 5 ?t) = Ready"
    using untouched_ready [of ?t ?c 0 "[Suc 0]" 5] by (simp add: table3_sel key_choices_def key_is_ready_def key_entry_at_def sole_def)
  have el: "eligible ?sk 5 ?t ?c"
    using ready by (simp add: eligible_def all_skipped_def key_choices_def sole_def)
  have pin: "pinned ''s'' 5 ?t = None" by (simp add: pinned_def affinity_route_def table3_sel)
  have ch: "choose_spec ?sk (pinned ''s'' 5 ?t) False False 5 ?t 0 [\<lparr>tier_models = [''glm-5.2'']\<rparr>] None = Inr (0, ?c)"
    by (simp add: Let_def tier_ready_def cand el pin chosen_spec_def order_def)
  have tg: "target_spec ?c 0 6 ?t = Some \<lparr>rt_model = ''glm-5.2'', rt_quota_group = ''ga'',
      rt_key = new_selected_key 0 ''a1'' ''ga'' ''secret-a1'', rt_tier = 0\<rparr>"
    by (simp add: target_spec_def key_choices_def key_is_ready_def key_entry_at_def sole_def)
  have "spec_tiers (t_profiles ?t) (Literal ''glm-5.2'') = Some ([\<lparr>tier_models = [''glm-5.2'']\<rparr>], False, False)" by simp
  then obtain p t' m' where "plan (Literal ''glm-5.2'') ''s'' ?sk 5 6 ?t m = (Planned p, t', m')"
    "p_target p = \<lparr>rt_model = ''glm-5.2'', rt_quota_group = ''ga'',
      rt_key = new_selected_key 0 ''a1'' ''ga'' ''secret-a1'', rt_tier = 0\<rparr>"
    by (rule plan_exists [OF _ _ ch tg]) simp
  then show ?thesis by (auto simp: new_selected_key_def identity_def)
qed

end
