(* ===== verification/HealthFacts.thy ===== *)
theory HealthFacts
  imports RouterSteps PlanFacts
begin

text \<open>
  The properties of the router's writers: invariants of every reachable table, what may open a
  model's circuit, the bounds of a cooldown, and what each reported outcome changes and leaves
  alone.
\<close>

section \<open>Reachable tables\<close>

lemma reachable_start: "reachable c (new_table c)"
  by (simp add: reachable_def)

lemma reachable_step: "reachable c t \<Longrightarrow> table_step t t' \<Longrightarrow> reachable c t'"
  unfolding reachable_def by (rule rtranclp.rtrancl_into_rtrancl)

lemma reachable_ok: "reachable c t \<Longrightarrow> models_ok t \<and> pins_ok t \<and> static t = static (new_table c)"
  unfolding reachable_def by (simp add: mok.run_inv pin.run_inv sta.run_inv models_ok_new pins_new)

text \<open>A target of the samples: the model and quota group with the group's first credential.\<close>

definition target_a :: route_target where
  "target_a = \<lparr>rt_model = ''glm-5.2'', rt_quota_group = ''ga'', rt_key = new_selected_key 0 ''a'' ''ga'' ''secret-a'',
     rt_tier = 0\<rparr>"

definition target_b :: route_target where
  "target_b = \<lparr>rt_model = ''glm-5.2'', rt_quota_group = ''gb'', rt_key = new_selected_key 1 ''b'' ''gb'' ''secret-b'',
     rt_tier = 0\<rparr>"

lemma target_sel [simp]:
  "rt_model target_a = ''glm-5.2''" "rt_quota_group target_a = ''ga''" "sk_index (rt_key target_a) = 0"
  "rt_model target_b = ''glm-5.2''" "rt_quota_group target_b = ''gb''" "sk_index (rt_key target_b) = 1"
  by (simp_all add: target_a_def target_b_def new_selected_key_def)

text \<open>C16: Invariant.  In every table that any sequence of operations reaches from a new one, each
  model's evidence counts a quota group once, missing evidence stays below its threshold, a probe
  is only in flight in a half-open circuit, an open circuit and a disabled model know when they
  end, the pins are distinct and bounded, and credentials, tunables and profiles never change.\<close>

theorem reachable_invariant:
  assumes "reachable c t"
  shows "models_ok t \<and> pins_ok t \<and> static t = static (new_table c)"
  using assms by (rule reachable_ok)

theorem reachable_invariant_witness:
  "models_ok (note_model_missing target_a 7 table2) \<and> pins_ok (note_session_route ''s'' target_b 9 table2)"
proof -
  have "reachable two_groups (note_model_missing target_a 7 table2)" "reachable two_groups (note_session_route ''s'' target_b 9 table2)"
    unfolding table2_def by (intro reachable_step [OF reachable_start] table_step.calm calm_step.intros)+
  then show ?thesis by (simp add: reachable_invariant)
qed

section \<open>What opens a model's circuit\<close>

text \<open>The groups with a failure report for a model inside the window that ends at an instant.\<close>

definition recent_groups :: "string \<Rightarrow> (string \<times> 64 word \<times> instant) list \<Rightarrow> instant \<Rightarrow> duration \<Rightarrow> 64 word set" where
  "recent_groups m H now window = {g. \<exists>s. (m, g, s) \<in> set H \<and> now - s \<le> window}"

lemma finite_recent_groups: "finite (recent_groups m H now window)"
proof -
  have "recent_groups m H now window \<subseteq> (\<lambda>(m, g, s). g) ` set H" by (force simp: recent_groups_def)
  then show ?thesis by (rule finite_subset) simp
qed

text \<open>C19: A model's circuit only opens on failures of enough distinct quota groups inside the
  window, counted over the whole history of reports: repeats of one group never add up.\<close>

theorem circuit_opens_on_distinct_groups:
  assumes "traced c H t" and "record_route_failure target now t = (Opened, t')"
  shows "model_trip_distinct_groups (t_config t)
    \<le> card (recent_groups (rt_model target) ((rt_model target, hash_name (rt_quota_group target), now) # H)
        now (model_trip_window (t_config t)))"
proof -
  let ?m = "rt_model target" and ?g = "hash_name (rt_quota_group target)" and ?w = "model_trip_window (t_config t)"
  let ?e = "or_default (t_models t ?m)"
  let ?ev = "push_evidence ?g now ?w (me_failing_groups ?e)"
  from assms(2) have tr: "fst (record_failure_entry (t_config t) ?g now ?e) = Opened"
    by (auto simp: record_route_failure_def split: prod.splits)
  then have len: "model_trip_distinct_groups (t_config t) \<le> length ?ev"
    by (cases "me_state ?e") (auto simp: record_failure_entry_def transition_model_circuit_def Let_def split: if_splits)
  have "model_inv (t_config t) ?e"
    using reachable_ok [OF traced_reachable [OF assms(1)]] by (simp add: models_ok_def)
  then have "distinct (map fst ?ev)" by (simp add: model_inv_def distinct_push_evidence)
  then have "length ?ev = card (fst ` set ?ev)" by (metis distinct_card length_map list.set_map)
  also have "fst ` set ?ev \<subseteq> recent_groups ?m ((?m, ?g, now) # H) now ?w"
  proof -
    have "Pair ?m ` set (me_failing_groups ?e) \<subseteq> set H"
      using traced_evidenced [OF assms(1)] by (simp add: evidenced_def)
    then have "(?m, h, s) \<in> set H" if "(h, s) \<in> set (me_failing_groups ?e)" for h s using that by blast
    then show ?thesis by (force simp: recent_groups_def push_evidence_def)
  qed
  then have "card (fst ` set ?ev) \<le> card (recent_groups ?m ((?m, ?g, now) # H) now ?w)"
    by (intro card_mono finite_recent_groups)
  finally show ?thesis using len by simp
qed

lemma table2_trip: "model_trip_distinct_groups (t_config table2) = 2" "model_trip_window (t_config table2) = 20000000000"
  by (simp_all add: table2_sel sample_config_sel from_secs_def)

theorem circuit_opens_on_distinct_groups_witness:
  "\<exists>t t'. record_route_failure target_b 9 t = (Opened, t')
    \<and> 2 \<le> card (recent_groups ''glm-5.2'' [(''glm-5.2'', hash_name ''gb'', 9), (''glm-5.2'', hash_name ''ga'', 5)] 9 20000000000)"
proof -
  obtain d t m where n: "note_rate_limited target_a 1 0 None 0 5 table2 new_metrics = (d, t, m)" by (metis prod_cases3)
  from traced.rate_limited [OF traced.start n [unfolded table2_def]]
  have tr: "traced two_groups [(''glm-5.2'', hash_name ''ga'', 5)] t" by simp
  have t: "t = fst (snd (note_rate_limited target_a 1 0 None 0 5 table2 new_metrics))"
    by (simp only: n fst_conv snd_conv)
  have cfg: "t_config t = t_config table2" unfolding t by (simp add: table_eqs Let_def)
  have e: "or_default (t_models t ''glm-5.2'') = default\<lparr>me_failing_groups := [(hash_name ''ga'', 5)]\<rparr>"
    unfolding t by (simp add: table_eqs Let_def record_failure_entry_def push_evidence_def table2_sel(3) table2_trip)
  have "fst (record_route_failure target_b 9 t) = Opened"
    by (simp add: record_route_failure_def case_prod_beta e cfg record_failure_entry_def push_evidence_def table2_trip
        transition_model_circuit_def Let_def sample_hashes)
  then obtain t' where o: "record_route_failure target_b 9 t = (Opened, t')" by (metis prod.collapse)
  from circuit_opens_on_distinct_groups [OF tr o] o show ?thesis by (auto simp: cfg table2_trip)
qed

section \<open>Cooldowns\<close>

lemma deadline_bound: "deadline now d = Some u \<Longrightarrow> now \<le> u \<and> u \<le> now + max_route_wait"
  by (auto simp: deadline_def)

lemma max_route_wait_ms: "as_millis max_route_wait = 86400000" "from_millis 86400000 = max_route_wait"
  by (simp_all add: max_route_wait_def from_secs_def from_millis_def as_millis_def)

text \<open>Cooldown bounds.  A cooldown is at least a millisecond; one taken from a hint is the hint
  clamped to the hint's cap and a day; one from the ladder is within its cap (at most a day) and
  not shorter than the ladder's step, whatever the jitter.\<close>

theorem barrier_bounds:
  fixes initial mx hint_cap :: duration
  defines "cap \<equiv> max (min mx max_route_wait) (from_millis 1)"
  shows "from_millis 1 \<le> barrier_duration attempt initial mx hint_cap streak hint jitter
    \<and> (case hint of
        Some h \<Rightarrow> barrier_duration attempt initial mx hint_cap streak hint jitter
                    = clamp (from_millis 1) (max (min hint_cap max_route_wait) (from_millis 1)) h
      | None \<Rightarrow> barrier_duration attempt initial mx hint_cap streak hint jitter \<le> cap
          \<and> ladder_base (max (as_millis initial) 1) (ladder_step attempt streak) (as_millis cap)
              \<le> as_millis (barrier_duration attempt initial mx hint_cap streak hint jitter))"
proof (cases hint)
  case (Some h)
  then show ?thesis
    using clamp_bounds [of "from_millis 1" "max (min hint_cap max_route_wait) (from_millis 1)" h]
    by (simp add: barrier_duration_def)
next
  case None
  define max_ms base jit where "max_ms = as_millis cap"
    and "base = ladder_base (max (as_millis initial) 1) (ladder_step attempt streak) max_ms"
    and "jit = f64_to_nat (f64_mul (f64_of_nat base) (f64_add 1 (f64_mul (1/2) (f64_clamp 0 1 jitter))))"
  define ms where "ms = min u64_max (min jit max_ms)"
  have d: "barrier_duration attempt initial mx hint_cap streak hint jitter = clamp (from_millis 1) cap (from_millis ms)"
    by (simp add: None barrier_duration_def Let_def cap_def max_ms_def base_def jit_def ms_def)
  have "cap \<le> max_route_wait" unfolding cap_def by (simp add: max_route_wait_def from_secs_def from_millis_def)
  then have "max_ms \<le> as_millis max_route_wait" unfolding max_ms_def as_millis_def by (rule div_le_mono)
  then have mm: "max_ms \<le> 86400000" by (simp only: max_route_wait_ms)
  have mb: "base \<le> max_ms" by (simp add: base_def ladder_base_def)
  have "(0 :: rat) \<le> f64_mul (1/2) (f64_clamp 0 1 jitter)" by (simp add: f64_mul_def)
  then have "base \<le> jit" unfolding jit_def using mm mb by (intro f64_scale_up f64_one_plus) simp_all
  with mb mm have ms: "base \<le> ms" by (simp add: ms_def u64_max_def)
  have "1 \<le> max_ms" unfolding max_ms_def cap_def as_millis_def from_millis_def by simp
  then have "1 \<le> base" by (simp add: base_def ladder_base_def u128_max_def)
  then have lo: "from_millis 1 \<le> from_millis ms" using ms by simp
  have "from_millis max_ms \<le> cap" unfolding max_ms_def by (rule from_millis_as_millis_le)
  moreover have "from_millis ms \<le> from_millis max_ms" by (simp add: ms_def)
  ultimately have hi: "from_millis ms \<le> cap" by (rule le_trans [rotated])
  show ?thesis unfolding d using lo hi ms by (simp add: None base_def max_ms_def)
qed

text \<open>The ladder grows with the attempt and the streak.\<close>

lemma ladder_mono:
  assumes "attempt \<le> attempt'" "streak \<le> streak'"
  shows "ladder_base b (ladder_step attempt streak) mx \<le> ladder_base b (ladder_step attempt' streak') mx"
proof -
  have "ladder_step attempt streak \<le> ladder_step attempt' streak'"
    using assms by (auto simp: ladder_step_def)
  then have "b * 2 ^ ladder_step attempt streak \<le> b * 2 ^ ladder_step attempt' streak'"
    by (simp add: power_increasing)
  then show ?thesis unfolding ladder_base_def by linarith
qed

section \<open>Health of routes an operation does not touch\<close>

text \<open>Two tables agree on what a candidate's dialability looks at.\<close>

lemma dial_spec_agree:
  assumes "or_default (t_models t' (c_model c)) = or_default (t_models t (c_model c))"
    and "or_default (t_routes t' (c_route_id c)) = or_default (t_routes t (c_route_id c))"
    and "or_default (t_groups t' (c_group c)) = or_default (t_groups t (c_group c))"
    and k: "\<And>i. i \<in> set (key_choices c) \<Longrightarrow> map_option (\<lambda>e. (ks_unusable (ke_state e), ks_cooling_until (ke_state e))) (key_entry_at t' i)
        = map_option (\<lambda>e. (ks_unusable (ke_state e), ks_cooling_until (ke_state e))) (key_entry_at t i)"
  shows "dial_spec c now t' = dial_spec c now t"
proof -
  have m: "model_health (c_model c) now t' = model_health (c_model c) now t" by (simp add: model_health_def assms)
  have r: "route_health c now t' = route_health c now t" by (simp add: route_health_def assms)
  have g: "group_health (c_group c) now t' = group_health (c_group c) now t" by (simp add: group_health_def assms)
  have key: "key_is_ready i now t' = key_is_ready i now t \<and> key_wait i now t' = key_wait i now t
      \<and> (case key_entry_at t' i of Some e \<Rightarrow> ks_unusable (ke_state e) | None \<Rightarrow> False)
        = (case key_entry_at t i of Some e \<Rightarrow> ks_unusable (ke_state e) | None \<Rightarrow> False)"
    if "i \<in> set (key_choices c)" for i
    using k [OF that] by (cases "key_entry_at t' i"; cases "key_entry_at t i") (auto simp: key_is_ready_def key_wait_def)
  then have "dial_keys_spec is now b t' = dial_keys_spec is now b t" if "set is \<subseteq> set (key_choices c)" for "is" b
    using that by (induction "is" arbitrary: b) (auto split: option.split)
  moreover have "all_keys_unusable c t' = all_keys_unusable c t"
    using key by (auto simp: all_keys_unusable_def list_all_iff)
  ultimately have "probe_spec c now h q t' = probe_spec c now h q t" for h q by (simp add: probe_spec_def)
  moreover have "any_ready c now t' = any_ready c now t" using key by (auto simp: any_ready_def list_ex_iff)
  ultimately show ?thesis by (simp only: dial_spec_def half_open_at_def circuit_wait_def m r g)
qed

lemma key_entry_map_key_state:
  "key_entry_at (map_key_state j f t) i = (if i = j then map_option (\<lambda>e. e\<lparr>ke_state := f (ke_state e)\<rparr>) (key_entry_at t i)
     else key_entry_at t i)"
  by (auto simp: key_entry_at_def map_key_state_def)

lemma key_entry_update [simp]:
  "key_entry_at (update_model m e t) = key_entry_at t" "key_entry_at (update_route r f t) = key_entry_at t"
  "key_entry_at (update_group g h t) = key_entry_at t" "key_entry_at (break_affinity_where P t) = key_entry_at t"
  by (simp_all add: key_entry_at_def fun_eq_iff)

section \<open>A generic 429\<close>

text \<open>C20: Isolation of a 429.  A rate-limited route cools for exactly the reported duration, and
  the dialability of every route of another model is what it was, also on the same account.\<close>

theorem rate_limit_isolated:
  assumes "note_rate_limited target attempt streak hint jitter now t m = (d, t', m')"
  shows "rs_cooling_until (or_default (t_routes t' (route_id target))) = deadline now d
    \<and> (\<forall>c later. c_model c \<noteq> rt_model target \<and> c_route_id c \<noteq> route_id target
          \<longrightarrow> dial_spec c later t' = dial_spec c later t)
    \<and> t_groups t' = t_groups t \<and> t_affinity t' = t_affinity t"
proof -
  have t': "t' = fst (snd (note_rate_limited target attempt streak hint jitter now t m))"
    and d: "d = fst (note_rate_limited target attempt streak hint jitter now t m)"
    by (simp_all only: assms fst_conv snd_conv)
  have "dial_spec c later t' = dial_spec c later t"
    if "c_model c \<noteq> rt_model target" "c_route_id c \<noteq> route_id target" for c later
    using that unfolding t' by (intro dial_spec_agree)
      (auto simp: note_rate_limited_table record_route_failure_table Let_def key_entry_map_key_state option.map_comp comp_def)
  then show ?thesis
    by (simp add: t' d note_rate_limited_table record_route_failure_table Let_def)
qed

lemma glm_kimi_routes: "c_route_id (sole ''kimi-k3'' ''ga'' 0 0) \<noteq> route_id target_a"
  by (simp add: c_route_id_def route_id_def sample_hashes)

theorem rate_limit_isolated_witness:
  "dial_spec (sole ''kimi-k3'' ''ga'' 0 0) 6 (fst (snd (note_rate_limited target_a 1 0 None 0 5 table2 new_metrics)))
    = dial_spec (sole ''kimi-k3'' ''ga'' 0 0) 6 table2"
proof -
  obtain d t' m' where n: "note_rate_limited target_a 1 0 None 0 5 table2 new_metrics = (d, t', m')" by (metis prod_cases3)
  from rate_limit_isolated [OF n] glm_kimi_routes have "dial_spec (sole ''kimi-k3'' ''ga'' 0 0) 6 t' = dial_spec (sole ''kimi-k3'' ''ga'' 0 0) 6 table2"
    by auto
  then show ?thesis by (simp only: n fst_conv snd_conv)
qed

section \<open>Quota exhaustion\<close>

lemma cool_group_entry:
  "key_entry_at (cool_group_keys g u t) i = map_option (\<lambda>k. if ke_group k = g
     then k\<lparr>ke_state := (ke_state k)\<lparr>ks_cooling_until := u\<rparr>\<rparr> else k) (key_entry_at t i)"
  by (simp add: key_entry_at_def cool_group_keys_def)



text \<open>After quota exhaustion of \<open>ga\<close> in the sample table, \<open>gb\<close> is planned.\<close>

lemma sample_after_quota:
  "\<exists>p t' m'. plan (Literal ''glm-5.2'') ''s'' {} 5 6 (note_quota_exhausted target_a (from_secs 60) 4 table2) m = (Planned p, t', m')"
proof -
  let ?t = "note_quota_exhausted target_a (from_secs 60) 4 table2"
  have keys: "t_keys ?t = [(entry 0 ''a'' ''ga'')\<lparr>ke_state := default\<lparr>ks_cooling_until := deadline 4 (from_secs 60)\<rparr>\<rparr>, entry 1 ''b'' ''gb'']"
    by (simp add: note_quota_exhausted_def break_affinity_for_group_def cool_group_keys_def Let_def table2_sel)
  have rest: "t_routes ?t = Map.empty" "t_models ?t = Map.empty" "t_profiles ?t = builtin_profiles"
    "t_groups ?t ''gb'' = None" "t_affinity ?t = []"
    by (simp_all add: note_quota_exhausted_def break_affinity_for_group_def Let_def table2_sel)
  have ga: "t_groups ?t ''ga'' = Some (default\<lparr>ge_cooling_until := deadline 4 (from_secs 60)\<rparr>)"
    by (simp add: note_quota_exhausted_def break_affinity_for_group_def Let_def table2_sel)
  have cands: "tier_candidates ?t [''glm-5.2''] = [sole ''glm-5.2'' ''ga'' 0 0, sole ''glm-5.2'' ''gb'' 0 (Suc 0)]"
    by (simp add: tier_candidates_def candidates_at_def by_group_def candidate_at_def Let_def keys sole_def)
  have r1: "\<not> eligible {} 5 ?t (sole ''glm-5.2'' ''ga'' 0 0)"
  proof
    assume "eligible {} 5 ?t (sole ''glm-5.2'' ''ga'' 0 0)"
    then have "group_health ''ga'' 5 ?t = None"
      using dial_spec_Ready(5) [of "sole ''glm-5.2'' ''ga'' 0 0" 5 ?t] by (simp add: eligible_def)
    moreover have "deadline 4 (from_secs 60) = Some 60000000004"
      by (simp add: deadline_def from_secs_def max_route_wait_def)
    ultimately show False by (simp add: group_health_def ga remaining_def)
  qed
  have r2: "eligible {} 5 ?t (sole ''glm-5.2'' ''gb'' 0 (Suc 0))"
    using untouched_ready [of ?t "sole ''glm-5.2'' ''gb'' 0 (Suc 0)" "Suc 0" "[]" 5]
    by (simp add: eligible_def all_skipped_def rest keys key_is_ready_def key_entry_at_def)
  have ch: "choose_spec {} (pinned ''s'' 5 ?t) False False 5 ?t 0 [\<lparr>tier_models = [''glm-5.2'']\<rparr>] None
      = Inr (0, sole ''glm-5.2'' ''gb'' 0 (Suc 0))"
    by (simp add: Let_def tier_ready_def cands r1 r2 chosen_spec_def order_def)
  have tg: "target_spec (sole ''glm-5.2'' ''gb'' 0 (Suc 0)) 0 6 ?t = Some \<lparr>rt_model = ''glm-5.2'',
      rt_quota_group = ''gb'', rt_key = new_selected_key 1 ''b'' ''gb'' ''secret-b'', rt_tier = 0\<rparr>"
    by (simp add: target_spec_def keys key_is_ready_def key_entry_at_def)
  have "spec_tiers (t_profiles ?t) (Literal ''glm-5.2'') = Some ([\<lparr>tier_models = [''glm-5.2'']\<rparr>], False, False)" by simp
  then obtain p t' m' where "plan (Literal ''glm-5.2'') ''s'' {} 5 6 ?t m = (Planned p, t', m')"
    by (rule plan_exists [OF _ _ ch tg]) simp
  then show ?thesis by blast
qed


section \<open>A rejected credential\<close>


lemma sample_after_reject:
  "\<exists>p t' m'. plan (Literal ''glm-5.2'') ''s'' {} 5 6 (note_authentication_failure target_a table2) m = (Planned p, t', m')"
proof -
  let ?t = "note_authentication_failure target_a table2"
  have keys: "t_keys ?t = [(entry 0 ''a'' ''ga'')\<lparr>ke_state := default\<lparr>ks_unusable := True, ks_cooling_until := None\<rparr>\<rparr>, entry 1 ''b'' ''gb'']"
    by (simp add: note_authentication_failure_def break_affinity_for_route_def map_key_state_def table2_sel)
  have rest: "t_routes ?t = Map.empty" "t_models ?t = Map.empty" "t_profiles ?t = builtin_profiles"
    "t_groups ?t = Map.empty" "t_affinity ?t = []"
    by (simp_all add: note_authentication_failure_def break_affinity_for_route_def table2_sel)
  have cands: "tier_candidates ?t [''glm-5.2''] = [sole ''glm-5.2'' ''ga'' 0 0, sole ''glm-5.2'' ''gb'' 0 (Suc 0)]"
    by (simp add: tier_candidates_def candidates_at_def by_group_def candidate_at_def Let_def keys sole_def)
  have r1: "\<not> eligible {} 5 ?t (sole ''glm-5.2'' ''ga'' 0 0)"
  proof
    assume "eligible {} 5 ?t (sole ''glm-5.2'' ''ga'' 0 0)"
    then have "any_ready (sole ''glm-5.2'' ''ga'' 0 0) 5 ?t"
      using dial_spec_Ready(1) [of "sole ''glm-5.2'' ''ga'' 0 0" 5 ?t] by (simp add: eligible_def)
    then show False by (simp add: any_ready_def key_is_ready_def key_entry_at_def keys)
  qed
  have r2: "eligible {} 5 ?t (sole ''glm-5.2'' ''gb'' 0 (Suc 0))"
    using untouched_ready [of ?t "sole ''glm-5.2'' ''gb'' 0 (Suc 0)" "Suc 0" "[]" 5]
    by (simp add: eligible_def all_skipped_def rest keys key_is_ready_def key_entry_at_def)
  have ch: "choose_spec {} (pinned ''s'' 5 ?t) False False 5 ?t 0 [\<lparr>tier_models = [''glm-5.2'']\<rparr>] None
      = Inr (0, sole ''glm-5.2'' ''gb'' 0 (Suc 0))"
    by (simp add: Let_def tier_ready_def cands r1 r2 chosen_spec_def order_def)
  have tg: "target_spec (sole ''glm-5.2'' ''gb'' 0 (Suc 0)) 0 6 ?t = Some \<lparr>rt_model = ''glm-5.2'',
      rt_quota_group = ''gb'', rt_key = new_selected_key 1 ''b'' ''gb'' ''secret-b'', rt_tier = 0\<rparr>"
    by (simp add: target_spec_def keys key_is_ready_def key_entry_at_def)
  have "spec_tiers (t_profiles ?t) (Literal ''glm-5.2'') = Some ([\<lparr>tier_models = [''glm-5.2'']\<rparr>], False, False)" by simp
  then obtain p t' m' where "plan (Literal ''glm-5.2'') ''s'' {} 5 6 ?t m = (Planned p, t', m')"
    by (rule plan_exists [OF _ _ ch tg]) simp
  then show ?thesis by blast
qed


section \<open>Success\<close>

lemma success_model_sel [simp]:
  "me_state (success_model e) = Closed" "\<not> me_disabled (success_model e)"
  by (simp_all add: success_model_def close_model_circuit_def)

text \<open>Recovery.  Whatever marks a route, its quota group, its model and its credential carried
  before, one success makes the route dialable at once, unless the credential was rejected.\<close>

theorem success_recovers:
  fixes target ttft elapsed t
  defines "t' \<equiv> note_success target ttft elapsed t"
  assumes "c_model c = rt_model target" "c_group c = rt_quota_group target" "c_route_id c = route_id target"
    and "sk_index (rt_key target) \<in> set (key_choices c)"
    and "key_entry_at t (sk_index (rt_key target)) = Some e" "\<not> ks_unusable (ke_state e)"
  shows "fst (dial_spec c now t') = Ready"
proof -
  let ?i = "sk_index (rt_key target)"
  have m: "me_state (or_default (t_models t' (c_model c))) = Closed \<and> \<not> me_disabled (or_default (t_models t' (c_model c)))"
    by (simp add: t'_def assms(2) note_success_def Let_def split: option.split)
  have r: "rs_cooling_until (or_default (t_routes t' (c_route_id c))) = None
      \<and> rs_disabled_until (or_default (t_routes t' (c_route_id c))) = None"
    by (simp add: t'_def assms(4) note_success_def Let_def split: option.split)
  have g: "ge_cooling_until (or_default (t_groups t' (c_group c))) = None"
    by (simp add: t'_def assms(3) note_success_def Let_def split: option.split)
  have "ks_cooling_until (success_key ttft elapsed s) = None" for s
    by (simp add: success_key_def Let_def split: option.split)
  moreover have "key_entry_at t' ?i = Some (e\<lparr>ke_state := success_key ttft elapsed (ke_state e)\<rparr>)"
    by (simp add: t'_def note_success_def Let_def key_entry_map_key_state assms(6) split: option.split)
  ultimately have "key_is_ready ?i now t'" using assms(7) by (simp add: key_is_ready_def)
  then have "fst (dial_keys_spec (key_choices c) now None t')" using assms(5) dial_keys_spec_ready by blast
  then show ?thesis using m r g
    by (auto simp: dial_spec_def Let_def model_health_def refresh_model_def refresh_circuit_def refresh_missing_def
        view_of_model_def circuit_wait_def route_health_def group_health_def remaining_def half_open_at_def probe_spec_def
        split: prod.split bool.split)
qed

theorem success_recovers_witness:
  "fst (dial_spec (sole ''glm-5.2'' ''ga'' 0 0) 5 (note_success target_a None 7 (note_quota_exhausted target_a (from_secs 60) 4 table2))) = Ready"
proof (rule success_recovers)
  show "key_entry_at (note_quota_exhausted target_a (from_secs 60) 4 table2) (sk_index (rt_key target_a))
      = Some ((entry 0 ''a'' ''ga'')\<lparr>ke_state := default\<lparr>ks_cooling_until := deadline 4 (from_secs 60)\<rparr>\<rparr>)"
    by (simp add: note_quota_exhausted_def break_affinity_for_group_def cool_group_keys_def Let_def table2_sel key_entry_at_def)
qed (simp_all add: c_route_id_def route_id_def)

section \<open>The half-open probe\<close>

text \<open>One probe.  Once an attempt begins on a half-open model, no route of that model is
  dialable, at any time, until the attempt ends; and its guard remembers that it holds the probe.\<close>

theorem single_probe:
  assumes "begin_attempt target t = (g, t')" and "me_state (or_default (t_models t (rt_model target))) = HalfOpen"
    and "c_model c = rt_model target"
  shows "fst (dial_spec c later t') \<noteq> Ready
    \<and> ig_holds_probe g = (\<not> me_probe_in_flight (or_default (t_models t (rt_model target))))"
proof -
  have t': "t' = snd (begin_attempt target t)" by (simp add: assms(1))
  have e: "me_state (or_default (t_models t' (c_model c))) = HalfOpen
      \<and> me_probe_in_flight (or_default (t_models t' (c_model c)))"
    using assms(2,3) by (simp add: t' begin_attempt_table Let_def)
  have "fst (dial_spec c later t') \<noteq> Ready"
  proof
    assume "fst (dial_spec c later t') = Ready"
    moreover have "me_state (refresh_model later x) = HalfOpen \<and> me_probe_in_flight (refresh_model later x)"
      if "me_state x = HalfOpen" "me_probe_in_flight x" for x
      using that by (simp add: refresh_model_def refresh_circuit_def refresh_missing_def)
    ultimately show False using dial_spec_Ready(6) [of c later t'] e
      by (simp add: half_open_at_def model_health_def view_of_model_def)
  qed
  moreover have "ig_holds_probe g = (\<not> me_probe_in_flight (or_default (t_models t (rt_model target))))"
    using assms(1,2) by (auto simp: begin_attempt_def Let_def)
  ultimately show ?thesis ..
qed

definition half_open_table :: route_table where
  "half_open_table = update_model ''glm-5.2'' (default\<lparr>me_state := HalfOpen\<rparr>) table2"

theorem single_probe_witness:
  "fst (dial_spec (sole ''glm-5.2'' ''gb'' 0 1) 9 (snd (begin_attempt target_a half_open_table))) \<noteq> Ready"
proof -
  obtain g t' where b: "begin_attempt target_a half_open_table = (g, t')" by fastforce
  from single_probe [OF b, of "sole ''glm-5.2'' ''gb'' 0 1" 9] show ?thesis
    by (simp only: b snd_conv) (simp add: half_open_table_def)
qed

text \<open>
  Planning reserves nothing, and the slot is only taken when the attempt begins, under another lock:
  two requests that plan before either begins are both sent to the half-open model.
\<close>

lemma literal_planned:
  assumes "plan (Literal l) tag skipped now now t m = (r, t', m')" "tier_ready skipped now t [l] \<noteq> []"
  shows "\<exists>p a. r = Planned p \<and> rt_model (p_target p) = l
    \<and> settle now t' = settle now (t\<lparr>t_affinity := a, t_round_robin := t_round_robin t + 1\<rparr>)"
proof -
  have sp: "spec_tiers (t_profiles t) (Literal l) = Some ([\<lparr>tier_models = [l]\<rparr>], False, False)" by simp
  from plan_cases [OF assms(1) le_refl sp] assms(2) obtain p a where p: "r = Planned p"
    "settle now t' = settle now (t\<lparr>t_affinity := a, t_round_robin := t_round_robin t + 1\<rparr>)"
    by (cases) (auto simp: Let_def)
  with assms(1) plan_quality_isolation_core [of "Literal l" tag skipped now now t m p t' m'] show ?thesis by auto
qed

lemma plan_does_not_reserve:
  assumes "plan (Literal l) tag skipped now now t m = (r, t1, m1)" "plan (Literal l) tag' skipped now now t1 m1 = (r', t2, m2)"
    and ready: "\<And>k. tier_ready skipped now (t\<lparr>t_round_robin := k\<rparr>) [l] \<noteq> []"
  shows "\<exists>p q. r = Planned p \<and> r' = Planned q \<and> rt_model (p_target p) = l \<and> rt_model (p_target q) = l"
proof -
  have "tier_ready skipped now t [l] \<noteq> []" using ready [of "t_round_robin t"] by simp
  from literal_planned [OF assms(1) this] obtain p a where p: "r = Planned p" "rt_model (p_target p) = l"
    and st: "settle now t1 = settle now (t\<lparr>t_affinity := a, t_round_robin := t_round_robin t + 1\<rparr>)" by blast
  have swap: "t\<lparr>t_affinity := a, t_round_robin := k\<rparr> = t\<lparr>t_round_robin := k\<rparr>\<lparr>t_affinity := a\<rparr>" for k by simp
  have "tier_ready skipped now t1 [l] = tier_ready skipped now (t\<lparr>t_round_robin := t_round_robin t + 1\<rparr>) [l]"
    unfolding tier_ready_def tier_candidates_cong [OF st] ext [OF eligible_cong [OF st]]
    unfolding tier_ready_def [symmetric] unfolding swap by (simp only: affinity_frame_tier)
  with literal_planned [OF assms(2)] ready p show ?thesis by auto
qed

lemma two_probes:
  "\<exists>p t1 m1 q t2 m2. plan (Literal ''glm-5.2'') ''s'' {} 9 9 half_open_table m = (Planned p, t1, m1)
    \<and> plan (Literal ''glm-5.2'') ''t'' {} 9 9 t1 m1 = (Planned q, t2, m2)
    \<and> rt_model (p_target p) = ''glm-5.2'' \<and> rt_model (p_target q) = ''glm-5.2''"
proof -
  obtain r t1 m1 where 1: "plan (Literal ''glm-5.2'') ''s'' {} 9 9 half_open_table m = (r, t1, m1)" by (metis prod_cases3)
  obtain r' t2 m2 where 2: "plan (Literal ''glm-5.2'') ''t'' {} 9 9 t1 m1 = (r', t2, m2)" by (metis prod_cases3)
  have "fst (dial_spec (sole ''glm-5.2'' ''ga'' 0 0) 9 (half_open_table\<lparr>t_round_robin := k\<rparr>)) = Ready" for k
    by (simp add: gate_eval half_open_table_def update_model_def table2_sel)
  then have "tier_ready {} 9 (half_open_table\<lparr>t_round_robin := k\<rparr>) [''glm-5.2''] \<noteq> []" for k
    by (simp add: tier_ready_def tier_candidates_def candidates_at_def by_group_def candidate_at_def Let_def sole_def
        half_open_table_def update_model_def table2_sel eligible_def all_skipped_def key_choices_def)
  from plan_does_not_reserve [OF 1 2 this] 1 2 show ?thesis by blast
qed

text \<open>In-flight balance.  An attempt that begins and is dropped leaves every credential's
  state as it was (below the saturation of the counter), and never leaves the probe slot taken.\<close>

theorem attempt_balanced:
  assumes "begin_attempt target t = (g, t')"
    and "\<And>e. key_entry_at t (sk_index (rt_key target)) = Some e \<Longrightarrow> ks_inflight (ke_state e) < u64_max"
  shows "t_keys (drop_guard g t') = t_keys t
    \<and> (ig_holds_probe g \<longrightarrow> \<not> me_probe_in_flight (or_default (t_models (drop_guard g t') (rt_model target))))"
proof -
  let ?i = "sk_index (rt_key target)"
  have t': "t' = snd (begin_attempt target t)" and g: "ig_index g = ?i" "ig_model g = rt_model target"
    using assms(1) by (auto simp: begin_attempt_def Let_def)
  have k: "t_keys t' = t_keys (map_key_state ?i (\<lambda>s. s\<lparr>ks_inflight := sat_add u64_max (ks_inflight s) 1\<rparr>) t)"
    by (simp add: t' begin_attempt_table Let_def map_key_state_def)
  have "t_keys (drop_guard g t') = t_keys (map_key_state ?i (\<lambda>s. s\<lparr>ks_inflight := ks_inflight s - 1\<rparr>) t')"
    by (simp add: drop_guard_def Let_def g split: option.split)
  also have "\<dots> = t_keys t"
  proof (cases "?i < length (t_keys t)")
    case True
    then have lt: "ks_inflight (ke_state (t_keys t ! ?i)) < u64_max" using assms(2) by (simp add: key_entry_at_def)
    have "((t_keys t ! ?i)\<lparr>ke_state := (ke_state (t_keys t ! ?i))\<lparr>ks_inflight := ks_inflight (ke_state (t_keys t ! ?i))\<rparr>\<rparr>) = t_keys t ! ?i"
      by simp
    with True lt k show ?thesis by (simp add: map_key_state_def sat_add_def)
  next
    case False
    with k show ?thesis by (simp add: map_key_state_def)
  qed
  finally show ?thesis
    by (auto simp: drop_guard_def Let_def g t' begin_attempt_table)
qed

theorem attempt_balanced_witness:
  "t_keys (drop_guard (fst (begin_attempt target_a half_open_table)) (snd (begin_attempt target_a half_open_table))) = t_keys table2"
proof -
  obtain g t' where b: "begin_attempt target_a half_open_table = (g, t')" by fastforce
  have "t_keys (drop_guard g t') = t_keys half_open_table"
    using attempt_balanced [OF b] by (auto simp: half_open_table_def table2_sel key_entry_at_def u64_max_def split: if_splits)
  then show ?thesis by (simp only: b fst_conv snd_conv) (simp add: half_open_table_def)
qed

text \<open>A half-open probe that is dropped without a report closes its model's circuit; so do the
  outcomes that report nothing to the model (a 401, a 403, an exhausted quota).\<close>

lemma dropped_probe_closes:
  assumes "t_models t (ig_model g) = Some e" "me_state e = HalfOpen" "ig_holds_probe g"
  shows "\<exists>e'. t_models (drop_guard g t) (ig_model g) = Some e' \<and> me_state e' = Closed"
  using assms by (simp add: drop_guard_def Let_def map_key_state_def update_model_def)

lemma rejection_keeps_models: "t_models (note_authentication_failure target t) = t_models t"
  by (simp add: note_authentication_failure_def map_key_state_def break_affinity_for_route_def)

end
