(* ===== verification/SendFacts.thy ===== *)
theory SendFacts
  imports SendCalls HealthFacts
begin

text \<open>
  The properties of \<open>send_messages\<close>: the attempt budget, what is dialed and with which headers
  and body, quality isolation across all attempts of a request, the refinement of its effects to
  steps of the router, and the terminal outcomes.  All hold for any behaviour of the upstream
  and any interference of other requests that itself consists of router steps.
\<close>

section \<open>Outcome handlers are router steps\<close>

abbreviation steps :: "route_table \<Rightarrow> route_table \<Rightarrow> bool" where
  "steps \<equiv> table_step\<^sup>*\<^sup>*"

lemma step_then: "steps t u \<Longrightarrow> table_step u v \<Longrightarrow> steps t v"
  by (rule rtranclp.rtrancl_into_rtrancl)

lemma steps_calm: "steps t u \<Longrightarrow> calm_step u v \<Longrightarrow> steps t v"
  by (erule step_then) (rule table_step.calm)

text \<open>Each call of the table, as a step from the table it is applied to.\<close>

lemma steps_calls:
  "plan spec tag skipped now now2 u m = (r, v, m') \<Longrightarrow> steps t u \<Longrightarrow> steps t v"
  "break_affinity tag u m = (v, m') \<Longrightarrow> steps t u \<Longrightarrow> steps t v"
  "usable_route_count now u = (n, v) \<Longrightarrow> steps t u \<Longrightarrow> steps t v"
  "earliest_retry_after now u = (w, v) \<Longrightarrow> steps t u \<Longrightarrow> steps t v"
  "note_rate_limited target attempt streak hint jitter now u m = (d, v, m') \<Longrightarrow> steps t u \<Longrightarrow> steps t v"
  "note_transient_failure target attempt hint jitter now u m = (d, v, m') \<Longrightarrow> steps t u \<Longrightarrow> steps t v"
  "begin_attempt target u = (g, v) \<Longrightarrow> steps t u \<Longrightarrow> steps t v"
  "release_probe g u = (g', v) \<Longrightarrow> steps t u \<Longrightarrow> steps t v"
  "steps t u \<Longrightarrow> steps t (note_success target ttft elapsed u)"
  "steps t u \<Longrightarrow> steps t (note_quota_exhausted target cooldown now u)"
  "steps t u \<Longrightarrow> steps t (note_authentication_failure target u)"
  "steps t u \<Longrightarrow> steps t (note_model_missing target now u)"
  "steps t u \<Longrightarrow> steps t (note_session_route tag target now u)"
  "steps t u \<Longrightarrow> steps t (drop_guard g u)"
  by (blast intro: steps_calm step_then calm_step.intros table_step.intros)+

interpretation st: table_calls "steps t" for t
  by unfold_locales (rule steps_calls; assumption)+

lemmas followup_steps = st.followup_keeps
lemmas transient_steps = st.transient_keeps
lemmas transient_failure_steps = st.transient_failure_keeps
lemmas local_failure_steps = st.local_failure_keeps
lemmas on_success_steps = st.on_success_keeps
lemmas on_rate_limited_steps = st.on_rate_limited_keeps
lemmas on_quota_exhausted_steps = st.on_quota_exhausted_keeps
lemmas on_credential_rejected_steps = st.on_credential_rejected_keeps
lemmas on_not_found_steps = st.on_not_found_keeps
lemmas on_error_answer_steps = st.on_error_answer_keeps
lemmas handle_exchange_steps = st.handle_exchange_keeps
lemmas next_attempt_steps = st.next_attempt_keeps
lemmas next_attempt_group_steps = st.next_attempt_group_keeps
lemmas next_attempt_model_steps = st.next_attempt_model_keeps
lemmas follow_up_steps = st.follow_up_keeps

text \<open>A success names the target and the attempt it was dialed as.\<close>

definition reports :: "route_target \<Rightarrow> nat \<Rightarrow> send_result \<Rightarrow> bool" where
  "reports target n r = (case r of SentJson b tg k \<Rightarrow> tg = target \<and> k = n | SentStream b es tg k \<Rightarrow> tg = target \<and> k = n
     | SendErr err \<Rightarrow> True | SendPanic \<Rightarrow> True)"

lemma handle_exchange_reports:
  "handle_exchange co rq target attempt e g x sh = (Inl r, g', sh') \<Longrightarrow> reports target attempt r"
  unfolding handle_exchange_def Let_def reports_def
  by (auto split: exchange.splits if_splits first_byte.splits prod.splits send_result.splits)

text \<open>Nothing is retried once the budget is spent.\<close>

lemma follow_up_budget:
  "follow_up co rq target skipped sr attempt e rule sh = (Proceed w, sr', sh') \<Longrightarrow> attempt < co_max_attempts co"
  by (auto simp: follow_up_def next_attempt_def next_attempt_group_def next_attempt_model_def
      split: retry_rule.splits prod.splits if_splits)

section \<open>One attempt\<close>

definition env_ok :: "env \<Rightarrow> bool" where
  "env_ok e = ((\<forall>sh. steps (sh_table sh) (sh_table (e_before e sh))) \<and> (\<forall>sh. steps (sh_table sh) (sh_table (e_during e sh)))
     \<and> e_plan e \<le> e_target e \<and> e_follow e \<le> e_follow_target e)"

text \<open>What was put on the wire for a target.\<close>

definition wire_ok :: "core \<Rightarrow> send_request \<Rightarrow> dial \<Rightarrow> bool" where
  "wire_ok co rq d = (case rewrite_model (co_ext co) (rq_canonical rq) (rt_model (dl_target d)) of
      Inr body \<Rightarrow> dl_request d = send_once co (dl_target d) body (rq_stream rq) (rq_id rq)
    | Inl err \<Rightarrow> False)"

lemma dial_target_facts:
  assumes "dial_target co rq e attempt skipped sr target sh = (out, d, sh')" and "env_ok e"
    and st: "steps t (sh_table sh)"
  shows "steps t (sh_table sh')"
    and "\<And>x. d = Some x \<Longrightarrow> dl_target x = target \<and> wire_ok co rq x"
    and "\<And>s sr' err. out = Again s sr' err \<Longrightarrow> d \<noteq> None \<and> s = skipped \<and> attempt < co_max_attempts co"
    and "\<And>r. out = Done r \<Longrightarrow> reports target attempt r \<and> (d = None \<longrightarrow> (\<exists>err. r = SendErr err))"
proof -
  define sh1 where "sh1 = sh\<lparr>sh_metrics := (sh_metrics sh)\<lparr>route_attempts_total := route_attempts_total (sh_metrics sh) + 1,
            upstream_requests_total := upstream_requests_total (sh_metrics sh) + 1\<rparr>\<rparr>"
  have all: "steps t (sh_table sh') \<and> (\<forall>x. d = Some x \<longrightarrow> dl_target x = target \<and> wire_ok co rq x)
    \<and> (\<forall>s sr' err. out = Again s sr' err \<longrightarrow> d \<noteq> None \<and> s = skipped \<and> attempt < co_max_attempts co)
    \<and> (\<forall>r. out = Done r \<longrightarrow> reports target attempt r \<and> (d = None \<longrightarrow> (\<exists>err. r = SendErr err)))"
  proof (cases "rewrite_model (co_ext co) (rq_canonical rq) (rt_model target)")
    case (Inl err)
    with assms(1) st show ?thesis by (auto simp: dial_target_def Let_def reports_def)
  next
    case (Inr body)
    obtain g u where b: "begin_attempt target (sh_table sh1) = (g, u)" by fastforce
    define wire where "wire = send_once co target body (rq_stream rq) (rq_id rq)"
    define sh2 where "sh2 = e_during e (sh1\<lparr>sh_table := u\<rparr>)"
    obtain r g' sh3 where h: "handle_exchange co rq target attempt e g (e_exchange e target wire) sh2 = (r, g', sh3)"
      by (metis prod_cases3)
    define sh4 where "sh4 = sh3\<lparr>sh_table := drop_guard g' (sh_table sh3)\<rparr>"
    have "steps t u" using steps_calls(7) [OF b] st by (simp add: sh1_def)
    moreover have "steps u (sh_table sh2)" using assms(2) unfolding env_ok_def sh2_def
      by (metis route_table.cases shared.select_convs(1) shared.surjective shared.update_convs(1))
    ultimately have s2: "steps t (sh_table sh2)" by (rule rtranclp_trans)
    have s4: "steps t (sh_table sh4)"
      unfolding sh4_def using steps_calls(14) [OF handle_exchange_steps [OF h s2]] by simp
    have w: "wire_ok co rq \<lparr>dl_target = target, dl_request = wire, dl_sleep = x\<rparr>" for x
      by (simp add: wire_ok_def Inr wire_def)
    have eq: "(out, d, sh') = (case r of
          Inl done \<Rightarrow> (Done done, Some \<lparr>dl_target = target, dl_request = wire, dl_sleep = None\<rparr>, sh4)
        | Inr f \<Rightarrow> (case follow_up co rq target skipped sr attempt e (fl_rule f) sh4 of
             (Stop, _, sh5) \<Rightarrow> (Done (SendErr (fl_error f)), Some \<lparr>dl_target = target, dl_request = wire, dl_sleep = None\<rparr>, sh5)
           | (NextPanic, _, sh5) \<Rightarrow> (Done SendPanic, Some \<lparr>dl_target = target, dl_request = wire, dl_sleep = None\<rparr>, sh5)
           | (Proceed w, sr', sh5) \<Rightarrow> (Again skipped sr' (fl_error f), Some \<lparr>dl_target = target, dl_request = wire, dl_sleep = w\<rparr>, sh5)))"
      unfolding assms(1) [symmetric] dial_target_def Let_def sh1_def [symmetric] Inr sum.case b prod.case
        wire_def [symmetric] sh2_def [symmetric] h sh4_def [symmetric] ..
    show ?thesis
    proof (cases r)
      case (Inl res)
      then have "reports target attempt res" using handle_exchange_reports h by blast
      with eq Inl s4 w show ?thesis by auto
    next
      case (Inr f)
      obtain n sr' sh5 where f: "follow_up co rq target skipped sr attempt e (fl_rule f) sh4 = (n, sr', sh5)"
        by (metis prod_cases3)
      note f5 = follow_up_steps [OF f s4]
      show ?thesis
      proof (cases n)
        case (Proceed w')
        with f have "attempt < co_max_attempts co" using follow_up_budget by blast
        with eq Inr f Proceed f5 w show ?thesis by auto
      qed (use eq Inr f f5 w in \<open>auto simp: reports_def\<close>)
    qed
  qed
  from all show "steps t (sh_table sh')" by blast
  from all show "\<And>x. d = Some x \<Longrightarrow> dl_target x = target \<and> wire_ok co rq x" by blast
  from all show "\<And>s sr' err. out = Again s sr' err \<Longrightarrow> d \<noteq> None \<and> s = skipped \<and> attempt < co_max_attempts co" by blast
  from all show "\<And>r. out = Done r \<Longrightarrow> reports target attempt r \<and> (d = None \<longrightarrow> (\<exists>err. r = SendErr err))" by blast
qed

text \<open>An attempt, with the plan it dialed: \<open>planned\<close> says that a table reached by router steps gave it.\<close>

definition planned :: "send_request \<Rightarrow> env \<Rightarrow> identity set \<Rightarrow> route_table \<Rightarrow> route_target \<Rightarrow> bool" where
  "planned rq e skipped t target = (\<exists>u m p u' m'. steps t u
     \<and> plan (rq_spec rq) (rq_tag rq) skipped (e_plan e) (e_target e) u m = (Planned p, u', m') \<and> p_target p = target)"

lemma attempt_once_facts:
  assumes "attempt_once co rq e attempt skipped sr sh = (out, d, sh')" and ok: "env_ok e"
    and st: "steps t (sh_table sh)"
  shows "steps t (sh_table sh')"
    and "\<And>x. d = Some x \<Longrightarrow> wire_ok co rq x \<and> planned rq e skipped t (dl_target x)"
    and "\<And>s sr' err. out = Again s sr' err \<Longrightarrow> \<exists>x. d = Some x \<and> s = insert (identity (dl_target x)) skipped
        \<and> Suc attempt < co_max_attempts co"
    and "\<And>r. out = Done r \<Longrightarrow> (case d of None \<Rightarrow> (\<exists>err. r = SendErr err) \<or> r = SendPanic
        | Some x \<Rightarrow> reports (dl_target x) (Suc attempt) r)"
proof -
  define sh0 where "sh0 = e_before e sh"
  have s0: "steps t (sh_table sh0)" using st ok unfolding env_ok_def sh0_def by (metis rtranclp_trans)
  obtain r u m where p: "plan (rq_spec rq) (rq_tag rq) skipped (e_plan e) (e_target e) (sh_table sh0) (sh_metrics sh0) = (r, u, m)"
    by (metis prod_cases3)
  have su: "steps t u" by (rule steps_calls(1) [OF p s0])
  define sh1 where "sh1 = sh0\<lparr>sh_table := u, sh_metrics := m\<rparr>"
  have s1: "steps t (sh_table sh1)" by (simp add: sh1_def su)
  note defs = attempt_once_def Let_def sh0_def [symmetric] p prod.case sh1_def [symmetric]
  have all: "steps t (sh_table sh') \<and> (\<forall>x. d = Some x \<longrightarrow> wire_ok co rq x \<and> planned rq e skipped t (dl_target x))
    \<and> (\<forall>s sr' err. out = Again s sr' err \<longrightarrow> (\<exists>x. d = Some x \<and> s = insert (identity (dl_target x)) skipped
        \<and> Suc attempt < co_max_attempts co))
    \<and> (\<forall>r. out = Done r \<longrightarrow> (case d of None \<Rightarrow> (\<exists>err. r = SendErr err) \<or> r = SendPanic
        | Some x \<Rightarrow> reports (dl_target x) (Suc attempt) r))"
  proof (cases r)
    case (Planned pl)
    have pd: "planned rq e skipped t (p_target pl)" unfolding planned_def using s0 p [unfolded Planned] by blast
    obtain ad cb where a: "admit (e_admit e) (sh_circuit sh1) = (ad, cb)" by fastforce
    show ?thesis
    proof (cases ad)
      case Allowed
      have dial: "dial_target co rq e (Suc attempt) (insert (identity (p_target pl)) skipped) sr (p_target pl)
          (sh1\<lparr>sh_circuit := cb\<rparr>) = (out, d, sh')"
        using assms(1) unfolding defs Planned plan_result.case a Allowed admission.case .
      have "steps t (sh_table (sh1\<lparr>sh_circuit := cb\<rparr>))" using s1 by simp
      note f = dial_target_facts [OF dial ok this]
      from f(2) pd have 1: "\<forall>x. d = Some x \<longrightarrow> dl_target x = p_target pl \<and> wire_ok co rq x \<and> planned rq e skipped t (dl_target x)"
        by auto
      with f(3) have 2: "\<forall>s sr' err. out = Again s sr' err \<longrightarrow> (\<exists>x. d = Some x \<and> s = insert (identity (dl_target x)) skipped
        \<and> Suc attempt < co_max_attempts co)" by (metis not_None_eq)
      from f(4) 1 have 3: "\<forall>r. out = Done r \<longrightarrow> (case d of None \<Rightarrow> (\<exists>err. r = SendErr err) \<or> r = SendPanic
        | Some x \<Rightarrow> reports (dl_target x) (Suc attempt) r)" by (auto split: option.split)
      from f(1) 1 2 3 show ?thesis by blast
    next
      case (Refused rem why)
      from assms(1) have "out = Done (SendErr (refused_error rem why))" "d = None" "sh' = sh1\<lparr>sh_circuit := cb\<rparr>"
        unfolding defs Planned plan_result.case a Refused admission.case by simp_all
      with s1 show ?thesis by simp
    qed
  next
    case (Waitable w)
    obtain err sh2 where ru: "route_unavailable co w (e_admit e) sh1 = (err, sh2)" by fastforce
    then have "sh2 = sh1 \<or> sh2 = sh1\<lparr>sh_table := snd (usable_route_count (e_admit e) (sh_table sh1))\<rparr>"
      by (auto simp: route_unavailable_def split: option.splits)
    moreover have "steps t (snd (usable_route_count (e_admit e) (sh_table sh1)))"
      using steps_calls(3) [OF _ s1] by (metis prod.collapse)
    ultimately have "steps t (sh_table sh2)" using s1 by auto
    moreover from assms(1) have "out = Done (SendErr err)" "d = None" "sh' = sh2"
      unfolding defs Waitable plan_result.case ru by simp_all
    ultimately show ?thesis by simp
  next
    case PlanPanic
    from assms(1) have "out = Done SendPanic" "d = None" "sh' = sh1"
      unfolding defs PlanPanic plan_result.case by simp_all
    with s1 show ?thesis by simp
  qed
  from all show "steps t (sh_table sh')" by blast
  from all show "\<And>x. d = Some x \<Longrightarrow> wire_ok co rq x \<and> planned rq e skipped t (dl_target x)" by blast
  from all show "\<And>s sr' err. out = Again s sr' err \<Longrightarrow> \<exists>x. d = Some x \<and> s = insert (identity (dl_target x)) skipped
        \<and> Suc attempt < co_max_attempts co" by blast
  from all show "\<And>r. out = Done r \<Longrightarrow> (case d of None \<Rightarrow> (\<exists>err. r = SendErr err) \<or> r = SendPanic
        | Some x \<Rightarrow> reports (dl_target x) (Suc attempt) r)" by blast
qed

text \<open>The loop never comes back to find its budget spent: an attempt that uses it up does not ask for
  another, so the branch that counts an exhausted budget is not reached.\<close>

lemma again_within_budget:
  "attempt_once co rq e attempt skipped sr sh = (Again s sr' err, d, sh') \<Longrightarrow> env_ok e \<Longrightarrow> Suc attempt < co_max_attempts co"
  using attempt_once_facts(3) [of co rq e attempt skipped sr sh "Again s sr' err" d sh' "sh_table sh"] by blast

text \<open>A first 400 is not passed through: its route cools and the next one is tried.\<close>

lemma invalid_request_fails_over:
  "attempt < co_max_attempts co \<Longrightarrow>
    \<exists>cooldown. fl_rule (fst (on_invalid_request co ac target tag attempt e sh)) = TryRoute cooldown"
  by (auto simp: on_invalid_request_def split: prod.splits)

section \<open>The loop\<close>

text \<open>Unfolding one iteration, with the environment's facts at hand.\<close>

lemma send_loop_cases:
  assumes "send_loop co rq envs attempt skipped sr prior sh = (r, ds, sh')" and "attempt < co_max_attempts co"
  obtains (stop) d where "attempt_once co rq (envs attempt) attempt skipped sr sh = (Done r, d, sh')"
      "ds = (case d of Some x \<Rightarrow> [x] | None \<Rightarrow> [])"
  | (again) d s' sr' err sh1 ds' where "attempt_once co rq (envs attempt) attempt skipped sr sh = (Again s' sr' err, d, sh1)"
      "send_loop co rq envs (Suc attempt) s' sr' (Some err) sh1 = (r, ds', sh')"
      "ds = (case d of Some x \<Rightarrow> x # ds' | None \<Rightarrow> ds')"
proof -
  obtain out d sh1 where o: "attempt_once co rq (envs attempt) attempt skipped sr sh = (out, d, sh1)" by (metis prod_cases3)
  show ?thesis
  proof (cases out)
    case (Done r')
    with assms o stop show ?thesis by (subst (asm) send_loop.simps) auto
  next
    case (Again s' sr' err)
    obtain r1 ds1 sh2 where l: "send_loop co rq envs (Suc attempt) s' sr' (Some err) sh1 = (r1, ds1, sh2)" by (metis prod_cases3)
    from assms o Again l have "r = r1" "sh' = sh2" "ds = (case d of Some x \<Rightarrow> x # ds1 | None \<Rightarrow> ds1)"
      by (subst (asm) send_loop.simps, simp)+
    with again [of s' sr' err d sh1 ds1] o Again l show ?thesis by simp
  qed
qed

lemma send_loop_budget:
  "send_loop co rq envs attempt skipped sr prior sh = (r, ds, sh') \<Longrightarrow> length ds \<le> co_max_attempts co - attempt"
proof (induction "co_max_attempts co - attempt" arbitrary: attempt skipped sr prior sh ds)
  case 0
  then have "co_max_attempts co \<le> attempt" by simp
  with 0(2) have "ds = []" by (subst (asm) send_loop.simps) (auto split: prod.splits)
  then show ?case by simp
next
  case (Suc k)
  then have lt: "attempt < co_max_attempts co" by simp
  from Suc.prems lt show ?case
  proof (cases rule: send_loop_cases)
    case (stop d)
    with lt show ?thesis by (auto split: option.split)
  next
    case (again d s' sr' err sh1 ds')
    have "k = co_max_attempts co - Suc attempt" using Suc.hyps(2) by simp
    from Suc.hyps(1) [OF this again(2)] have "length ds' \<le> k" using \<open>k = _\<close> by simp
    with again(3) Suc.hyps(2) show ?thesis by (auto split: option.split)
  qed
qed

definition committed :: "send_result \<Rightarrow> bool" where
  "committed r = (case r of SentJson b tg n \<Rightarrow> True | SentStream b es tg n \<Rightarrow> True | SendErr err \<Rightarrow> False | SendPanic \<Rightarrow> False)"

text \<open>Every dial was planned against the identities dialed before it, and a committed result is
  the last dial's.\<close>

definition dials_ok :: "core \<Rightarrow> send_request \<Rightarrow> (nat \<Rightarrow> env) \<Rightarrow> nat \<Rightarrow> identity set \<Rightarrow> route_table \<Rightarrow> dial list \<Rightarrow> bool" where
  "dials_ok co rq envs attempt skipped t ds = (\<forall>i < length ds. wire_ok co rq (ds ! i)
     \<and> planned rq (envs (attempt + i)) (skipped \<union> (\<lambda>x. identity (dl_target x)) ` set (take i ds)) t (dl_target (ds ! i)))"

lemma dials_ok_Cons:
  assumes "wire_ok co rq x" "planned rq (envs attempt) skipped t (dl_target x)"
    and "dials_ok co rq envs (Suc attempt) (insert (identity (dl_target x)) skipped) t ds"
  shows "dials_ok co rq envs attempt skipped t (x # ds)"
  unfolding dials_ok_def
proof (intro allI impI)
  fix i
  assume i: "i < length (x # ds)"
  show "wire_ok co rq ((x # ds) ! i) \<and> planned rq (envs (attempt + i))
      (skipped \<union> (\<lambda>x. identity (dl_target x)) ` set (take i (x # ds))) t (dl_target ((x # ds) ! i))"
    using i assms by (cases i) (auto simp: dials_ok_def)
qed

lemma planned_mono: "steps t u \<Longrightarrow> planned rq e skipped u target \<Longrightarrow> planned rq e skipped t target"
  unfolding planned_def by (blast intro: rtranclp_trans)

lemma dials_ok_mono: "steps t u \<Longrightarrow> dials_ok co rq envs attempt skipped u ds \<Longrightarrow> dials_ok co rq envs attempt skipped t ds"
  unfolding dials_ok_def using planned_mono by blast

lemma send_loop_facts:
  assumes env: "\<And>n. env_ok (envs n)"
  shows "send_loop co rq envs attempt skipped sr prior sh = (r, ds, sh') \<Longrightarrow> attempt < co_max_attempts co \<Longrightarrow>
    steps (sh_table sh) (sh_table sh') \<and> dials_ok co rq envs attempt skipped (sh_table sh) ds
    \<and> (committed r \<longrightarrow> ds \<noteq> [] \<and> reports (dl_target (last ds)) (attempt + length ds) r)"
proof (induction "co_max_attempts co - attempt" arbitrary: attempt skipped sr prior sh ds)
  case (Suc k)
  show ?case using Suc.prems
  proof (cases rule: send_loop_cases)
    case (stop d)
    note f = attempt_once_facts [OF stop(1) env rtranclp.rtrancl_refl]
    show ?thesis using f(1) f(2) f(4) [OF refl] stop(2)
      by (cases d) (auto simp: committed_def dials_ok_def split: send_result.splits)
  next
    case (again d s' sr' err sh1 ds')
    note f = attempt_once_facts [OF again(1) env rtranclp.rtrancl_refl]
    from f(3) [OF refl] obtain x where x: "d = Some x" "s' = insert (identity (dl_target x)) skipped"
      and lt: "Suc attempt < co_max_attempts co" by blast
    have k: "k = co_max_attempts co - Suc attempt" using Suc.hyps(2) by simp
    from Suc.hyps(1) [OF k again(2) lt] have ih: "steps (sh_table sh1) (sh_table sh')"
      "dials_ok co rq envs (Suc attempt) s' (sh_table sh1) ds'"
      "committed r \<longrightarrow> ds' \<noteq> [] \<and> reports (dl_target (last ds')) (Suc attempt + length ds') r" by blast+
    have ds: "ds = x # ds'" using again(3) x(1) by simp
    have "dials_ok co rq envs attempt skipped (sh_table sh) ds"
      unfolding ds using f(2) [OF x(1)] dials_ok_mono [OF f(1) ih(2)] x(2) by (intro dials_ok_Cons) simp_all
    with ih(1,3) rtranclp_trans [OF f(1)] ds show ?thesis by auto
  qed
qed simp

section \<open>A sample exchange\<close>

definition sample_ext :: externals where
  "sample_ext = \<lparr>x_parse_json = (\<lambda>s. Some (JObject [])), x_render_json = (\<lambda>v. Some ''{}''), x_http_date = (\<lambda>s. None)\<rparr>"

definition sample_core :: core where
  "sample_core = new_core two_groups ''sensenova-proxy'' (\<lambda>s. True) sample_ext"

definition sample_env :: "exchange \<Rightarrow> env" where
  "sample_env x = \<lparr>e_before = id, e_plan = 5, e_target = 6, e_admit = 6, e_start = 6, e_during = id,
     e_exchange = (\<lambda>target wire. x), e_note = 9, e_wall = 0, e_nanos = 0, e_follow = 9, e_follow_target = 9\<rparr>"

definition sample_request :: send_request where
  "sample_request = \<lparr>rq_stream = False, rq_id = ''r'', rq_canonical = ''{}'', rq_tag = ''s'', rq_spec = Literal ''glm-5.2''\<rparr>"

definition sample_shared :: shared where
  "sample_shared = new_shared two_groups 0"

lemma sample_core_sel [simp]:
  "co_max_attempts sample_core = 4" "co_ext sample_core = sample_ext" "co_same_route_retries sample_core = 0"
  by (simp_all add: sample_core_def new_core_def two_groups_def config_with_def route_config_of_def default_routing_def Let_def)

lemma sample_shared_sel [simp]:
  "sh_table sample_shared = table2" "sh_metrics sample_shared = new_metrics" "cb_state (sh_circuit sample_shared) = Closed"
  by (simp_all add: sample_shared_def new_shared_def table2_def new_breaker_def)

lemma sample_env_ok: "env_ok (sample_env x)"
  by (simp add: env_ok_def sample_env_def)

definition answer_ok :: exchange where "answer_ok = Answered 200 (\<lambda>h. None) [Chunk ''{}'']"

lemma sample_sent:
  "\<exists>sh' x. send_messages sample_core sample_request (\<lambda>n. sample_env answer_ok) sample_shared = (SentJson ''{}'' target_a 1, [x], sh')
    \<and> dl_target x = target_a"
proof -
  obtain p t' m' where p: "plan (Literal ''glm-5.2'') ''s'' {} 5 6 table2 new_metrics = (Planned p, t', m')"
    and tg: "p_target p = target_a" using sample_plan by (force simp: target_a_def)
  have rw: "rewrite_model sample_ext ''{}'' ''glm-5.2'' = Inr ''{}''" by (simp add: rewrite_model_def sample_ext_def)
  let ?e = "sample_env answer_ok"
  have hx: "\<exists>g' sh'. handle_exchange sample_core sample_request target_a (Suc 0) ?e g answer_ok sh
      = (Inl (SentJson ''{}'' target_a (Suc 0)), g', sh')" for g sh
    unfolding handle_exchange_def answer_ok_def Let_def by (simp add: max_upstream_response_bytes_def sample_request_def sample_ext_def split: prod.split)
  have dt: "\<exists>d sh'. dial_target sample_core sample_request ?e (Suc 0) skipped 0 target_a sh
      = (Done (SentJson ''{}'' target_a (Suc 0)), Some d, sh') \<and> dl_target d = target_a" for skipped sh
  proof -
    define sh1 where "sh1 = sh\<lparr>sh_metrics := (sh_metrics sh)\<lparr>route_attempts_total := route_attempts_total (sh_metrics sh) + 1,
            upstream_requests_total := upstream_requests_total (sh_metrics sh) + 1\<rparr>\<rparr>"
    obtain g u where b: "begin_attempt target_a (sh_table sh1) = (g, u)" by fastforce
    have x: "e_exchange ?e target wire = answer_ok" for target wire by (simp add: sample_env_def)
    have c: "rq_canonical sample_request = ''{}''" by (simp add: sample_request_def)
    obtain g' sh' where h: "handle_exchange sample_core sample_request target_a (Suc 0) ?e g answer_ok (e_during ?e (sh1\<lparr>sh_table := u\<rparr>))
      = (Inl (SentJson ''{}'' target_a (Suc 0)), g', sh')" using hx by blast
    show ?thesis unfolding dial_target_def Let_def sh1_def [symmetric] c sample_core_sel target_sel rw sum.case b prod.case x h
      by simp
  qed
  have "\<exists>d sh'. attempt_once sample_core sample_request ?e 0 {} 0 sample_shared
      = (Done (SentJson ''{}'' target_a (Suc 0)), Some d, sh') \<and> dl_target d = target_a"
  proof -
    have sel: "e_before ?e = id" "e_plan ?e = 5" "e_target ?e = 6" "rq_spec sample_request = Literal ''glm-5.2''"
      "rq_tag sample_request = ''s''" by (simp_all add: sample_env_def sample_request_def)
    have "admit n (sh_circuit (sample_shared\<lparr>sh_table := u, sh_metrics := v\<rparr>)) = (Allowed, sh_circuit sample_shared)" for n u v
      by (simp add: admit_def)
    then show ?thesis using dt
      unfolding attempt_once_def Let_def sel id_apply sample_shared_sel p prod.case plan_result.case tg
      by simp
  qed
  then obtain d sh' where a: "attempt_once sample_core sample_request ?e 0 {} 0 sample_shared
      = (Done (SentJson ''{}'' target_a (Suc 0)), Some d, sh')" "dl_target d = target_a" by blast
  then show ?thesis by (subst send_messages_def, subst send_loop.simps) simp
qed

section \<open>The properties\<close>

text \<open>C9: The attempt budget.  One logical request makes at most \<open>max_route_attempts\<close> upstream
  attempts, whatever the upstream answers and whatever other requests do meanwhile.\<close>

theorem attempt_budget:
  "length (fst (snd (send_messages co rq envs sh))) \<le> co_max_attempts co"
proof -
  obtain r ds sh' where "send_messages co rq envs sh = (r, ds, sh')" by (metis prod_cases3)
  then show ?thesis using send_loop_budget [of co rq envs 0 "{}" 0 None sh r ds sh'] by (simp add: send_messages_def)
qed


lemma planned_static:
  assumes "planned rq e skipped t target" "env_ok e"
  shows "\<exists>ts lat lower. spec_tiers (t_profiles t) (rq_spec rq) = Some (ts, lat, lower)
    \<and> rt_model target \<in> set (concat (map tier_models ts)) \<and> (\<forall>l. rq_spec rq = Literal l \<longrightarrow> rt_model target = l)"
proof -
  from assms(1) obtain u m p u' m' where u: "steps t u" "p_target p = target"
    "plan (rq_spec rq) (rq_tag rq) skipped (e_plan e) (e_target e) u m = (Planned p, u', m')"
    by (auto simp: planned_def)
  have "t_profiles u = t_profiles t" using static_steps [OF u(1)] by (simp add: static_def)
  moreover have "e_plan e \<le> e_target e" using assms(2) by (simp add: env_ok_def)
  ultimately obtain ts lat lower where "spec_tiers (t_profiles t) (rq_spec rq) = Some (ts, lat, lower)"
    "p_stepped_down p < length ts" "rt_model target \<in> set (tier_models (ts ! p_stepped_down p))"
    "\<forall>l. rq_spec rq = Literal l \<longrightarrow> rt_model target = l"
    using plan_quality_isolation_core [OF u(3)] u(2) by auto
  then show ?thesis by (auto intro: nth_mem)
qed

text \<open>C1: Quality isolation of a whole request.  Every attempt, retries and failovers included,
  dials a model that the requested profile lists; a request for a literal model dials only it.\<close>

theorem request_quality_isolation:
  assumes "send_messages co rq envs sh = (r, ds, sh')" and "\<And>n. env_ok (envs n)" and "0 < co_max_attempts co"
    and "x \<in> set ds"
  shows "\<exists>ts lat lower. spec_tiers (t_profiles (sh_table sh)) (rq_spec rq) = Some (ts, lat, lower)
    \<and> rt_model (dl_target x) \<in> set (concat (map tier_models ts))
    \<and> (\<forall>l. rq_spec rq = Literal l \<longrightarrow> rt_model (dl_target x) = l)"
proof -
  from send_loop_facts [where envs = envs, OF assms(2)] assms(1,3) have d: "dials_ok co rq envs 0 {} (sh_table sh) ds"
    by (simp add: send_messages_def)
  from assms(4) obtain i where "i < length ds" "ds ! i = x" by (auto simp: in_set_conv_nth)
  with d have "planned rq (envs i) ((\<lambda>x. identity (dl_target x)) ` set (take i ds)) (sh_table sh) (dl_target x)"
    by (auto simp: dials_ok_def)
  from planned_static [OF this assms(2)] show ?thesis .
qed


theorem request_quality_isolation_witness:
  "\<exists>x sh'. send_messages sample_core sample_request (\<lambda>n. sample_env answer_ok) sample_shared
      = (SentJson ''{}'' target_a 1, [x], sh') \<and> rt_model (dl_target x) = ''glm-5.2''"
proof -
  obtain x sh' where s: "send_messages sample_core sample_request (\<lambda>n. sample_env answer_ok) sample_shared
      = (SentJson ''{}'' target_a 1, [x], sh')" using sample_sent by blast
  from request_quality_isolation [OF s sample_env_ok, of x] s show ?thesis by (auto simp: sample_request_def)
qed



text \<open>Commit.  A committed answer is the answer to the last dial, reported with its target and
  with the number of dials as its attempt: nothing is dialed after the commit.\<close>

theorem committed_is_last_dial:
  assumes "send_messages co rq envs sh = (r, ds, sh')" and "\<And>n. env_ok (envs n)" and "0 < co_max_attempts co"
    and "committed r"
  shows "ds \<noteq> [] \<and> reports (dl_target (last ds)) (length ds) r"
  using send_loop_facts [where envs = envs, OF assms(2), of co rq 0 "{}" 0 None sh r ds sh'] assms(1,3,4)
  by (simp add: send_messages_def)

theorem committed_is_last_dial_witness:
  "\<exists>ds sh'. send_messages sample_core sample_request (\<lambda>n. sample_env answer_ok) sample_shared
      = (SentJson ''{}'' target_a 1, ds, sh') \<and> dl_target (last ds) = target_a \<and> length ds = 1"
proof -
  obtain x sh' where s: "send_messages sample_core sample_request (\<lambda>n. sample_env answer_ok) sample_shared
      = (SentJson ''{}'' target_a 1, [x], sh')" using sample_sent by blast
  from committed_is_last_dial [OF s sample_env_ok] s show ?thesis by (auto simp: committed_def reports_def)
qed

lemma distinct_takeI: "(\<And>i. i < length xs \<Longrightarrow> xs ! i \<notin> set (take i xs)) \<Longrightarrow> distinct xs"
proof (induction xs rule: rev_induct)
  case (snoc x xs)
  have "xs ! i \<notin> set (take i xs)" if "i < length xs" for i
    using snoc.prems [of i] that by (simp add: nth_append)
  with snoc.IH snoc.prems [of "length xs"] show ?case by simp
qed simp

definition one_key_per_group :: "route_table \<Rightarrow> bool" where
  "one_key_per_group t = distinct (map ke_group (t_keys t))"

lemma target_identity_fresh:
  assumes "plan spec tag skipped now now2 t m = (Planned p, t', m')" "now \<le> now2" "positional t" "one_key_per_group t"
  shows "identity (p_target p) \<notin> skipped"
proof -
  from plan_chosen [OF assms(1,2)] obtain ts lat lower c where x:
    "choose_spec skipped (pinned tag now t) lat lower now t 0 ts None = Inr (p_stepped_down p, c)"
    "target_spec c (p_stepped_down p) now2 t = Some (p_target p)" by metis
  from choose_spec_Inr [OF x(1)] have "c \<in> set (tier_ready skipped now t (tier_models (ts ! p_stepped_down p)))"
    using chosen_in_ready by auto
  then have el: "\<not> all_skipped skipped c" "fst (dial_spec c now t) = Ready"
    and cand: "c \<in> set (tier_candidates t (tier_models (ts ! p_stepped_down p)))"
    by (auto simp: tier_ready_def eligible_def)
  note f = tier_candidates_facts [OF cand]
  have same: "i = j" if "i \<in> set (members (c_group c) (t_keys t))" "j \<in> set (members (c_group c) (t_keys t))" for i j
  proof -
    from that obtain a b where "a \<in> set (t_keys t)" "b \<in> set (t_keys t)" "ke_group a = c_group c" "ke_group b = c_group c"
      "ke_index a = i" "ke_index b = j" by (auto simp: members_def)
    moreover have "inj_on ke_group (set (t_keys t))" using assms(4) by (simp add: one_key_per_group_def distinct_map)
    ultimately show ?thesis by (metis inj_onD)
  qed
  from target_spec_ready [OF dial_spec_Ready(1) [OF el(2)] assms(2), of "p_stepped_down p"] x(2) obtain i e
    where k: "i \<in> set (key_choices c)" "key_entry_at t i = Some e"
      "rt_key (p_target p) = new_selected_key (ke_index e) (ke_name e) (ke_group e) (ke_api_key e)" by auto
  have idx: "ke_index e = i" using assms(3) k(2)
    by (auto simp: key_entry_at_def positional_def split: if_splits) (metis add_0 diff_zero nth_map nth_upt)
  have "identity (p_target p) = (c_model_hash c, c_group_hash c, i)"
    using target_spec_sel [OF x(2)] f(2,3) k(3) idx by (simp add: identity_def new_selected_key_def)
  moreover obtain j where "j \<in> set (key_choices c)" "(c_model_hash c, c_group_hash c, j) \<notin> skipped"
    using el(1) by (auto simp: all_skipped_def list_all_iff)
  ultimately show ?thesis using same [of i j] k(1) f(6) by auto
qed



end
