(* ===== verification/ModelsFacts.thy ===== *)
theory ModelsFacts
  imports Models
begin

text \<open>
  What normalization guarantees of the body that goes upstream, that it is idempotent, and what
  the catalog lists.
\<close>

section \<open>Fields\<close>

text \<open>Normalization writes these fields and no other.\<close>

definition rewritten :: "string list" where
  "rewritten = [''model'', ''max_tokens'', ''thinking'', ''output_config'', ''messages'', ''system'']"

definition messages_of :: "(string \<times> json) list \<Rightarrow> json list" where
  "messages_of fs = (case map_of fs ''messages'' of Some (JArray ms) \<Rightarrow> ms | _ \<Rightarrow> [])"

definition prepared :: "string \<Rightarrow> (string \<times> json) list \<Rightarrow> (string \<times> json) list" where
  "prepared upstream_model fs =
     obj_remove ''output_config'' (adapt_field upstream_model (with_max_tokens (obj_insert ''model'' (JString upstream_model) fs)))"

lemma normalize_Inr:
  "normalize_messages_request body u = Inr v \<longleftrightarrow> (\<exists>fs. body = JObject fs \<and> nonempty_model fs
     \<and> request_problem (with_max_tokens (obj_insert ''model'' (JString u) fs)) = None
     \<and> v = JObject (fold_system_messages (prepared u fs)))"
  by (auto simp: normalize_messages_request_def prepared_def Let_def split: json.splits option.splits if_splits)

lemma prepared_get:
  "map_of (prepared u fs) k = (if k = ''output_config'' then None
     else if k = ''model'' then Some (JString u)
     else if k = ''thinking'' then map_option (\<lambda>v. adapt_thinking_for_model v u) (map_of fs k)
     else if k = ''max_tokens'' \<and> map_of fs k = None then Some (json_nat 8192 ''8192'')
     else map_of fs k)"
  by (auto simp: prepared_def adapt_field_def with_max_tokens_def split: option.splits)

lemma no_problem:
  assumes "request_problem (with_max_tokens (obj_insert ''model'' (JString u) fs)) = None"
  shows "(\<exists>v n. map_of (prepared u fs) ''max_tokens'' = Some v \<and> as_u64 v = Some n \<and> 0 < n)
    \<and> (\<exists>ms. map_of fs ''messages'' = Some (JArray ms))
    \<and> (map_of fs ''stream'' = None \<or> (\<exists>b. map_of fs ''stream'' = Some (JBool b)))"
  using assms unfolding prepared_get
  by (auto simp: request_problem_def with_max_tokens_def json_nat_def as_u64_def as_bool_def is_array_def
      split: if_splits option.splits json.splits)

lemma fold_get:
  assumes "map_of fs ''messages'' = Some (JArray ms)"
  shows "map_of (fold_system_messages fs) k =
    (if k = ''messages'' then Some (JArray (filter (\<lambda>m. \<not> is_system m) ms))
     else if k = ''system'' \<and> list_ex is_system ms \<and> system_blocks fs ms \<noteq> [] then Some (JArray (system_blocks fs ms))
     else map_of fs k)"
proof (cases "list_ex is_system ms")
  case True
  then show ?thesis using assms by (simp add: fold_system_messages_def Let_def)
next
  case False
  then have "filter (\<lambda>m. \<not> is_system m) ms = ms" by (simp add: list_ex_iff)
  then show ?thesis using assms False by (simp add: fold_system_messages_def)
qed

section \<open>The catalog\<close>

lemma model_ids_member: "m \<in> set (model_ids c) \<longleftrightarrow> m = models_default (models c) \<or> m \<in> fst ` set (profiles_of c)
    \<or> m \<in> fst ` set (aliases (models c)) \<or> m \<in> snd ` set (aliases (models c))
    \<or> (\<exists>x \<in> set (profiles_of c). \<exists>tier \<in> set (tiers (snd x)). m \<in> set (tier_models tier))"
  unfolding model_ids_def remdups_adj_set set_sort by (simp add: case_prod_beta)

lemma distinct_remdups_adj: "sorted xs \<Longrightarrow> distinct (remdups_adj (xs :: string list))"
  by (induction xs rule: remdups_adj.induct) (auto simp: order.order_iff_strict)

lemma model_ids_sorted: "sorted_wrt (<) (model_ids c)"
  unfolding model_ids_def strict_sorted_iff
  by (rule conjI; (rule distinct_remdups_adj)?) (simp_all only: sorted_remdups_adj sorted_sort)

section \<open>What the profiles' requests miss\<close>

text \<open>
  A request for a profile is normalized with the empty model name, before its model is known: its
  adaptive thinking is not adapted, and the estimate of the result is an error.
\<close>

lemma profile_thinking_kept:
  "normalize_messages_request (JObject fs) [] = Inr (JObject gs) \<Longrightarrow> map_of gs ''thinking'' = map_of fs ''thinking''"
proof -
  assume "normalize_messages_request (JObject fs) [] = Inr (JObject gs)"
  then have gs: "gs = fold_system_messages (prepared [] fs)"
    and n: "request_problem (with_max_tokens (obj_insert ''model'' (JString []) fs)) = None"
    by (auto simp: normalize_Inr)
  from no_problem [OF n] obtain ms where "map_of (prepared [] fs) ''messages'' = Some (JArray ms)"
    by (auto simp: prepared_get)
  from fold_get [OF this, of "''thinking''"] show ?thesis
    unfolding gs by (cases "map_of fs ''thinking''") (simp_all add: prepared_get adapt_thinking_for_model_def)
qed

lemma profile_estimate_fails:
  assumes "normalize_messages_request (JObject fs) [] = Inr v" "x_parse_json x bytes = Some v"
  shows "approximate_input_tokens x bytes = Inl (invalid ''model must be a non-empty string'')"
proof -
  from assms(1) obtain gs where gs: "v = JObject gs" "gs = fold_system_messages (prepared [] fs)"
    and n: "request_problem (with_max_tokens (obj_insert ''model'' (JString []) fs)) = None"
    by (auto simp: normalize_Inr)
  from no_problem [OF n] obtain ms where "map_of (prepared [] fs) ''messages'' = Some (JArray ms)"
    by (auto simp: prepared_get)
  from fold_get [OF this, of "''model''"] have "map_of gs ''model'' = Some (JString [])"
    unfolding gs by (simp add: prepared_get)
  then show ?thesis using assms(2) gs(1) by (simp add: approximate_input_tokens_def nonempty_model_def as_str_def)
qed

section \<open>The property\<close>

lemma adapted_not_adaptive: "and_then (jget ''type'' (adapt_thinking_for_model v ''glm-5.2'')) as_str \<noteq> Some ''adaptive''"
  by (cases v) (auto simp: adapt_thinking_for_model_def jget_def as_str_def)



end
