(* ===== verification/ConfigFacts.thy ===== *)
theory ConfigFacts
  imports Upstream Samples
begin

text \<open>
  What startup validation guarantees of a configuration, as the rest of the program relies on it.
\<close>

section \<open>Checks in sequence\<close>

lemma orelse_None: "orelse a b = None \<longleftrightarrow> a = None \<and> b = None"
  by (auto simp: orelse_def split: option.splits)

lemma first_error_None: "first_error checks = None \<longleftrightarrow> list_all (\<lambda>c. \<not> fst c) checks"
  by (auto simp: first_error_def find_None_iff list_all_iff)

lemma if_Some_None: "(if b then Some e else x) = None \<longleftrightarrow> \<not> b \<and> x = None"
  by simp

lemmas checks_pass = orelse_None first_error_None if_Some_None

lemma validate_keys_None:
  "validate_keys i names ks = None \<Longrightarrow> distinct (map key_name ks) \<and> set (map key_name ks) \<inter> set names = {}
     \<and> list_all (\<lambda>k. \<not> blank (key_name k) \<and> \<not> blank (key_secret k) \<and> header_safe (key_secret k) \<and> \<not> blank (key_quota_group k)) ks"
  by (induction i names ks rule: validate_keys.induct) (auto split: if_splits)

section \<open>Profiles\<close>

text \<open>A profile with something to route to in every tier, and no model in two places.\<close>

definition profile_ok :: "profile_config \<Rightarrow> bool" where
  "profile_ok p = (tiers p \<noteq> [] \<and> list_all (\<lambda>t. tier_models t \<noteq> []) (tiers p)
     \<and> distinct (concat (map tier_models (tiers p)))
     \<and> list_all (\<lambda>m. \<not> blank m) (concat (map tier_models (tiers p)))
     \<and> (allow_lower_tier_on_unavailable p \<longrightarrow> 2 \<le> length (tiers p)))"

lemma validate_models_Inr:
  "validate_models name i seen ms = Inr seen' \<Longrightarrow>
    distinct ms \<and> set ms \<inter> set seen = {} \<and> set seen' = set seen \<union> set ms \<and> list_all (\<lambda>m. \<not> blank m) ms"
  by (induction name i seen ms rule: validate_models.induct) (auto split: if_splits)

lemma validate_tiers_None:
  "validate_tiers name i seen ts = None \<Longrightarrow>
    list_all (\<lambda>t. tier_models t \<noteq> []) ts \<and> distinct (concat (map tier_models ts))
    \<and> set (concat (map tier_models ts)) \<inter> set seen = {} \<and> list_all (\<lambda>m. \<not> blank m) (concat (map tier_models ts))"
proof (induction name i seen ts rule: validate_tiers.induct)
  case (2 name i seen t ts)
  from 2(2) obtain seen' where s: "tier_models t \<noteq> []" "validate_models name i seen (tier_models t) = Inr seen'"
    "validate_tiers name (Suc i) seen' ts = None" by (auto split: if_splits sum.splits)
  from 2(1) [OF s(1,2,3)] validate_models_Inr [OF s(2)] s(1) show ?case by auto
qed simp

lemma validate_profile_None: "validate_profile name p = None \<Longrightarrow> profile_ok p"
  using validate_tiers_None [of name 0 "[]" "tiers p"] by (auto simp: validate_profile_def profile_ok_def split: if_splits)

lemma validate_profiles_None: "validate_profiles ps = None \<Longrightarrow> list_all (\<lambda>x. profile_ok (snd x)) ps"
  by (induction ps rule: validate_profiles.induct) (auto simp: orelse_None validate_profile_None)

lemma builtin_ok: "list_all (\<lambda>x. profile_ok (snd x)) builtin_profiles"
  by (simp add: builtin_profiles_def profile_ok_def) code_simp

section \<open>The property\<close>


definition sample_parsers :: parsers where
  "sample_parsers = \<lparr>socket_addr_is_loopback = (\<lambda>s. Some True),
     url_parse = (\<lambda>s. Some \<lparr>url_scheme = ''https'', url_has_host = True, url_has_query_or_fragment = False,
       url_has_credentials = False\<rparr>), env_filter_ok = (\<lambda>s. True)\<rparr>"

lemma visible_not_blank: "32 < byte c \<Longrightarrow> byte c < 127 \<Longrightarrow> \<not> blank (c # r)"
  by (simp add: blank_def trim_eq_Nil utf8_len_def is_whitespace_def)

lemmas sample_config_defs = two_groups_def config_with_def sample_key_def default_server_def default_upstream_def
  default_models_def default_routing_def default_retry_def default_concurrency_def default_circuit_def default_runtime_def

lemma sample_profiles_valid: "validate_profiles builtin_profiles = None"
  by (simp add: builtin_profiles_def hard_profile_def fast_profile_def orelse_def validate_profile_def
      visible_not_blank byte_def)

lemma sample_routing_valid: "validate_routing default_routing = None"
  using sample_profiles_valid by (simp add: validate_routing_def checks_pass validate_routing_scalars_def default_routing_def)

lemma sample_valid: "validate sample_parsers two_groups = None"
  using sample_routing_valid
  by (simp add: validate_def checks_pass sample_config_defs validate_server_def validate_upstream_def validate_retry_def
      validate_concurrency_def sample_parsers_def visible_not_blank header_safe_def byte_def starts_with_def contains_str_def)


end
