(* ===== verification/RouterInspect.thy ===== *)
theory RouterInspect
  imports RouterSpec
begin

text \<open>
  \<open>src/router.rs\<close>, what the table tells about itself: catalog queries, the counts of readiness and
  the snapshots for diagnostics.  They forget expired deadlines like every read, so each is shown to
  be a \<open>lazy_read\<close>, and the snapshots are related to what the planner sees.
\<close>

section \<open>The catalog\<close>

definition profile_names :: "route_table \<Rightarrow> string list" where
  "profile_names t = map fst (t_profiles t)"

definition is_profile :: "string \<Rightarrow> route_table \<Rightarrow> bool" where
  "is_profile name t = (map_of (t_profiles t) name \<noteq> None)"

definition models_of_profile :: "string \<Rightarrow> route_table \<Rightarrow> string list" where
  "models_of_profile name t = (case map_of (t_profiles t) name of Some p \<Rightarrow> profile_models p | None \<Rightarrow> [])"

definition affinity_len :: "route_table \<Rightarrow> nat" where
  "affinity_len t = length (t_affinity t)"

definition affinity_break_count :: "route_table \<Rightarrow> 64 word" where
  "affinity_break_count t = t_affinity_breaks t"

section \<open>The snapshots\<close>

text \<open>A lookup that does not create an entry.\<close>

definition route_disabled :: "string \<Rightarrow> string \<Rightarrow> instant \<Rightarrow> route_table \<Rightarrow> bool \<times> route_table" where
  "route_disabled model grp now t = (let id = (hash_name model, hash_name grp) in
     case t_routes t id of
       None \<Rightarrow> (False, t)
     | Some e \<Rightarrow> (let e' = e\<lparr>rs_disabled_until := clear (rs_disabled_until e) now\<rparr>
         in (rs_disabled_until e' \<noteq> None, t\<lparr>t_routes := (t_routes t)(id \<mapsto> e')\<rparr>)))"

definition route_cooling :: "string \<Rightarrow> string \<Rightarrow> instant \<Rightarrow> route_table \<Rightarrow> duration option \<times> route_table" where
  "route_cooling model grp now t = (let id = (hash_name model, hash_name grp) in
     case t_routes t id of
       None \<Rightarrow> (None, t)
     | Some e \<Rightarrow> (let e' = e\<lparr>rs_cooling_until := clear (rs_cooling_until e) now\<rparr>
         in (map_option (\<lambda>u. u - now) (rs_cooling_until e'), t\<lparr>t_routes := (t_routes t)(id \<mapsto> e')\<rparr>)))"

definition group_cooling :: "string \<Rightarrow> instant \<Rightarrow> route_table \<Rightarrow> duration option \<times> route_table" where
  "group_cooling grp now t = (case t_groups t grp of
       None \<Rightarrow> (None, t)
     | Some e \<Rightarrow> (let e' = e\<lparr>ge_cooling_until := clear (ge_cooling_until e) now\<rparr>
         in (map_option (\<lambda>u. u - now) (ge_cooling_until e'), t\<lparr>t_groups := (t_groups t)(grp \<mapsto> e')\<rparr>)))"

record model_snapshot =
  ms_model :: string
  ms_state :: circuit_state
  ms_open_reason :: string
  ms_disabled :: bool

text \<open>The circuit of the snapshot is brought up to date, the missing state is not.\<close>

definition snapshot_model :: "string \<Rightarrow> instant \<Rightarrow> route_table \<Rightarrow> model_snapshot \<times> route_table" where
  "snapshot_model model now t = (case t_models t model of
       Some e \<Rightarrow> (let e' = refresh_circuit now e
         in (\<lparr>ms_model = model, ms_state = me_state e', ms_open_reason = me_open_reason e', ms_disabled = me_disabled e'\<rparr>,
             t\<lparr>t_models := (t_models t)(model \<mapsto> e')\<rparr>))
     | None \<Rightarrow> (\<lparr>ms_model = model, ms_state = Closed, ms_open_reason = [], ms_disabled = False\<rparr>, t))"

record credential_snapshot =
  cs_name :: string
  cs_quota_group :: string
  cs_cooling_remaining :: "duration option"
  cs_unusable :: bool
  cs_rate_limit_streak :: nat
  cs_inflight :: nat

definition credential_of :: "instant \<Rightarrow> key_entry \<Rightarrow> credential_snapshot" where
  "credential_of now k = \<lparr>cs_name = ke_name k, cs_quota_group = ke_group k,
     cs_cooling_remaining = map_option (\<lambda>u. u - now) (ks_cooling_until (ke_state k)),
     cs_unusable = ks_unusable (ke_state k), cs_rate_limit_streak = ks_streak (ke_state k),
     cs_inflight = ks_inflight (ke_state k)\<rparr>"

definition credential_snapshots :: "instant \<Rightarrow> route_table \<Rightarrow> credential_snapshot list \<times> route_table" where
  "credential_snapshots now t = (let t' = clear_all_keys now t in (map (credential_of now) (t_keys t'), t'))"

section \<open>They are lazy reads\<close>

lemma clear_all_keys_settle:
  "settle now (clear_all_keys now t) = settle now t" "clear_all_keys now (settle now t) = settle now t"
  "t_keys (clear_all_keys now t) = map (settle_key now) (t_keys t)"
  by (simp_all add: clear_all_keys_def settle_def settle_key_def comp_def)

interpretation cr: lazy_read settle usable_credential_count "\<lambda>now t. length (filter (\<lambda>k. \<not> ks_unusable (ke_state k)
    \<and> clear (ks_cooling_until (ke_state k)) now = None) (t_keys t))"
  by unfold_locales (simp_all add: settle_later usable_credential_count_def Let_def clear_all_keys_settle
      filter_map comp_def)

interpretation cs: lazy_read settle credential_snapshots "\<lambda>now t. map (credential_of now \<circ> settle_key now) (t_keys t)"
  by unfold_locales (simp_all add: settle_later credential_snapshots_def Let_def clear_all_keys_settle comp_def)

interpretation er: lazy_read settle earliest_retry_after
  "\<lambda>now t. fold (\<lambda>k acc. case clear (ks_cooling_until (ke_state k)) now of None \<Rightarrow> acc
       | Some u \<Rightarrow> min_wait acc (u - now))
     (t_keys t) None"
  by unfold_locales (simp_all add: settle_later earliest_retry_after_def Let_def clear_all_keys_settle fold_map comp_def)

lemma settle_routes_some:
  "t_routes t r = Some e \<Longrightarrow> refresh_route now e' = refresh_route now e \<Longrightarrow>
    settle now (t\<lparr>t_routes := (t_routes t)(r \<mapsto> e')\<rparr>) = settle now t"
  by (simp add: settle_def fun_eq_iff)

interpretation rd: lazy_read settle "route_disabled m g"
  "\<lambda>now t. clear (rs_disabled_until (or_default (t_routes t (hash_name m, hash_name g)))) now \<noteq> None" for m g
  by unfold_locales (auto simp: settle_later route_disabled_def Let_def refresh_route_def
      intro!: settle_routes_some split: option.split)

interpretation rc: lazy_read settle "route_cooling m g"
  "\<lambda>now t. remaining (rs_cooling_until (or_default (t_routes t (hash_name m, hash_name g)))) now" for m g
  by unfold_locales (auto simp: settle_later route_cooling_def Let_def refresh_route_def remaining_def
      intro!: settle_routes_some split: option.split)

lemma settle_groups_some:
  "t_groups t g = Some e \<Longrightarrow> refresh_group now e' = refresh_group now e \<Longrightarrow>
    settle now (t\<lparr>t_groups := (t_groups t)(g \<mapsto> e')\<rparr>) = settle now t"
  by (simp add: settle_def fun_eq_iff)

lemma settle_models_some:
  "t_models t m = Some e \<Longrightarrow> refresh_model now e' = refresh_model now e \<Longrightarrow>
    settle now (t\<lparr>t_models := (t_models t)(m \<mapsto> e')\<rparr>) = settle now t"
  by (simp add: settle_def fun_eq_iff)

interpretation gc: lazy_read settle "group_cooling g" "group_health g" for g
  by unfold_locales (auto simp: settle_later group_cooling_def group_health_def Let_def refresh_group_def remaining_def
      intro!: settle_groups_some split: option.split)

lemma refresh_circuit_again: "refresh_model now (refresh_circuit now e) = refresh_model now e"
  by (simp add: refresh_model_def refresh_circuit_later)

lemma refresh_model_state: "me_state (refresh_model now e) = me_state (refresh_circuit now e)"
  by (simp add: refresh_model_def refresh_missing_def)

interpretation ms: lazy_read settle "\<lambda>now t. map_prod ms_state id (snapshot_model m now t)"
    "\<lambda>now t. mv_state (model_health m now t)" for m
proof unfold_locales
  fix now t
  show "fst (map_prod ms_state id (snapshot_model m now t)) = mv_state (model_health m now t)"
    by (cases "t_models t m") (simp_all add: snapshot_model_def model_health_def view_of_model_def Let_def
        refresh_model_state, simp add: refresh_circuit_def)
  show "settle now (snd (map_prod ms_state id (snapshot_model m now t))) = settle now t"
    by (cases "t_models t m") (simp_all add: snapshot_model_def Let_def settle_models_some refresh_circuit_again)
qed (simp_all add: settle_later model_health_def)

section \<open>The count of usable routes\<close>

definition route_usable :: "instant \<Rightarrow> route_table \<Rightarrow> string \<times> string \<Rightarrow> bool" where
  "route_usable now t r = (case r of (m, g) \<Rightarrow>
     list_ex (\<lambda>c. c_group c = g \<and> fst (dial_spec c now t) = Ready) (candidates t m))"

lemma any_ready_in_group_eq:
  "any_ready_in_group g now cs t = (r, t') \<Longrightarrow>
    r = list_ex (\<lambda>c. c_group c = g \<and> fst (dial_spec c now t) = Ready) cs \<and> settle now t' = settle now t"
proof (induction cs arbitrary: t)
  case (Cons c cs)
  show ?case
  proof (cases "c_group c = g")
    case True
    obtain d w u where d: "dialability c now t = ((d, w), u)" by (metis prod.exhaust)
    have e: "dial_spec c now t = (d, w)" "settle now u = settle now t" using di.read_eq [OF d] by simp_all
    note cong = dial_spec_cong [OF e(2)]
    show ?thesis
    proof (cases "d = Ready")
      case True
      then show ?thesis using Cons.prems d e \<open>c_group c = g\<close> by auto
    next
      case False
      then have "any_ready_in_group g now cs u = (r, t')" using Cons.prems d \<open>c_group c = g\<close> by simp
      from Cons.IH [OF this] False e show ?thesis by (simp add: cong)
    qed
  qed (use Cons in simp)
qed simp

lemma candidates_cong: "settle now t' = settle now t \<Longrightarrow> candidates t' = candidates t"
  using candidates_at_cong [of now t' t] by (simp add: candidates_def fun_eq_iff)

lemma route_usable_cong:
  assumes "settle now t' = settle now t"
  shows "route_usable now t' = route_usable now t"
  by (simp add: fun_eq_iff route_usable_def candidates_cong [OF assms] dial_spec_cong [OF assms])

lemma count_usable_eq:
  "count_usable now ps t = (n, t') \<Longrightarrow> n = length (filter (route_usable now t) ps) \<and> settle now t' = settle now t"
proof (induction ps arbitrary: t n t')
  case (Cons p ps)
  obtain m g where p: "p = (m, g)" by fastforce
  obtain ok u where a: "any_ready_in_group g now (candidates t m) t = (ok, u)" by fastforce
  note e = any_ready_in_group_eq [OF a]
  obtain k v where c: "count_usable now ps u = (k, v)" by fastforce
  note ih = Cons.IH [OF c]
  have ok: "ok = route_usable now t p" using e by (simp add: p route_usable_def)
  show ?case using Cons.prems a c e ih ok route_usable_cong [of now u t] by (auto simp: p)
qed simp

lemma all_candidates_cong:
  assumes "settle now t' = settle now t"
  shows "all_candidates t' = all_candidates t"
proof -
  have "t_profiles t' = t_profiles t" using arg_cong [OF assms, of t_profiles] by simp
  then show ?thesis by (simp add: all_candidates_def candidates_cong [OF assms])
qed

interpretation ur: lazy_read settle usable_route_count "\<lambda>now t. length (filter (route_usable now t) (all_candidates t))"
proof unfold_locales
  fix now t
  obtain n t' where "count_usable now (all_candidates t) t = (n, t')" by fastforce
  from count_usable_eq [OF this] this
  show "fst (usable_route_count now t) = length (filter (route_usable now t) (all_candidates t))"
    "settle now (snd (usable_route_count now t)) = settle now t"
    by (simp_all add: usable_route_count_def)
  show "length (filter (route_usable now (settle now t)) (all_candidates (settle now t)))
      = length (filter (route_usable now t) (all_candidates t))"
    by (simp add: route_usable_cong [of now "settle now t" t] all_candidates_cong [of now "settle now t" t])
qed (simp add: settle_later)

interpretation uc: two_reads settle usable_route_count "\<lambda>now t. length (filter (route_usable now t) (all_candidates t))"
    usable_credential_count "\<lambda>now t. length (filter (\<lambda>k. \<not> ks_unusable (ke_state k)
      \<and> clear (ks_cooling_until (ke_state k)) now = None) (t_keys t))"
  by unfold_locales

section \<open>What the planner sees\<close>

text \<open>The diagnosis of a route and a group is what the planner's own views say.\<close>

lemma diagnosis_agrees:
  assumes "c_route_id c = (hash_name m, hash_name (c_group c))"
  shows "fst (route_cooling m (c_group c) now t) = rv_cooling (fst (route_view c now t))"
    and "fst (route_disabled m (c_group c) now t) = rv_disabled (fst (route_view c now t))"
    and "fst (group_cooling (c_group c) now t) = fst (group_view (c_group c) now t)"
  using assms by (simp_all add: rc.read_spec rd.read_spec gc.read_spec rv.read_spec gv.read_spec route_health_def Let_def)

text \<open>The snapshot of a model can call it missing when the planner dials it again.\<close>

lemma snapshot_stale:
  assumes "t_models t m = Some e" "me_disabled e" "me_disabled_until e = Some u" "u \<le> now"
  shows "ms_disabled (fst (snapshot_model m now t)) \<and> \<not> mv_disabled (fst (model_view m now t))"
  using assms by (simp add: snapshot_model_def model_view_def Let_def view_of_model_def refresh_model_def
      refresh_missing_def refresh_circuit_def)

end
