(* ===== verification/ServerFacts.thy ===== *)
theory ServerFacts
  imports Cancel StreamFacts SendFacts ModelsFacts ConfigFacts RouterInspect
begin

text \<open>
  The composition of a request: who is let in, that an accepted request leaves the gauge of active
  requests as it found it on every path, what a client is told to wait, and what readiness means.
\<close>

section \<open>The gauge of active requests\<close>

text \<open>What \<open>send_messages\<close> does to the metrics: it counts, but never accepts or ends a request.\<close>

interpretation ac: metric_calls requests_active
  by unfold_locales simp_all

definition active :: "shared \<Rightarrow> int" where "active sh = requests_active (sh_metrics sh)"

text \<open>An environment whose other requests are balanced over each of this one's awaits.\<close>

definition others_balanced :: "env \<Rightarrow> bool" where
  "others_balanced e = ((\<forall>s. active (e_before e s) = active s) \<and> (\<forall>s. active (e_during e s) = active s))"

lemma active_simps [simp]:
  "active (sh\<lparr>sh_table := t\<rparr>) = active sh" "active (sh\<lparr>sh_circuit := c\<rparr>) = active sh"
  by (simp_all add: active_def)

lemmas plan_active = ac.plan_keeps
lemmas follow_up_active = ac.follow_up_keeps [folded active_def]
lemmas route_unavailable_active = ac.route_unavailable_keeps [folded active_def]
lemmas handle_exchange_active = ac.handle_exchange_keeps [folded active_def]
lemmas exhausted_active = ac.exhausted_keeps [folded active_def]

lemma dial_target_active:
  assumes "dial_target co rq e a sk sr target sh = (out, d, sh')" "others_balanced e"
  shows "active sh' = active sh"
proof -
  define sh1 where "sh1 = sh\<lparr>sh_metrics := (sh_metrics sh)\<lparr>
            route_attempts_total := route_attempts_total (sh_metrics sh) + 1,
            upstream_requests_total := upstream_requests_total (sh_metrics sh) + 1\<rparr>\<rparr>"
  have 1: "active sh1 = active sh" by (simp add: sh1_def active_def)
  have during: "active (e_during e s) = active s" for s using assms(2) by (simp add: others_balanced_def)
  obtain g t where b: "begin_attempt target (sh_table sh1) = (g, t)" by fastforce
  show ?thesis
  proof (cases "rewrite_model (co_ext co) (rq_canonical rq) (rt_model target)")
    case (Inl err)
    then show ?thesis using assms(1) 1 unfolding dial_target_def Let_def sh1_def [symmetric] by simp
  next
    case (Inr body)
    let ?sh2 = "e_during e (sh1\<lparr>sh_table := t\<rparr>)" and ?wire = "send_once co target body (rq_stream rq) (rq_id rq)"
    obtain r g' sh3 where h: "handle_exchange co rq target a e g (e_exchange e target ?wire) ?sh2 = (r, g', sh3)"
      by (metis prod_cases3)
    have 3: "active sh3 = active sh" using handle_exchange_active [OF h] during 1 by simp
    show ?thesis using assms(1) 3 unfolding dial_target_def Let_def sh1_def [symmetric] Inr sum.case b prod.case h
      by (auto split: sum.splits prod.splits next_step.splits dest!: follow_up_active)
  qed
qed

lemma attempt_once_active:
  assumes "attempt_once co rq e a sk sr sh = (out, d, sh')" "others_balanced e"
  shows "active sh' = active sh"
proof -
  let ?sh0 = "e_before e sh"
  have b: "active ?sh0 = active sh" using assms(2) by (simp add: others_balanced_def)
  obtain r t m where p: "plan (rq_spec rq) (rq_tag rq) sk (e_plan e) (e_target e) (sh_table ?sh0) (sh_metrics ?sh0) = (r, t, m)"
    by (metis prod_cases3)
  have a1: "active (?sh0\<lparr>sh_table := t, sh_metrics := m\<rparr>) = active sh"
    using plan_active [OF p] b by (simp add: active_def)
  show ?thesis using assms(1) a1 assms(2) unfolding attempt_once_def Let_def p prod.case
    by (auto split: plan_result.splits prod.splits admission.splits dest!: route_unavailable_active dial_target_active)
qed

lemma send_loop_active:
  "send_loop co rq envs a sk sr prior sh = (r, ds, sh') \<Longrightarrow> (\<And>n. others_balanced (envs n)) \<Longrightarrow> active sh' = active sh"
proof (induction co rq envs a sk sr prior sh arbitrary: r ds sh' rule: send_loop.induct)
  case (1 co rq envs a sk sr prior sh)
  have bal: "active (e_before (envs n) s) = active s" for n s using 1(3) by (simp add: others_balanced_def)
  show ?case
  proof (cases "co_max_attempts co \<le> a")
    case True
    then show ?thesis using 1(2) bal
      by (auto simp: send_loop.simps [of co rq envs a] dest!: exhausted_active split: prod.splits)
  next
    case False
    obtain out d sh1 where o: "attempt_once co rq (envs a) a sk sr sh = (out, d, sh1)" by (metis prod_cases3)
    note a1 = attempt_once_active [OF o 1(3)]
    show ?thesis
    proof (cases out)
      case (Done r')
      then show ?thesis using 1(2) False o a1 by (simp add: send_loop.simps [of co rq envs a])
    next
      case (Again sk' sr' err)
      obtain r2 ds2 sh2 where l: "send_loop co rq envs (Suc a) sk' sr' (Some err) sh1 = (r2, ds2, sh2)" by (metis prod_cases3)
      have "sh' = sh2" using 1(2) False o Again l by (simp add: send_loop.simps [of co rq envs a])
      then show ?thesis using 1(1) [OF False o [symmetric] refl Again l 1(3)] a1 by simp
    qed
  qed
qed

lemma send_messages_active:
  "send_messages co rq envs sh = (r, ds, sh') \<Longrightarrow> (\<And>n. others_balanced (envs n)) \<Longrightarrow> active sh' = active sh"
  unfolding send_messages_def by (rule send_loop_active)

lemma accept_request_active: "active (accept_request e w sh) = active sh + 1"
  by (simp add: accept_request_def active_def inc_requests_def note_queue_wait_def set_queue_depth_def
      set_circuit_state_def split: prod.splits)

lemma answer_request_active: "answer_request co c e rid result sh = (r, sh') \<Longrightarrow> active sh' = active sh - 1"
  by (auto simp: answer_request_def active_def with_metrics_def Let_def scope_end_defs stream_body_active
      split: send_result.splits)

text \<open>A request dropped inside \<open>send_messages\<close>.\<close>

lemma abandon_exchange_active:
  assumes "abandon_exchange co rq e skipped sh = Some sh'" "others_balanced e"
  shows "active sh' = active sh"
proof -
  obtain r t m where p: "plan (rq_spec rq) (rq_tag rq) skipped (e_plan e) (e_target e)
      (sh_table (e_before e sh)) (sh_metrics (e_before e sh)) = (r, t, m)" by (metis prod_cases3)
  have m: "requests_active m = active sh" using plan_active [OF p] assms(2) by (simp add: others_balanced_def active_def)
  have d: "requests_active (sh_metrics (e_during e s)) = requests_active (sh_metrics s)" for s
    using assms(2) by (simp add: others_balanced_def active_def)
  show ?thesis using assms(1) m unfolding abandon_exchange_def Let_def p
    by (auto simp: active_def d split: plan_result.splits prod.splits admission.splits sum.splits)
qed

lemma cancelled_loop_active:
  "cancelled_loop co rq envs pt n a sk sr sh = Some sh' \<Longrightarrow> (\<And>n. others_balanced (envs n)) \<Longrightarrow> active sh' = active sh"
proof (induction co rq envs pt n a sk sr sh rule: cancelled_loop.induct)
  case (1 co rq envs pt a sk sr sh)
  then show ?case
    by (auto simp: abandon_sleep_def split: if_splits drop_point.splits prod.splits attempt_outcome.splits option.splits
        dest: abandon_exchange_active attempt_once_active)
next
  case (2 co rq envs pt n a sk sr sh)
  obtain out d sh1 where o: "attempt_once co rq (envs a) a sk sr sh = (out, d, sh1)" by (metis prod_cases3)
  from 2(2) o obtain s sr' err where ag: "out = Again s sr' err" "\<not> co_max_attempts co \<le> a"
      "cancelled_loop co rq envs pt n (Suc a) s sr' sh1 = Some sh'"
    by (auto split: if_splits attempt_outcome.splits)
  have "active sh' = active sh1" by (rule 2(1) [OF ag(2) o [symmetric] ag(1) refl ag(3) 2(3)])
  with attempt_once_active [OF o 2(3)] show ?case by simp
qed

text \<open>A server that has just been built serves nobody.\<close>

lemma new_app_idle: "new_app ps ok sm ua h x now c = Some a \<Longrightarrow> active (as_shared a) = 0"
  by (auto simp: new_app_def active_def Let_def set_concurrency_limit_def new_shared_def new_metrics_def split: if_splits)

section \<open>The client's wait\<close>

text \<open>The header rounds a positive wait down to whole seconds, unless it is under one second.\<close>

lemma retry_after_early: "from_secs (retry_after_seconds 1250000000) < 1250000000"
  by (simp add: retry_after_seconds_def as_secs_def subsec_nanos_def from_secs_def)

lemma retry_after_exact: "subsec_nanos d = 0 \<Longrightarrow> from_secs (retry_after_seconds d) = d"
  using as_secs_subsec [of d] by (simp add: retry_after_seconds_def from_secs_def)

section \<open>The gate\<close>

lemma key_ignores_request_id:
  "gateway_key_is_valid (hs(''x-request-id'' := v)) k = gateway_key_is_valid hs k"
proof -
  have "presented_gateway_key (hs(''x-request-id'' := v)) = presented_gateway_key hs"
  proof -
    have "(hs(''x-request-id'' := v)) ''authorization'' = hs ''authorization''"
      "(hs(''x-request-id'' := v)) ''x-api-key'' = hs ''x-api-key''" by simp_all
    then show ?thesis unfolding presented_gateway_key_def Let_def by metis
  qed
  then show ?thesis by (simp add: gateway_key_is_valid_def)
qed

lemma response_status [simp]:
  "rs_status (insert_request_id co rid r) = rs_status r" "rs_status (anthropic_error co st ty msg rid) = st"
  by (simp_all add: insert_request_id_def anthropic_error_def json_response_def)

section \<open>The properties\<close>

text \<open>Nothing leaks.  However a request ends (refused, answered, streamed and abandoned, failed,
  panicked, or dropped by a client that disconnects at any await), the gauge of active requests is
  afterwards what it was before, when the other requests it is interleaved with leave it so.\<close>

theorem request_accounted:
  assumes "anthropic_messages co c e hs raw sh = (r, ds, sh') \<or> cancelled_messages co c e hs raw pt n sh = Some sh'"
    and "\<And>n. others_balanced (sv_envs e n)"
  shows "active sh' = active sh"
proof (cases "prepare_request co (models c) (sh_table sh) hs raw")
  case (Inl x)
  then show ?thesis using assms(1) by (auto simp: anthropic_messages_def cancelled_messages_def)
next
  case (Inr rq)
  show ?thesis
  proof (cases "sv_admission e")
    case (NotAdmitted f)
    then show ?thesis using assms(1) Inr by (auto simp: anthropic_messages_def cancelled_messages_def active_def)
  next
    case (Admitted w)
    obtain result ds1 sh1 where s: "send_messages co rq (sv_envs e) (accept_request e w sh) = (result, ds1, sh1)"
      by (metis prod_cases3)
    from send_messages_active [OF s assms(2)] have "active sh1 = active sh + 1" by (simp add: accept_request_active)
    moreover have "active sh2 = active sh + 1"
      if "cancelled_loop co rq (sv_envs e) pt n 0 {} 0 (accept_request e w sh) = Some sh2" for sh2
      using cancelled_loop_active [OF that assms(2)] by (simp add: accept_request_active)
    moreover have "active (with_metrics (\<lambda>m. drop_scope ck (False, m)) s) = active s - 1" for ck s
      by (simp add: with_metrics_def active_def scope_end_defs)
    ultimately show ?thesis using assms(1) Inr Admitted s
      by (auto simp: anthropic_messages_def cancelled_messages_def dest: answer_request_active split: prod.splits)
  qed
qed

definition message_ext :: externals where
  "message_ext = \<lparr>x_parse_json = (\<lambda>s. Some (JObject [(''messages'', JArray []), (''model'', JString ''glm-5.2'')])),
     x_render_json = (\<lambda>v. Some ''{}''), x_http_date = (\<lambda>s. None)\<rparr>"

definition message_core :: core where
  "message_core = new_core two_groups ''sensenova-proxy'' (\<lambda>s. True) message_ext"

definition sample_serve :: serve_env where
  "sample_serve = \<lparr>sv_admission = Admitted 0, sv_waiting = 0, sv_now = 5, sv_envs = (\<lambda>n. sample_env answer_ok),
     sv_clock = \<lparr>ck_elapsed = 0, ck_unix = 0\<rparr>, sv_gone = None, sv_polls = None\<rparr>"

lemma sample_request_prepared:
  "\<exists>rq. prepare_request message_core (models two_groups) table2 hs (Some ''{}'') = Inr rq \<and> rq_spec rq = Literal ''glm-5.2''"
proof -
  let ?v = "JObject [(''messages'', JArray []), (''model'', JString ''glm-5.2'')]"
  have rs: "request_summary ?v = Some (''glm-5.2'', False)" by code_simp
  have res: "resolve table2 (models two_groups) ''glm-5.2'' = ResolvedLiteral ''glm-5.2''"
    by (simp add: resolve_def table2_sel builtin_profiles_def hard_profile_def fast_profile_def two_groups_def config_with_def
        default_models_def starts_with_def)
  have "\<exists>v. normalize_messages_request ?v ''glm-5.2'' = Inr v"
    by (simp add: normalize_messages_request_def nonempty_model_def as_str_def with_max_tokens_def request_problem_def
        json_nat_def as_u64_def is_array_def as_bool_def Let_def)
  then obtain v where nm: "normalize_messages_request ?v ''glm-5.2'' = Inr v" ..
  have ext: "x_parse_json (co_ext message_core) s = Some ?v" "x_render_json (co_ext message_core) v = Some ''{}''" for s v
    by (simp_all add: message_core_def message_ext_def new_core_def Let_def)
  show ?thesis
    unfolding prepare_request_def Let_def option.case ext rs prod.case res upstream_model_of_def spec_of_def resolution.case nm sum.case
    by simp
qed

theorem request_accounted_witness:
  "(\<exists>rq. prepare_request message_core (models two_groups) (sh_table sample_shared) (\<lambda>h. None) (Some ''{}'') = Inr rq)
   \<and> (\<exists>r ds sh'. anthropic_messages message_core two_groups sample_serve (\<lambda>h. None) (Some ''{}'') sample_shared = (r, ds, sh')
      \<and> active sh' = 0)"
proof
  show "\<exists>rq. prepare_request message_core (models two_groups) (sh_table sample_shared) (\<lambda>h. None) (Some ''{}'') = Inr rq"
    using sample_request_prepared by auto
next
  obtain r ds sh' where a: "anthropic_messages message_core two_groups sample_serve (\<lambda>h. None) (Some ''{}'') sample_shared = (r, ds, sh')"
    by (metis prod_cases3)
  have "active sh' = active sample_shared"
    by (rule request_accounted [OF disjI1, OF a]) (simp add: sample_serve_def others_balanced_def sample_env_def)
  then show "\<exists>r ds sh'. anthropic_messages message_core two_groups sample_serve (\<lambda>h. None) (Some ''{}'') sample_shared = (r, ds, sh')
      \<and> active sh' = 0"
    using a by (simp add: active_def new_metrics_def)
qed

text \<open>C27: Refused without effect.  Without the gateway key a protected endpoint answers 401: nothing
  is dialed and no state changes.\<close>

theorem unauthenticated_no_effect:
  assumes "needs_key (binds_loopback ps c) ep" and "\<not> gateway_key_is_valid headers (server_api_key (server c))"
  shows "\<exists>r. handle_request co ps c fresh e pg ep headers raw sh = (Some r, [], sh) \<and> rs_status r = 401"
  using assms by (simp add: handle_request_def Let_def key_ignores_request_id unauthorized_def)

theorem unauthenticated_no_effect_witness:
  "\<exists>r. handle_request sample_core sample_parsers two_groups ''req_1'' sample_serve
      \<lparr>pg_clocks = (1, 2, 3, 4), pg_limit = 1, pg_waiting = 0\<rparr> Messages (\<lambda>h. None) (Some ''{}'') sample_shared
      = (Some r, [], sample_shared)
    \<and> rs_status r = 401"
  by (rule unauthenticated_no_effect)
    (simp_all add: needs_key_def gateway_key_is_valid_def presented_gateway_key_def)

section \<open>Readiness\<close>

lemma filter_some: "0 < length (filter P xs) \<longleftrightarrow> list_ex P xs"
  by (induction xs) auto

text \<open>C39: Readiness is exact.  The readiness page answers 200 exactly when some route of the profiles
  is dialable at that instant (whatever else is broken) and reports their number; and looking at it
  changes no gate of the router that is still in force.\<close>

theorem readiness_exact:
  assumes "readyz_impl c (now1, now2, now3, now4) adm sh = (r, sh')" and "now1 \<le> now2"
  shows "rs_status r = (if list_ex (route_usable now1 (sh_table sh)) (all_candidates (sh_table sh)) then 200 else 503)
    \<and> (\<exists>b. rs_body r = JsonBody b \<and> jget ''usable_routes'' b
          = Some (json_of_nat (length (filter (route_usable now1 (sh_table sh)) (all_candidates (sh_table sh))))))
    \<and> settle now2 (sh_table sh') = settle now2 (sh_table sh)"
proof -
  obtain n t1 where u: "usable_route_count now1 (sh_table sh) = (n, t1)" by fastforce
  obtain k t2 where k: "usable_credential_count now2 t1 = (k, t2)" by fastforce
  obtain st cb where b: "breaker_state now3 (sh_circuit sh) = (st, cb)" by fastforce
  have n: "n = length (filter (route_usable now1 (sh_table sh)) (all_candidates (sh_table sh)))"
    and t1: "settle now1 t1 = settle now1 (sh_table sh)" using ur.read_eq [OF u] by simp_all
  note step = assms(1) [unfolded readyz_impl_def prod.case u k b Let_def]
  have status: "rs_status r = (if 0 < n then 200 else 503)" using step by auto
  have body: "\<exists>b. rs_body r = JsonBody b \<and> jget ''usable_routes'' b = Some (json_of_nat n)"
    using step by (auto simp: jget_def)
  have "settle now2 t2 = settle now2 t1" using cr.read_eq [OF k] by simp
  also have "settle now2 t1 = settle now2 (sh_table sh)" by (rule settle_eqI [OF t1 assms(2)])
  finally have "settle now2 (sh_table sh') = settle now2 (sh_table sh)" using step by auto
  with status body show ?thesis unfolding n filter_some by blast
qed

theorem readiness_exact_witness:
  "\<exists>r sh'. readyz_impl two_groups (5, 6, 7, 8) (1, 0) sample_shared = (r, sh') \<and> rs_status r = 200"
proof -
  obtain r sh' where r: "readyz_impl two_groups (5, 6, 7, 8) (1, 0) sample_shared = (r, sh')" by fastforce
  have c: "candidates table2 m = [sole m ''ga'' 0 0, sole m ''gb'' 0 1]" for m
    by (simp add: candidates_def candidates_at_def by_group_def candidate_at_def table2_sel sole_def)
  have "(''deepseek-v4-flash'', ''ga'') \<in> set (all_candidates table2)"
    by (simp add: all_candidates_def c table2_sel builtin_profiles_def hard_profile_def fast_profile_def profile_models_def
        sole_def c_route_id_def sample_hashes)
  moreover have "route_usable 5 table2 (''deepseek-v4-flash'', ''ga'')"
    using untouched_ready [of table2 "sole ''deepseek-v4-flash'' ''ga'' 0 0" 0 "[]" 5]
    by (simp add: route_usable_def c table2_sel key_is_ready_def key_entry_at_def)
  ultimately have "list_ex (route_usable 5 table2) (all_candidates table2)" by (auto simp: list_ex_iff)
  with readiness_exact [OF r] r show ?thesis by auto
qed

end
