(* ===== verification/SystemFacts.thy ===== *)
theory SystemFacts
  imports System ServerFacts
begin

text \<open>
  Invariants of the running server, by induction over its steps: what the gauge of active requests,
  the permits and the in-flight counters of the credentials count, in every interleaving of any
  number of requests; and that no attempt ever leaves the requested profile or the budget.
\<close>

section \<open>The in-flight counters\<close>

definition inflights :: "route_table \<Rightarrow> nat list" where
  "inflights t = map (\<lambda>k. ks_inflight (ke_state k)) (t_keys t)"

text \<open>Only the guard writes them.\<close>

lemma inflights_map_key: "(\<And>s. ks_inflight (f s) = ks_inflight s) \<Longrightarrow> inflights (map_key_state i f t) = inflights t"
  by (auto simp: inflights_def map_key_state_def list_eq_iff_nth_eq nth_list_update)

lemma inflights_keys: "t_keys u = t_keys t \<Longrightarrow> inflights u = inflights t"
  by (simp add: inflights_def)

lemma inflights_update [simp]:
  "inflights (t\<lparr>t_models := a\<rparr>) = inflights t" "inflights (t\<lparr>t_routes := b\<rparr>) = inflights t"
  "inflights (t\<lparr>t_groups := c\<rparr>) = inflights t" "inflights (t\<lparr>t_affinity := d\<rparr>) = inflights t"
  "inflights (t\<lparr>t_round_robin := n\<rparr>) = inflights t" "inflights (update_model m e t) = inflights t"
  "inflights (update_route r f t) = inflights t" "inflights (update_group g h t) = inflights t"
  "inflights (break_affinity_where hit t) = inflights t" "inflights (t\<lparr>t_affinity := d, t_affinity_breaks := k\<rparr>) = inflights t"
  by (simp_all add: inflights_def update_model_def update_route_def update_group_def break_affinity_where_def)

lemma inflights_whole [simp]:
  "inflights (clear_all_keys now t) = inflights t" "inflights (cool_group_keys g until t) = inflights t"
  by (simp_all add: inflights_def clear_all_keys_def cool_group_keys_def clear_key_def Let_def)

lemma inflights_forgets: "forgets t u \<Longrightarrow> inflights u = inflights t"
  by (induction rule: forgets.induct) (simp_all add: inflights_map_key)

lemma success_key_inflight: "ks_inflight (success_key ttft elapsed s) = ks_inflight s"
  by (simp add: success_key_def Let_def split: option.split)

lemma inflights_notes:
  "inflights (note_success target ttft elapsed t) = inflights t"
  "inflights (fst (snd (note_rate_limited target attempt streak hint jitter now t m))) = inflights t"
  "inflights (fst (snd (note_transient_failure target attempt hint jitter now t m))) = inflights t"
  "inflights (note_quota_exhausted target cooldown now t) = inflights t"
  "inflights (note_authentication_failure target t) = inflights t"
  "inflights (note_model_missing target now t) = inflights t"
  "inflights (note_session_route tag target now t) = inflights t"
  "inflights (fst (break_affinity tag t m)) = inflights t"
  "inflights (snd (release_probe g t)) = inflights t"
  by (simp_all add: note_success_def note_quota_exhausted_def note_authentication_failure_def note_model_missing_def
      note_session_route_def break_affinity_def release_probe_def break_affinity_for_group_def break_affinity_for_route_def
      table_eqs inflights_map_key success_key_inflight Let_def split: option.split)

interpretation fl: table_calls "\<lambda>u. inflights u = v" for v
proof (unfold_locales, goal_cases)
  case (1 spec tag skipped now now2 u m r v' m')
  then show ?case using inflights_forgets [OF forgets_plan] forgets.idle by metis
next
  case (3 now u n v')
  then show ?case using inflights_forgets [OF forgets_usable_route_count] forgets.idle by metis
next
  case (4 now u w v')
  then show ?case using inflights_forgets [OF forgets_earliest_retry_after] forgets.idle by metis
qed (metis inflights_notes fst_conv snd_conv)+

text \<open>What the guard adds and takes away; nothing when its index is out of range.\<close>

lemma inflights_at:
  "(\<And>s. ks_inflight (f s) = h (ks_inflight s)) \<Longrightarrow>
    inflights (map_key_state i f t) = (inflights t)[i := h (inflights t ! i)]"
  by (auto simp: inflights_def map_key_state_def list_eq_iff_nth_eq nth_list_update)

lemma inflights_begin:
  "begin_attempt target t = (g, t') \<Longrightarrow> ig_index g = sk_index (rt_key target)
    \<and> inflights t' = (inflights t)[ig_index g := sat_add u64_max (inflights t ! ig_index g) 1]"
  using inflights_at [where h = "\<lambda>n. sat_add u64_max n 1" and f = "\<lambda>s. s\<lparr>ks_inflight := sat_add u64_max (ks_inflight s) 1\<rparr>"]
  by (auto simp: begin_attempt_def Let_def)

lemma inflights_drop: "inflights (drop_guard g t) = (inflights t)[ig_index g := inflights t ! ig_index g - 1]"
  using inflights_at [where h = "\<lambda>n. n - 1" and f = "\<lambda>s. s\<lparr>ks_inflight := ks_inflight s - 1\<rparr>"]
  by (simp add: drop_guard_def Let_def split: option.split)

lemma handle_exchange_guard: "handle_exchange co rq target n e g x sh = (r, g', sh') \<Longrightarrow> ig_index g' = ig_index g"
  by (auto simp: handle_exchange_def Let_def on_success_def release_probe_def
      split: exchange.splits if_splits first_byte.splits prod.splits)

section \<open>The stretches of an attempt\<close>

context table_calls
begin

lemma front_ends_keeps: "attempt_front co rq e sk sh = (FrontEnds r, sh') \<Longrightarrow> P (sh_table sh) \<Longrightarrow> P (sh_table sh')"
  unfolding attempt_front_def Let_def
  by (auto split: prod.splits plan_result.splits admission.splits sum.splits dest: calls(1) dest!: route_unavailable_keeps)

lemma front_dials_keeps:
  "attempt_front co rq e sk sh = (FrontDials target wire g, sh') \<Longrightarrow> P (sh_table sh) \<Longrightarrow>
    \<exists>u. P u \<and> begin_attempt target u = (g, sh_table sh')"
  unfolding attempt_front_def Let_def
  by (auto split: prod.splits plan_result.splits admission.splits sum.splits dest: calls(1))

end

text \<open>The target of a dial was planned in the table the stretch began with.\<close>

lemma front_planned:
  "attempt_front co rq e sk sh = (FrontDials target wire g, sh') \<Longrightarrow>
    \<exists>p t m. plan (rq_spec rq) (rq_tag rq) sk (e_plan e) (e_target e) (sh_table sh) (sh_metrics sh) = (Planned p, t, m)
      \<and> p_target p = target"
  unfolding attempt_front_def Let_def
  by (auto split: prod.splits plan_result.splits admission.splits sum.splits)

text \<open>The stretch after the exchange, taken apart.\<close>

lemma attempt_back_parts:
  assumes "attempt_back co rq e n sk sr target g x sh = (out, w, sh')"
  obtains r g' sh1 where "handle_exchange co rq target n e g x sh = (r, g', sh1)"
    "(\<exists>res. out = Done res \<and> sh' = sh1\<lparr>sh_table := drop_guard g' (sh_table sh1)\<rparr>)
     \<or> (\<exists>rule nx sr'. follow_up co rq target sk sr n e rule (sh1\<lparr>sh_table := drop_guard g' (sh_table sh1)\<rparr>) = (nx, sr', sh')
        \<and> (\<forall>sk' q err. out = Again sk' q err \<longrightarrow> nx = Proceed w))"
  using assms unfolding attempt_back_def Let_def
  by (auto split: prod.splits sum.splits next_step.splits)

text \<open>What the stretches count.\<close>

context outcome_counts
begin

lemma attempt_front_keeps: "attempt_front co rq e sk sh = (r, sh') \<Longrightarrow> Q (sh_metrics sh') = Q (sh_metrics sh)"
  unfolding attempt_front_def Let_def
  by (auto split: prod.splits plan_result.splits admission.splits sum.splits dest!: plan_keeps route_unavailable_keeps)

end

context metric_calls
begin

lemma attempt_back_keeps: "attempt_back co rq e n sk sr target g x sh = (out, w, sh') \<Longrightarrow> Q (sh_metrics sh') = Q (sh_metrics sh)"
  by (erule attempt_back_parts) (auto dest!: handle_exchange_keeps follow_up_keeps)

end

lemmas attempt_front_active = ac.attempt_front_keeps [folded active_def]
lemmas attempt_back_active = ac.attempt_back_keeps [folded active_def]

lemma attempt_back_steps:
  assumes "attempt_back co rq e n sk sr target g x sh = (out, w, sh')" "steps t (sh_table sh)"
  shows "steps t (sh_table sh')"
  using assms(1)
proof (rule attempt_back_parts)
  fix r g' sh1
  assume h: "handle_exchange co rq target n e g x sh = (r, g', sh1)"
  have d: "steps t (sh_table (sh1\<lparr>sh_table := drop_guard g' (sh_table sh1)\<rparr>))"
    using steps_calls(14) [OF handle_exchange_steps [OF h assms(2)]] by simp
  assume "(\<exists>res. out = Done res \<and> sh' = sh1\<lparr>sh_table := drop_guard g' (sh_table sh1)\<rparr>)
     \<or> (\<exists>rule nx sr'. follow_up co rq target sk sr n e rule (sh1\<lparr>sh_table := drop_guard g' (sh_table sh1)\<rparr>) = (nx, sr', sh')
        \<and> (\<forall>sk' q err. out = Again sk' q err \<longrightarrow> nx = Proceed w))"
  then show ?thesis using d follow_up_steps [OF _ d] by auto
qed

lemma attempt_back_inflights:
  assumes "attempt_back co rq e n sk sr target g x sh = (out, w, sh')"
  shows "inflights (sh_table sh') = (inflights (sh_table sh))[ig_index g := inflights (sh_table sh) ! ig_index g - 1]"
  using assms
proof (rule attempt_back_parts)
  fix r g' sh1
  assume h: "handle_exchange co rq target n e g x sh = (r, g', sh1)"
  let ?sh2 = "sh1\<lparr>sh_table := drop_guard g' (sh_table sh1)\<rparr>"
    and ?v = "(inflights (sh_table sh))[ig_index g := inflights (sh_table sh) ! ig_index g - 1]"
  have d: "inflights (sh_table ?sh2) = ?v"
    using fl.handle_exchange_keeps [OF h refl] handle_exchange_guard [OF h] by (simp add: inflights_drop)
  assume "(\<exists>res. out = Done res \<and> sh' = ?sh2)
     \<or> (\<exists>rule nx sr'. follow_up co rq target sk sr n e rule ?sh2 = (nx, sr', sh')
        \<and> (\<forall>sk' q err. out = Again sk' q err \<longrightarrow> nx = Proceed w))"
  then show ?thesis using d fl.follow_up_keeps [OF _ d] by auto
qed

lemma attempt_back_budget:
  "attempt_back co rq e n sk sr target g x sh = (Again sk' sr' err, w, sh') \<Longrightarrow> n < co_max_attempts co"
  by (erule attempt_back_parts) (auto dest: follow_up_budget)

section \<open>A turn of a stream\<close>

text \<open>A stream that goes on has not ended its request.\<close>

lemma process_events_goes: "process_events e evs p = (False, f, q) \<Longrightarrow> f = None \<and> pu_scope q = pu_scope p"
  by (induction e evs p rule: process_events.induct) (auto split: if_splits event_kind.splits)

lemma yield_goes: "yield_frame f p = Go q \<Longrightarrow> pu_scope q = pu_scope p"
  by (auto simp: yield_frame_def Let_def split: if_splits)

lemma and_go_Go: "and_go r k = Go q \<longleftrightarrow> (\<exists>p. r = Go p \<and> k p = Go q)"
  by (cases r) simp_all

lemma observe_goes: "observe e evs p = Go q \<Longrightarrow> pu_scope q = pu_scope p"
  by (auto simp: observe_def and_go_Go split: prod.splits if_splits option.splits dest: process_events_goes yield_goes)

lemma chunk_goes:
  "next_chunk e c p = Go q \<Longrightarrow> pu_scope q = pu_scope p" "first_chunk e c p = Go q \<Longrightarrow> pu_scope q = pu_scope p"
  by (auto simp: next_chunk_def first_chunk_def and_go_Go split: prod.splits option.splits dest!: observe_goes yield_goes)

lemma turn_goes: "stream_turn e first i p = Go q \<Longrightarrow> pu_scope q = pu_scope p"
  using upstream_end_halts [of e p]
  by (auto simp: stream_turn_def pump_step_def upstream_error_def and_go_Go split: option.splits pump_input.splits if_splits
      dest: chunk_goes yield_goes)

lemma turn_keeps: "accounted (se_clock e) m p \<Longrightarrow> keeps (se_clock e) m (stream_turn e first i p)"
  by (auto simp: stream_turn_def pump_step_def upstream_error_def first_chunk_keeps next_chunk_keeps upstream_end_keeps
      intro!: keeps_intros split: option.split pump_input.split)

lemma attach_accounted: "\<not> fst (pu_scope p) \<Longrightarrow> accounted ck m (attach m p)"
  by (simp add: accounted_def attach_def)

text \<open>What a turn does to the gauge: nothing while the stream goes on, one less at its end.\<close>

lemma turn_active:
  assumes "\<not> fst (pu_scope p)"
  shows "stream_turn e first i (attach m p) = Go q \<Longrightarrow> \<not> fst (pu_scope q) \<and> requests_active (snd (pu_scope q)) = requests_active m"
    and "stream_turn e first i (attach m p) = Halt q \<Longrightarrow>
      requests_active (snd (drop_scope (se_clock e) (pu_scope q))) = requests_active m - 1"
proof -
  note k = turn_keeps [OF attach_accounted [OF assms], of e m first i]
  show "\<not> fst (pu_scope q) \<and> requests_active (snd (pu_scope q)) = requests_active m"
    if g: "stream_turn e first i (attach m p) = Go q"
    using turn_goes [OF g] assms by (simp add: attach_def)
  show "requests_active (snd (drop_scope (se_clock e) (pu_scope q))) = requests_active m - 1"
    if "stream_turn e first i (attach m p) = Halt q"
    using k unfolding that by (cases "pu_scope q") (auto simp: accounted_def scope_end_defs)
qed

section \<open>Who counts where\<close>

definition open_scope :: "thread \<Rightarrow> bool" where
  "open_scope th = (case th of Granted rq \<Rightarrow> False | Leaving \<Rightarrow> False | _ \<Rightarrow> True)"

definition on_key :: "nat \<Rightarrow> thread \<Rightarrow> bool" where
  "on_key i th = (case th of Exchanging rq n sk sr target g \<Rightarrow> ig_index g = i | _ \<Rightarrow> False)"

definition threads_in :: "(thread \<Rightarrow> bool) \<Rightarrow> 's system \<Rightarrow> nat" where
  "threads_in Q s = size (filter_mset Q (sy_threads s))"

lemma thread_kinds [simp]:
  "\<not> open_scope (Granted rq)" "\<not> open_scope Leaving" "open_scope (Planning rq n sk sr prior slept)"
  "open_scope (Exchanging rq n sk sr target g)" "open_scope (Answering rq r)" "open_scope (Streaming first p)"
  "\<not> on_key i (Granted rq)" "\<not> on_key i Leaving" "\<not> on_key i (Planning rq n sk sr prior slept)"
  "on_key i (Exchanging rq n sk sr target g) \<longleftrightarrow> ig_index g = i" "\<not> on_key i (Answering rq r)" "\<not> on_key i (Streaming first p)"
  by (simp_all add: open_scope_def on_key_def)

lemma threads_in_run:
  "th \<in># sy_threads s \<Longrightarrow>
    threads_in Q (run_thread th th' sh s) + of_bool (Q th) = threads_in Q s + of_bool (Q th')"
  by (auto simp: threads_in_def run_thread_def dest!: multi_member_split)

lemma threads_in_le: "threads_in Q s \<le> size (sy_threads s)"
  by (simp add: threads_in_def size_filter_mset_lesseq)

lemma threads_in_pos: "th \<in># sy_threads s \<Longrightarrow> Q th \<Longrightarrow> 0 < threads_in Q s"
  by (auto simp: threads_in_def dest!: multi_member_split)

section \<open>The invariant\<close>

definition listed :: "config \<Rightarrow> send_request \<Rightarrow> route_target \<Rightarrow> bool" where
  "listed c rq target = (\<exists>ts lat lower. spec_tiers (profiles_of c) (rq_spec rq) = Some (ts, lat, lower)
     \<and> rt_model target \<in> set (concat (map tier_models ts)) \<and> (\<forall>l. rq_spec rq = Literal l \<longrightarrow> rt_model target = l))"

definition thread_ok :: "core \<Rightarrow> config \<Rightarrow> thread \<Rightarrow> bool" where
  "thread_ok co c th = (case th of
      Exchanging rq n sk sr target g \<Rightarrow> 0 < n \<and> n \<le> co_max_attempts co \<and> ig_index g = sk_index (rt_key target) \<and> listed c rq target
    | Streaming first p \<Rightarrow> \<not> fst (pu_scope p)
    | _ \<Rightarrow> True)"

lemma thread_ok_simps [simp]:
  "thread_ok co c (Granted rq)" "thread_ok co c Leaving" "thread_ok co c (Planning rq n sk sr prior slept)" "thread_ok co c (Answering rq r)"
  "thread_ok co c (Streaming first p) = (\<not> fst (pu_scope p))"
  "thread_ok co c (Exchanging rq n sk sr target g)
    = (0 < n \<and> n \<le> co_max_attempts co \<and> ig_index g = sk_index (rt_key target) \<and> listed c rq target)"
  by (simp_all add: thread_ok_def)

text \<open>The shared state counts the threads, and every thread is in order.\<close>

definition counts_ok :: "core \<Rightarrow> config \<Rightarrow> 's system \<Rightarrow> bool" where
  "counts_ok co c s = (active (sy_shared s) = int (threads_in open_scope s)
     \<and> (\<forall>i < length (inflights (sh_table (sy_shared s))). inflights (sh_table (sy_shared s)) ! i = threads_in (on_key i) s)
     \<and> steps (new_table c) (sh_table (sy_shared s)) \<and> (\<forall>th \<in># sy_threads s. thread_ok co c th))"

definition permits_ok :: "'s semaphore \<Rightarrow> nat \<Rightarrow> 's system \<Rightarrow> bool" where
  "permits_ok sm limit s = (adm_ok sm limit (sy_admission s) \<and> holders (sy_admission s) = size (sy_threads s))"

text \<open>A thread that runs: what its stretch has to show.\<close>

lemma counts_ok_run:
  assumes ok: "counts_ok co c s" and th: "th \<in># sy_threads s"
    and act: "active sh + of_bool (open_scope th) = active (sy_shared s) + of_bool (open_scope th')"
    and len: "length (inflights (sh_table sh)) = length (inflights (sh_table (sy_shared s)))"
    and fl: "\<And>i. i < length (inflights (sh_table sh)) \<Longrightarrow>
      inflights (sh_table sh) ! i + of_bool (on_key i th) = inflights (sh_table (sy_shared s)) ! i + of_bool (on_key i th')"
    and st: "steps (new_table c) (sh_table sh)" and t: "thread_ok co c th'"
  shows "counts_ok co c (run_thread th th' sh s)"
proof -
  have shared: "sy_shared (run_thread th th' sh s) = sh" by (simp add: run_thread_def)
  have "active sh = int (threads_in open_scope (run_thread th th' sh s))"
    using threads_in_run [OF th, of open_scope th' sh] ok act by (auto simp: counts_ok_def of_bool_def split: if_splits)
  moreover have "inflights (sh_table sh) ! i = threads_in (on_key i) (run_thread th th' sh s)" if "i < length (inflights (sh_table sh))" for i
    using threads_in_run [OF th, of "on_key i" th' sh] ok fl [OF that] that len by (auto simp: counts_ok_def of_bool_def split: if_splits)
  moreover have "\<forall>x \<in># sy_threads (run_thread th th' sh s). thread_ok co c x"
    using ok t by (auto simp: counts_ok_def run_thread_def dest: in_diffD)
  ultimately show ?thesis using st by (simp add: counts_ok_def shared)
qed

text \<open>The common case: the in-flight counters and the table stay.\<close>

lemma counts_ok_quiet:
  assumes "counts_ok co c s" "th \<in># sy_threads s"
    and "active sh + of_bool (open_scope th) = active (sy_shared s) + of_bool (open_scope th')"
    and "inflights (sh_table sh) = inflights (sh_table (sy_shared s))" "steps (new_table c) (sh_table sh)"
    and "\<And>i. on_key i th = on_key i th'" "thread_ok co c th'"
  shows "counts_ok co c (run_thread th th' sh s)"
  by (rule counts_ok_run [OF assms(1,2,3)]) (use assms(4-7) in simp_all)

text \<open>A step of others than the threads.\<close>

lemma counts_ok_aside:
  assumes "counts_ok co c s" "sy_threads s' = sy_threads s" "active (sy_shared s') = active (sy_shared s)"
    and "inflights (sh_table (sy_shared s')) = inflights (sh_table (sy_shared s))" "steps (new_table c) (sh_table (sy_shared s'))"
  shows "counts_ok co c s'"
  using assms by (simp add: counts_ok_def threads_in_def)

section \<open>Every step keeps it\<close>

lemma permits_step:
  assumes "sys_step sm co c s s'" "semaphore_ok sm" "permits_ok sm limit s"
  shows "permits_ok sm limit s'"
  using assms(1)
proof cases
  case (queue a)
  then show ?thesis using adm_ok_step [OF assms(2)] assms(3) by (auto simp: permits_ok_def)
next
  case (reject f sh)
  then show ?thesis using assms(3) by (auto simp: permits_ok_def adm_ok_def count_move)
next
  case (grant a hs raw rq)
  then show ?thesis using adm_ok_step [OF assms(2)] assms(3) by (auto simp: permits_ok_def)
next
  case (release a)
  then show ?thesis using adm_ok_step [OF assms(2)] assms(3) by (auto simp: permits_ok_def size_Diff_singleton)
qed (use assms(3) in \<open>auto simp: permits_ok_def run_thread_def size_Suc_Diff1\<close>)

lemma accept_request_table [simp]: "sh_table (accept_request e w sh) = sh_table sh"
  by (simp add: accept_request_def split: prod.split)

lemma answer_request_table: "answer_request co c e rid r sh = (resp, sh') \<Longrightarrow> sh_table sh' = sh_table sh"
  by (auto simp: answer_request_def with_metrics_def Let_def split: send_result.splits)

lemma with_metrics_table [simp]: "sh_table (with_metrics f sh) = sh_table sh"
  by (simp add: with_metrics_def)

lemma drop_scope_active: "active (with_metrics (\<lambda>m. drop_scope ck (False, m)) sh) = active sh - 1"
  by (simp add: with_metrics_def active_def scope_end_defs)

lemma active_metrics: "active (sh\<lparr>sh_metrics := m\<rparr>) = requests_active m"
  by (simp add: active_def)

lemma exhausted_table:
  "exhausted e prior sh = (r, sh') \<Longrightarrow> steps t (sh_table sh) \<Longrightarrow>
    steps t (sh_table sh') \<and> inflights (sh_table sh') = inflights (sh_table sh)"
  by (auto simp: exhausted_def Let_def split: option.splits prod.splits dest: steps_calls(4) fl.calls(4) [OF _ refl])

lemma readyz_frame:
  assumes "readyz_impl c clocks adm sh = (resp, sh')" "steps t (sh_table sh)"
  shows "steps t (sh_table sh') \<and> inflights (sh_table sh') = inflights (sh_table sh) \<and> active sh' = active sh"
proof -
  obtain now1 now2 now3 now4 where cl: "clocks = (now1, now2, now3, now4)" by (metis prod_cases4)
  obtain n t1 where u: "usable_route_count now1 (sh_table sh) = (n, t1)" by fastforce
  obtain k t2 where k: "usable_credential_count now2 t1 = (k, t2)" by fastforce
  have t2: "sh_table sh' = t2" "active sh' = active sh"
    using assms(1) by (auto simp: readyz_impl_def cl u k Let_def active_def set_circuit_state_def split: prod.splits)
  have "steps t t2" using steps_calm [OF steps_calls(3) [OF u assms(2)]] calm_step.count_keys [OF k] by blast
  moreover have "inflights t2 = inflights (sh_table sh)"
    using fl.calls(3) [OF u refl] k by (auto simp: usable_credential_count_def Let_def)
  ultimately show ?thesis using t2 by simp
qed

lemma metrics_page_frame:
  "metrics_impl now w sh = (resp, sh') \<Longrightarrow> sh_table sh' = sh_table sh \<and> active sh' = active sh"
  by (auto simp: metrics_impl_def Let_def active_def set_circuit_state_def set_queue_depth_def split: prod.splits)

text \<open>The end of an exchange takes one off its credential's counter, which is not zero.\<close>

lemma counter_released:
  assumes "counts_ok co c s" "th \<in># sy_threads s" "th = Exchanging rq n sk sr target g"
    and "i < length (inflights (sh_table (sy_shared s)))"
  shows "(inflights (sh_table (sy_shared s)))[ig_index g := inflights (sh_table (sy_shared s)) ! ig_index g - 1] ! i + of_bool (on_key i th)
    = inflights (sh_table (sy_shared s)) ! i"
  using assms threads_in_pos [OF assms(2), of "on_key i"] by (auto simp: counts_ok_def nth_list_update)

lemma counts_ok_back:
  assumes counts: "counts_ok co c s" and th: "th \<in># sy_threads s" "th = Exchanging rq n sk sr target g"
    and act: "active sh + 1 = active (sy_shared s) + of_bool (open_scope th')"
    and fl: "inflights (sh_table sh) = (inflights (sh_table (sy_shared s)))[ig_index g := inflights (sh_table (sy_shared s)) ! ig_index g - 1]"
    and "steps (new_table c) (sh_table sh)" "thread_ok co c th'" "\<And>i. \<not> on_key i th'"
  shows "counts_ok co c (run_thread th th' sh s)"
proof (rule counts_ok_run [OF counts th(1)])
  show "inflights (sh_table sh) ! i + of_bool (on_key i th) = inflights (sh_table (sy_shared s)) ! i + of_bool (on_key i th')"
    if "i < length (inflights (sh_table sh))" for i
    using counter_released [OF counts th, of i] that assms(8) [of i] by (simp add: fl)
qed (use assms in simp_all)

lemma counts_step:
  assumes step: "sys_step sm co c s s'" and counts: "counts_ok co c s" and permits: "permits_ok sm limit s"
    and small: "max limit 1 < u64_max"
  shows "counts_ok co c s'"
proof -
  have reach: "steps (new_table c) (sh_table (sy_shared s))" using counts by (simp add: counts_ok_def)
  note quiet = counts_ok_quiet [OF counts]
  show ?thesis using step
  proof cases
    case (queue a)
    then show ?thesis using reach by (intro counts_ok_aside [OF counts]) simp_all
  next
    case (reject f sh)
    then show ?thesis using reach by (intro counts_ok_aside [OF counts]) (simp_all add: active_def)
  next
    case (grant a hs raw rq)
    then show ?thesis using counts by (simp add: counts_ok_def threads_in_def)
  next
    case (accept rq e w)
    then show ?thesis unfolding accept(1) using reach by (intro quiet) (simp_all add: accept_request_active)
  next
    case (front_ends th rq n sk sr prior slept e r sh)
    note fr = front_ends(6)
    show ?thesis unfolding front_ends(1)
      by (rule quiet) (use front_ends(2,3) attempt_front_active [OF fr] fl.front_ends_keeps [OF fr refl] st.front_ends_keeps [OF fr reach] in simp_all)
  next
    case (front_dials th rq n sk sr prior slept e target wire g sh)
    note fr = front_dials(6)
    from fl.front_dials_keeps [OF fr refl] obtain u where u: "inflights u = inflights (sh_table (sy_shared s))"
      "begin_attempt target u = (g, sh_table sh)" by blast
    from st.front_dials_keeps [OF fr reach] obtain v where v: "steps (new_table c) v" "begin_attempt target v = (g, sh_table sh)" by blast
    note b = inflights_begin [OF u(2), unfolded u(1)]
    have few: "inflights (sh_table (sy_shared s)) ! i < u64_max" if "i < length (inflights (sh_table (sy_shared s)))" for i
    proof -
      have "inflights (sh_table (sy_shared s)) ! i \<le> size (sy_threads s)"
        using counts that threads_in_le [of "on_key i" s] by (simp add: counts_ok_def)
      also have "size (sy_threads s) \<le> max limit 1" using permits by (auto simp: permits_ok_def adm_ok_def)
      finally show ?thesis using small by linarith
    qed
    from front_planned [OF fr] obtain p t m where p:
      "plan (rq_spec rq) (rq_tag rq) sk (e_plan e) (e_target e) (sh_table (sy_shared s)) (sh_metrics (sy_shared s)) = (Planned p, t, m)"
      "p_target p = target" by blast
    have "t_profiles (sh_table (sy_shared s)) = profiles_of c"
      using static_steps [OF reach] by (simp add: static_def new_table_def)
    then have l: "listed c rq target"
      using plan_quality_isolation_core [OF p(1) front_dials(5)] p(2) by (auto simp: listed_def intro: nth_mem)
    show ?thesis unfolding front_dials(1)
    proof (rule counts_ok_run [OF counts front_dials(3)])
      show "inflights (sh_table sh) ! i + of_bool (on_key i th) = inflights (sh_table (sy_shared s)) ! i
          + of_bool (on_key i (Exchanging rq (Suc n) (insert (identity target) sk) sr target g))"
        if "i < length (inflights (sh_table sh))" for i
        using b few [of i] that front_dials(2) by (auto simp: nth_list_update sat_add_def)
    qed (use attempt_front_active [OF fr] front_dials(2,4) b l steps_calls(7) [OF v(2,1)] in simp_all)
  next
    case (spent th rq n sk sr prior slept e r sh)
    show ?thesis unfolding spent(1)
      by (rule quiet) (use spent exhausted_active [OF spent(5)] exhausted_table [OF spent(5) reach] in simp_all)
  next
    case (gone_sleeping th rq n sk sr prior d ck)
    then show ?thesis unfolding gone_sleeping(1) using reach by (intro quiet) (simp_all add: drop_scope_active)
  next
    case (answer th rq r e resp sh)
    show ?thesis unfolding answer(1)
      by (rule quiet) (use answer reach answer_request_active [OF answer(5)] answer_request_table [OF answer(5)] in simp_all)
  next
    case (answer_stream th rq first rest target n polls)
    then show ?thesis unfolding answer_stream(1) using reach by (intro quiet) (simp_all add: new_pump_def)
  next
    case (stream_goes th first p sh ck i q)
    have o: "\<not> fst (pu_scope p)" using counts stream_goes(2,3) by (auto simp: counts_ok_def)
    show ?thesis unfolding stream_goes(1)
      by (rule quiet) (use stream_goes reach turn_active(1) [OF o stream_goes(5)] in \<open>simp_all add: active_def\<close>)
  next
    case (stream_ends th first p sh ck i q)
    have o: "\<not> fst (pu_scope p)" using counts stream_ends(2,3) by (auto simp: counts_ok_def)
    have ck: "se_clock (stream_env_of co c ck) = ck" by (simp add: stream_env_of_def)
    show ?thesis unfolding stream_ends(1)
      by (rule quiet) (use stream_ends reach turn_active(2) [OF o stream_ends(5)] ck in \<open>simp_all add: active_def\<close>)
  next
    case (release a)
    then show ?thesis using counts
      by (auto simp: counts_ok_def threads_in_def dest!: multi_member_split)
  next
    case (readyz clocks resp sh)
    then show ?thesis using readyz_frame [OF readyz(2) reach] by (intro counts_ok_aside [OF counts]) simp_all
  next
    case (metrics_page now resp sh)
    then show ?thesis using metrics_page_frame [OF metrics_page(2)] reach by (intro counts_ok_aside [OF counts]) simp_all
  next
    case (back_done th rq n sk sr target g e x r w sh)
    show ?thesis unfolding back_done(1)
      by (rule counts_ok_back [OF counts back_done(3,2)])
        (use attempt_back_active [OF back_done(4)] attempt_back_inflights [OF back_done(4)] attempt_back_steps [OF back_done(4) reach] in simp_all)
  next
    case (back_again th rq n sk sr target g e x sk' sr' err w sh)
    show ?thesis unfolding back_again(1)
      by (rule counts_ok_back [OF counts back_again(3,2)])
        (use attempt_back_active [OF back_again(4)] attempt_back_inflights [OF back_again(4)] attempt_back_steps [OF back_again(4) reach] in simp_all)
  next
    case (gone_exchanging th rq n sk sr target g sh ck)
    show ?thesis unfolding gone_exchanging(1)
      by (rule counts_ok_back [OF counts gone_exchanging(3,2)])
        (use gone_exchanging(4) drop_scope_active steps_calls(14) [OF reach] in \<open>simp_all add: inflights_drop\<close>)
  qed
qed

section \<open>The books\<close>

text \<open>
  Every accepted request is counted when it is accepted and measured when it ends: the requests
  accepted are the active ones and those whose duration was noted, and each noted its queue wait.
\<close>

definition balanced :: "metrics \<Rightarrow> bool" where
  "balanced m = (requests_total m = of_int (requests_active m) + request_duration_samples m
     \<and> queue_wait_samples m = requests_total m
     \<and> route_attempts_total m = upstream_requests_total m
     \<and> upstream_429_total m = model_account_429_total m + quota_exhaustion_total m
     \<and> model_failovers_total m = cross_model_failovers_total m)"

interpretation bl: metric_calls balanced
  by unfold_locales (simp_all add: balanced_def)

lemma balanced_frame [simp]:
  "balanced (m\<lparr>queue_rejections_total := w\<rparr>) = balanced m" "balanced (set_circuit_state k m) = balanced m"
  "balanced (set_queue_depth d m) = balanced m" "balanced (set_concurrency_limit l m) = balanced m"
  by (simp_all add: balanced_def set_circuit_state_def set_queue_depth_def set_concurrency_limit_def)

lemma balanced_accept: "balanced (sh_metrics sh) \<Longrightarrow> balanced (sh_metrics (accept_request e w sh))"
  by (simp add: accept_request_def split: prod.split) (simp add: balanced_def inc_requests_def note_queue_wait_def)

lemma balanced_end:
  "balanced m \<Longrightarrow> balanced (snd (finish_json ck k (False, m)))" "balanced m \<Longrightarrow> balanced (snd (finish_error ck cls (False, m)))"
  "balanced m \<Longrightarrow> balanced (snd (drop_scope ck (False, m)))"
  by (simp_all add: balanced_def scope_end_defs)

lemma balanced_answer:
  "answer_request co c e rid r sh = (resp, sh') \<Longrightarrow> \<not> (\<exists>first rest target n. r = SentStream first rest target n) \<Longrightarrow>
    balanced (sh_metrics sh) \<Longrightarrow> balanced (sh_metrics sh')"
  by (cases r) (auto simp: answer_request_def with_metrics_def balanced_end)

lemma balanced_turn:
  assumes "\<not> fst (pu_scope p)" "balanced m"
  shows "stream_turn e first i (attach m p) = Go q \<Longrightarrow> balanced (snd (pu_scope q))"
    and "stream_turn e first i (attach m p) = Halt q \<Longrightarrow> balanced (snd (drop_scope (se_clock e) (pu_scope q)))"
proof -
  show "balanced (snd (pu_scope q))" if g: "stream_turn e first i (attach m p) = Go q"
    using turn_goes [OF g] assms by (simp add: attach_def)
  show "balanced (snd (drop_scope (se_clock e) (pu_scope q)))" if h: "stream_turn e first i (attach m p) = Halt q"
    using turn_keeps [OF attach_accounted [OF assms(1)], of e m first i] assms(2) unfolding h
    by (cases "pu_scope q") (auto simp: accounted_def balanced_def scope_end_defs)
qed

lemma balanced_pages:
  "readyz_impl c clocks adm sh = (resp, sh') \<Longrightarrow> balanced (sh_metrics sh') = balanced (sh_metrics sh)"
  "metrics_impl now w sh = (resp, sh') \<Longrightarrow> balanced (sh_metrics sh') = balanced (sh_metrics sh)"
  by (auto simp: readyz_impl_def metrics_impl_def Let_def split: prod.splits)

lemma balanced_step:
  assumes "sys_step sm co c s s'" "counts_ok co c s" "balanced (sh_metrics (sy_shared s))"
  shows "balanced (sh_metrics (sy_shared s'))"
  using assms(1)
proof cases
  case (stream_goes th first p sh ck i q)
  then have "\<not> fst (pu_scope p)" using assms(2) by (auto simp: counts_ok_def)
  from balanced_turn(1) [OF this _ stream_goes(5)] stream_goes assms(3) show ?thesis by (simp add: run_thread_def)
next
  case (stream_ends th first p sh ck i q)
  then have "\<not> fst (pu_scope p)" using assms(2) by (auto simp: counts_ok_def)
  from balanced_turn(2) [OF this _ stream_ends(5)] stream_ends assms(3) show ?thesis
    by (simp add: run_thread_def stream_env_of_def)
qed (use assms(3) in \<open>auto simp: run_thread_def with_metrics_def balanced_accept balanced_end balanced_pages
       dest: bl.attempt_front_keeps bl.attempt_back_keeps bl.exhausted_keeps balanced_answer\<close>)

interpretation sy: preserved "sys_step sm co c"
    "\<lambda>s. semaphore_ok sm \<and> max limit 1 < u64_max \<longrightarrow> permits_ok sm limit s \<and> counts_ok co c s
      \<and> balanced (sh_metrics (sy_shared s))" for sm co c limit
  by unfold_locales (meson permits_step counts_step balanced_step)

lemma validated_limit: "validate ps c = None \<Longrightarrow> 1 \<le> conc_initial (concurrency c) \<and> conc_initial (concurrency c) \<le> 64"
  by (auto simp: validate_def checks_pass validate_concurrency_def first_error_None)

lemma new_app_parts:
  assumes "new_app ps ok sm ua h x now c = Some app"
  shows "validate ps c = None" "as_config app = c" "as_core app = new_core c ua h x" "sh_table (as_shared app) = new_table c"
    "as_admission app = new_admission sm (conc_initial (concurrency c)) (conc_queue_capacity (concurrency c))"
  using assms by (auto simp: new_app_def Let_def new_shared_def split: if_splits)

lemma start_ok:
  assumes "new_app ps ok sm ua h x now c = Some app" "semaphore_ok sm"
  shows "permits_ok sm (conc_initial (concurrency c)) (start app)" "counts_ok (as_core app) c (start app)"
    "balanced (sh_metrics (sy_shared (start app)))"
proof -
  note parts = new_app_parts [OF assms(1)]
  show "permits_ok sm (conc_initial (concurrency c)) (start app)"
    using adm_ok_init [OF assms(2)] by (simp add: permits_ok_def start_def parts) (simp add: new_admission_def)
  have "\<forall>i < length (inflights (new_table c)). inflights (new_table c) ! i = 0"
    by (auto simp: inflights_def new_table_def enabled_entries_def split: prod.split)
  then show "counts_ok (as_core app) c (start app)"
    using new_app_idle [OF assms(1)] by (simp add: counts_ok_def start_def threads_in_def parts)
  show "balanced (sh_metrics (sy_shared (start app)))"
    using assms(1) by (auto simp: new_app_def Let_def start_def new_shared_def split: if_splits)
      (simp add: balanced_def new_metrics_def)
qed

lemma sys_invariant:
  assumes "new_app ps ok sm ua h x now c = Some app" "semaphore_ok sm" "sys_reachable sm app s"
  shows "permits_ok sm (conc_initial (concurrency c)) s" "counts_ok (as_core app) c s"
    "balanced (sh_metrics (sy_shared s))"
proof -
  let ?l = "conc_initial (concurrency c)"
  note parts = new_app_parts [OF assms(1)]
  have small: "max ?l 1 < u64_max" using validated_limit [OF parts(1)] by (simp add: u64_max_def)
  have "semaphore_ok sm \<and> max ?l 1 < u64_max \<longrightarrow> permits_ok sm ?l s \<and> counts_ok (as_core app) c s
      \<and> balanced (sh_metrics (sy_shared s))"
    using assms(3) unfolding sys_reachable_def parts(2)
    by (rule sy.run_inv) (use start_ok [OF assms(1,2)] in simp)
  with small assms(2) show "permits_ok sm ?l s" "counts_ok (as_core app) c s" "balanced (sh_metrics (sy_shared s))" by simp_all
qed

section \<open>The properties\<close>

text \<open>C2: The gauges of the running server are exact.  In every interleaving of any number of requests,
  the gauge of active requests is the number of accepted requests that have not ended, never more
  than the configured limit hold a permit, and no permit is lost.  The books balance: every request
  ever accepted is still active or was measured once (its duration noted) when it ended, a route attempt
  is an upstream request, and a 429 is a rate-limited route or an exhausted quota.\<close>

theorem system_gauges_exact:
  assumes "semaphore_ok sm" and "new_app ps ok sm ua h x now c = Some app" and "sys_reachable sm app s"
  shows "requests_active (sh_metrics (sy_shared s)) = int (threads_in open_scope s)
    \<and> size (sy_threads s) + sm_free sm (ad_semaphore (sy_admission s)) = conc_initial (concurrency c)
    \<and> ad_waiting (sy_admission s) = count (ad_tasks (sy_admission s)) Waiting
    \<and> requests_total (sh_metrics (sy_shared s))
      = of_nat (threads_in open_scope s) + request_duration_samples (sh_metrics (sy_shared s))
    \<and> queue_wait_samples (sh_metrics (sy_shared s)) = requests_total (sh_metrics (sy_shared s))
    \<and> route_attempts_total (sh_metrics (sy_shared s)) = upstream_requests_total (sh_metrics (sy_shared s))
    \<and> upstream_429_total (sh_metrics (sy_shared s))
      = model_account_429_total (sh_metrics (sy_shared s)) + quota_exhaustion_total (sh_metrics (sy_shared s))"
proof -
  have "max (conc_initial (concurrency c)) 1 = conc_initial (concurrency c)"
    using validated_limit [OF new_app_parts(1) [OF assms(2)]] by simp
  with sys_invariant [OF assms(2,1,3)] show ?thesis by (simp add: permits_ok_def counts_ok_def adm_ok_def active_def balanced_def)
qed


text \<open>C5: Isolation in the running server.  In every interleaving the table is a reachable one, and
  every attempt in flight dials a model that its request's profile lists, within the budget.\<close>

theorem system_quality:
  assumes "semaphore_ok sm" and "new_app ps ok sm ua h x now c = Some app" and "sys_reachable sm app s"
    and "Exchanging rq n sk sr target g \<in># sy_threads s"
  shows "reachable c (sh_table (sy_shared s)) \<and> n \<le> co_max_attempts (as_core app)
    \<and> (\<exists>ts lat lower. spec_tiers (profiles_of c) (rq_spec rq) = Some (ts, lat, lower)
        \<and> rt_model target \<in> set (concat (map tier_models ts)) \<and> (\<forall>l. rq_spec rq = Literal l \<longrightarrow> rt_model target = l))"
  using sys_invariant(2) [OF assms(2,1,3)] assms(4) by (auto simp: counts_ok_def reachable_def listed_def)

section \<open>A sample run\<close>

text \<open>One request arrives, is granted a permit, accepted, and is in its first exchange.\<close>

lemma sample_running:
  "\<exists>app s rq sk g. new_app sample_parsers True counting ''sensenova-proxy'' (\<lambda>s. True) message_ext 0 two_groups = Some app
    \<and> sys_reachable counting app s \<and> sy_threads s = {#Exchanging rq 1 sk 0 target_a g#} \<and> ig_index g = 0"
proof -
  define app where "app = the (new_app sample_parsers True counting ''sensenova-proxy'' (\<lambda>s. True) message_ext 0 two_groups)"
  have app: "new_app sample_parsers True counting ''sensenova-proxy'' (\<lambda>s. True) message_ext 0 two_groups = Some app"
    by (simp add: app_def new_app_def sample_valid Let_def)
  note parts = new_app_parts [OF app]
  have core: "as_core app = message_core" by (simp add: parts message_core_def)
  have budget: "0 < co_max_attempts message_core"
    by (simp add: message_core_def new_core_def two_groups_def config_with_def route_config_of_def default_routing_def Let_def)
  obtain rq where rq: "prepare_request message_core (models two_groups) table2 (\<lambda>h. None) (Some ''{}'') = Inr rq"
    "rq_spec rq = Literal ''glm-5.2''" using sample_request_prepared by blast
  let ?step = "sys_step counting message_core two_groups"
  let ?a1 = "(as_admission app)\<lparr>ad_tasks := {#Entering#}\<rparr>"
  let ?a2 = "move Entering Holding (?a1\<lparr>ad_semaphore := 1\<rparr>)"
  let ?sh = "as_shared app" and ?sh2 = "accept_request sample_serve 0 (as_shared app)"
  let ?s1 = "start app\<lparr>sy_admission := ?a1\<rparr>"
  let ?s2 = "?s1\<lparr>sy_admission := ?a2, sy_threads := add_mset (Granted rq) (sy_threads ?s1)\<rparr>"
  let ?th = "Planning rq 0 {} 0 None None"
  let ?s3 = "run_thread (Granted rq) ?th ?sh2 ?s2"
  have ad: "ad_tasks (as_admission app) = {#}" "ad_semaphore (as_admission app) = 2" "ad_waiting (as_admission app) = 0"
    by (simp_all add: parts new_admission_def counting_def two_groups_def config_with_def default_concurrency_def)
  have closed: "cb_state (sh_circuit ?sh) = Closed" and tab: "sh_table ?sh = table2"
    using app by (auto simp: new_app_def sample_valid Let_def new_shared_def new_breaker_def table2_def)
  have 1: "?step (start app) ?s1"
    by (rule sys_step.queue) (use adm_step.arrive [of counting "as_admission app"] in \<open>simp_all add: start_def ad\<close>)
  have "adm_step counting ?a1 ?a2" by (rule adm_step.try_ok) (simp_all add: ad counting_def)
  then have 2: "?step ?s1 ?s2"
    using sys_step.grant [of counting ?s1 ?a2 message_core two_groups "\<lambda>h. None" "Some ''{}''" rq] rq(1)
    by (simp add: count_move start_def tab)
  have 3: "?step ?s2 ?s3"
    using sys_step.accept [of rq ?s2 sample_serve counting message_core two_groups 0] ad by (simp add: sample_serve_def start_def)
  obtain p t m where p: "plan (rq_spec rq) (rq_tag rq) {} 5 6 table2 (sh_metrics ?sh2) = (Planned p, t, m)"
    "p_target p = target_a" using sample_plan_any rq(2) unfolding target_a_def by metis
  have sh2: "sh_table ?sh2 = table2" "cb_state (sh_circuit ?sh2) = Closed"
    using closed tab by (simp_all add: accept_request_def breaker_state_def Let_def)
  have ext: "rewrite_model (co_ext message_core) s m = Inr ''{}''" for s m
    by (simp add: message_core_def message_ext_def new_core_def Let_def rewrite_model_def)
  have sel: "e_plan (sample_env answer_ok) = 5" "e_target (sample_env answer_ok) = 6" "e_admit (sample_env answer_ok) = 6"
    by (simp_all add: sample_env_def)
  have "\<exists>wire g sh'. attempt_front message_core rq (sample_env answer_ok) {} ?sh2 = (FrontDials target_a wire g, sh')"
    unfolding attempt_front_def sel sh2(1) p prod.case Let_def plan_result.case
    by (simp add: admit_def sh2(2) ext p(2) split: prod.split)
  then obtain wire g sh' where fr: "attempt_front message_core rq (sample_env answer_ok) {} ?sh2 = (FrontDials target_a wire g, sh')" by blast
  let ?s4 = "run_thread ?th (Exchanging rq (Suc 0) (insert (identity target_a) {}) 0 target_a g) sh' ?s3"
  have 4: "?step ?s3 ?s4"
    by (rule sys_step.front_dials [OF refl]) (use budget fr in \<open>simp_all add: run_thread_def sel start_def\<close>)
  have run: "sys_reachable counting app ?s4"
    unfolding sys_reachable_def core parts(2) using 1 2 3 4 by (meson rtranclp.rtrancl_into_rtrancl rtranclp.rtrancl_refl)
  have "ig_index g = 0"
    using fl.front_dials_keeps [OF fr refl] inflights_begin [of target_a] by (auto simp: target_a_def new_selected_key_def)
  moreover have "sy_threads ?s4 = {#Exchanging rq 1 {identity target_a} 0 target_a g#}" by (simp add: run_thread_def start_def)
  ultimately show ?thesis using app run by blast
qed

theorem system_gauges_exact_witness:
  "\<exists>app s. new_app sample_parsers True counting ''sensenova-proxy'' (\<lambda>s. True) message_ext 0 two_groups = Some app
    \<and> sys_reachable counting app s \<and> requests_active (sh_metrics (sy_shared s)) = 1"
proof -
  obtain app s rq sk g where r: "new_app sample_parsers True counting ''sensenova-proxy'' (\<lambda>s. True) message_ext 0 two_groups = Some app"
    "sys_reachable counting app s" "sy_threads s = {#Exchanging rq 1 sk 0 target_a g#}" using sample_running by blast
  from system_gauges_exact [OF counting_ok r(1,2)] have "requests_active (sh_metrics (sy_shared s)) = 1"
    by (simp add: threads_in_def r(3))
  with r show ?thesis by blast
qed


theorem system_quality_witness:
  "\<exists>app s. new_app sample_parsers True counting ''sensenova-proxy'' (\<lambda>s. True) message_ext 0 two_groups = Some app
    \<and> sys_reachable counting app s \<and> reachable two_groups (sh_table (sy_shared s)) \<and> sy_threads s \<noteq> {#}"
proof -
  obtain app s rq sk g where r: "new_app sample_parsers True counting ''sensenova-proxy'' (\<lambda>s. True) message_ext 0 two_groups = Some app"
    "sys_reachable counting app s" "sy_threads s = {#Exchanging rq 1 sk 0 target_a g#}" using sample_running by blast
  have "Exchanging rq 1 sk 0 target_a g \<in># sy_threads s" by (simp add: r(3))
  from system_quality [OF counting_ok r(1,2) this] have "reachable two_groups (sh_table (sy_shared s))" by blast
  with r show ?thesis by (intro exI [of _ app] exI [of _ s]) simp
qed

end
