(* ===== verification/SystemRuns.thy ===== *)
theory SystemRuns
  imports SystemFacts
begin

text \<open>
  The two views of a request agree: the function \<open>anthropic_messages\<close>, in which the other requests
  are the functions of its environment, is a run of the server in which they are other threads.  And
  no thread is ever stuck: from every state of the server all its requests can end.
\<close>

section \<open>Running one thread\<close>

lemma run_thread_facts [simp]:
  "th' \<in># sy_threads (run_thread th th' sh s)" "sy_shared (run_thread th th' sh s) = sh"
  "sy_admission (run_thread th th' sh s) = sy_admission s"
  by (simp_all add: run_thread_def)

text \<open>A thread can get to another place, leaving the shared state as given.\<close>

definition gets :: "'s semaphore \<Rightarrow> core \<Rightarrow> config \<Rightarrow> 's system \<Rightarrow> thread \<Rightarrow> shared \<Rightarrow> bool" where
  "gets sm co c s th sh = (\<exists>s'. (sys_step sm co c)\<^sup>*\<^sup>* s s' \<and> th \<in># sy_threads s' \<and> sy_shared s' = sh)"

lemma gets_here: "th \<in># sy_threads s \<Longrightarrow> gets sm co c s th (sy_shared s)"
  by (auto simp: gets_def)

lemma gets_step: "sys_step sm co c s s' \<Longrightarrow> gets sm co c s' th sh \<Longrightarrow> gets sm co c s th sh"
  unfolding gets_def by (blast intro: converse_rtranclp_into_rtranclp)

lemma gets_trans:
  "gets sm co c s th sh \<Longrightarrow> (\<And>s' :: 's system. th \<in># sy_threads s' \<Longrightarrow> sy_shared s' = sh \<Longrightarrow> gets sm co c s' th' sh') \<Longrightarrow> gets sm co c s th' sh'"
  for s :: "'s system"
  unfolding gets_def by (blast intro: rtranclp_trans)

lemma gets_run: "sys_step sm co c s (run_thread th th' sh s) \<Longrightarrow> gets sm co c s th' sh"
  by (erule gets_step) (metis gets_here run_thread_facts(1,2))

text \<open>What the other requests do while this one awaits is itself a run of the server.\<close>

definition others_run :: "'s semaphore \<Rightarrow> core \<Rightarrow> config \<Rightarrow> (shared \<Rightarrow> shared) \<Rightarrow> bool" where
  "others_run sm co c f = (\<forall>s th. th \<in># sy_threads s \<longrightarrow> gets sm co c s th (f (sy_shared s)))"

definition env_runs :: "'s semaphore \<Rightarrow> core \<Rightarrow> config \<Rightarrow> env \<Rightarrow> bool" where
  "env_runs sm co c e = (others_run sm co c (e_before e) \<and> others_run sm co c (e_during e) \<and> e_plan e \<le> e_target e)"

lemma others_run_id: "others_run sm co c id"
  by (simp add: others_run_def gets_here)

section \<open>The loop is a run\<close>

lemma send_loop_runs:
  fixes sm :: "'s semaphore"
  shows "send_loop co rq envs n sk sr prior sh = (r, ds, sh') \<Longrightarrow> (\<And>i. env_runs sm co c (envs i)) \<Longrightarrow>
    Planning rq n sk sr prior slept \<in># sy_threads s \<Longrightarrow> sy_shared s = sh \<Longrightarrow> gets sm co c s (Answering rq r) sh'"
proof (induction co rq envs n sk sr prior sh arbitrary: r ds sh' slept s rule: send_loop.induct)
  case (1 co rq envs n sk sr prior sh)
  let ?e = "envs n" and ?th = "Planning rq n sk sr prior slept"
  have before: "gets sm co c s ?th (e_before ?e sh)" using 1(3) [of n] 1(4,5) by (auto simp: env_runs_def others_run_def)
  show ?case
  proof (rule gets_trans [OF before])
    fix s1 :: "'s system"
    assume s1: "?th \<in># sy_threads s1" "sy_shared s1 = e_before ?e sh"
    show "gets sm co c s1 (Answering rq r) sh'"
    proof (cases "co_max_attempts co \<le> n")
      case True
      then have "exhausted ?e prior (sy_shared s1) = (r, sh')"
        using 1(2) s1(2) by (auto simp: send_loop.simps [of co rq envs n] split: prod.splits)
      then show ?thesis using sys_step.spent [OF refl s1(1) True] by (blast intro: gets_run)
    next
      case False
      obtain out d sh2 where a: "attempt_once co rq ?e n sk sr sh = (out, d, sh2)" by (metis prod_cases3)
      obtain fr u where f: "attempt_front co rq ?e sk (sy_shared s1) = (fr, u)" by fastforce
      note clock = 1(3) [of n, unfolded env_runs_def, THEN conjunct2, THEN conjunct2]
      show ?thesis
      proof (cases fr)
        case (FrontEnds res)
        with a f s1(2) have "out = Done res" "sh2 = u" by (simp_all add: attempt_once_split)
        with a 1(2) False have "r = res" "sh' = u" by (simp_all add: send_loop.simps [of co rq envs n])
        then show ?thesis
          using sys_step.front_ends [OF refl s1(1) _ clock f [unfolded FrontEnds]] False by (auto intro: gets_run)
      next
        case (FrontDials target wire g)
        let ?sk = "insert (identity target) sk" and ?x = "e_exchange ?e target wire"
        let ?ex = "Exchanging rq (Suc n) ?sk sr target g"
        have to: "gets sm co c s1 ?ex u"
          using sys_step.front_dials [OF refl s1(1) _ clock f [unfolded FrontDials]] False by (auto intro: gets_run)
        obtain w where b: "attempt_back co rq ?e (Suc n) ?sk sr target g ?x (e_during ?e u) = (out, w, sh2)"
          using a f s1(2) FrontDials by (auto simp: attempt_once_split split: prod.splits)
        have "gets sm co c s2 ?ex (e_during ?e u)" if "?ex \<in># sy_threads s2" "sy_shared s2 = u" for s2 :: "'s system"
          using 1(3) [of n] that by (auto simp: env_runs_def others_run_def)
        with to have ex: "gets sm co c s1 ?ex (e_during ?e u)" by (rule gets_trans)
        show ?thesis
        proof (rule gets_trans [OF ex])
          fix s3 :: "'s system"
          assume s3: "?ex \<in># sy_threads s3" "sy_shared s3 = e_during ?e u"
          show "gets sm co c s3 (Answering rq r) sh'"
          proof (cases out)
            case (Done res)
            with a 1(2) False have "r = res" "sh' = sh2" by (simp_all add: send_loop.simps [of co rq envs n])
            then show ?thesis
              using sys_step.back_done [OF refl s3(1) b [folded s3(2), unfolded Done]] by (auto intro: gets_run)
          next
            case (Again sk' sr' err)
            obtain r2 ds2 sh3 where l: "send_loop co rq envs (Suc n) sk' sr' (Some err) sh2 = (r2, ds2, sh3)" by (metis prod_cases3)
            with a 1(2) False Again have eq: "r = r2" "sh' = sh3" by (simp_all add: send_loop.simps [of co rq envs n])
            have "sys_step sm co c s3 (run_thread ?ex (Planning rq (Suc n) sk' sr' (Some err) w) sh2 s3)"
              by (rule sys_step.back_again [OF refl s3(1) b [folded s3(2), unfolded Again]])
            then show ?thesis
              by (rule gets_step)
                (rule 1(1) [OF False a [symmetric] refl Again l [folded eq] 1(3), of w], simp_all)
          qed
        qed
      qed
    qed
  qed
qed

section \<open>A stream is a run\<close>

lemma attach_self: "attach (snd (pu_scope p)) p = p"
  by (simp add: attach_def)

lemma and_go_halts: "(\<And>p. \<exists>q. k p = Halt q) \<Longrightarrow> \<exists>q. and_go r k = Halt q"
  by (cases r) simp_all

lemma pump_loop_halts: "\<exists>q. pump_loop e is p = Halt q"
  by (induction e "is" p rule: pump_loop.induct)
    (use upstream_end_halts in \<open>auto simp: upstream_error_def intro: and_go_halts\<close>)

text \<open>The turns of a stream until it halts; each reads the metrics the one before has written.\<close>

lemma pump_loop_runs:
  fixes sm :: "'s semaphore"
  shows "pump_loop (stream_env_of co c ck) ins (attach (sh_metrics sh) p) = Halt q \<Longrightarrow>
    Streaming None p \<in># sy_threads s \<Longrightarrow> sy_shared s = sh \<Longrightarrow>
    gets sm co c s Leaving (sh\<lparr>sh_metrics := snd (drop_scope ck (pu_scope q))\<rparr>)"
proof (induction ins arbitrary: p sh s)
  case Nil
  then have "stream_turn (stream_env_of co c ck) None None (attach (sh_metrics sh) p) = Halt q" using pump_loop_end by metis
  from sys_step.stream_ends [OF refl Nil(2) _ this] Nil(3) show ?case by (auto intro: gets_run)
next
  case (Cons i ins)
  let ?e = "stream_env_of co c ck"
  show ?case
  proof (cases "stream_turn ?e None (Some i) (attach (sh_metrics sh) p)")
    case (Halt q')
    with Cons.prems(1) have "q' = q" by (simp add: pump_loop_turn)
    with sys_step.stream_ends [OF refl Cons.prems(2) _ Halt] Cons.prems(3) show ?thesis by (auto intro: gets_run)
  next
    case (Go p')
    let ?sh = "sh\<lparr>sh_metrics := snd (pu_scope p')\<rparr>"
    have step: "sys_step sm co c s (run_thread (Streaming None p) (Streaming None p') ?sh s)"
      by (rule sys_step.stream_goes [OF refl Cons.prems(2) _ Go]) (simp add: Cons.prems(3))
    have "pump_loop ?e ins (attach (sh_metrics ?sh) p') = Halt q"
      using Cons.prems(1) Go by (simp add: pump_loop_turn attach_self)
    from Cons.IH [OF this] have "gets sm co c (run_thread (Streaming None p) (Streaming None p') ?sh s) Leaving
        (?sh\<lparr>sh_metrics := snd (drop_scope ck (pu_scope q))\<rparr>)" by simp
    with step show ?thesis by (auto intro: gets_step)
  qed
qed

lemma stream_body_runs:
  fixes sm :: "'s semaphore"
  assumes "Streaming (Some first) (new_pump (sh_metrics sh) polls) \<in># sy_threads s" "sy_shared s = sh"
  shows "gets sm co c s Leaving
    (sh\<lparr>sh_metrics := snd (pu_scope (stream_body (stream_env_of co c ck) first is (new_pump (sh_metrics sh) polls)))\<rparr>)"
proof -
  let ?e = "stream_env_of co c ck" and ?p = "new_pump (sh_metrics sh) polls"
  have ck: "se_clock ?e = ck" by (simp add: stream_env_of_def)
  have at: "attach (sh_metrics sh) ?p = ?p" by (simp add: attach_def new_pump_def)
  have ends: "gets sm co c s Leaving (sh\<lparr>sh_metrics := snd (drop_scope ck (pu_scope q))\<rparr>)"
    if "stream_turn ?e (Some first) None (attach (sh_metrics sh) ?p) = Halt q" for q
    using sys_step.stream_ends [OF refl assms(1) _ that] assms(2) by (auto intro: gets_run)
  show ?thesis
  proof (cases "pu_polls ?p = Some 0")
    case True
    then show ?thesis using ends [of ?p] by (simp add: stream_turn_def stream_body_def Let_def at ck)
  next
    case False
    show ?thesis
    proof (cases "first_chunk ?e first ?p")
      case (Halt q)
      with False show ?thesis using ends [of q] by (simp add: stream_turn_def stream_body_def Let_def at ck)
    next
      case (Go p')
      let ?sh = "sh\<lparr>sh_metrics := snd (pu_scope p')\<rparr>"
      obtain q where q: "pump_loop ?e is p' = Halt q" using pump_loop_halts by blast
      have step: "sys_step sm co c s (run_thread (Streaming (Some first) ?p) (Streaming None p') ?sh s)"
        by (rule sys_step.stream_goes [OF refl assms(1), where ck = ck and i = None])
          (use False Go assms(2) in \<open>simp_all add: stream_turn_def at\<close>)
      have "gets sm co c (run_thread (Streaming (Some first) ?p) (Streaming None p') ?sh s) Leaving
          (?sh\<lparr>sh_metrics := snd (drop_scope ck (pu_scope q))\<rparr>)"
        by (rule pump_loop_runs [where p = p' and ins = "is"]) (simp_all add: attach_self q)
      with step have "gets sm co c s Leaving (sh\<lparr>sh_metrics := snd (drop_scope ck (pu_scope q))\<rparr>)" by (auto intro: gets_step)
      with False Go q show ?thesis by (simp add: stream_body_def Let_def ck)
    qed
  qed
qed

section \<open>A request is a run\<close>

text \<open>C11: The two views of a request agree.  An admitted request, answered as \<open>anthropic_messages\<close>
  answers it, is a run of the server: its thread goes from its permit to its end, and the shared state
  is the one the function returns, when what happens at its awaits is a run of the server too.\<close>

theorem request_is_run:
  fixes sm :: "'s semaphore"
  assumes "anthropic_messages co c e hs raw (sy_shared s) = (resp, ds, sh')"
    and "prepare_request co (models c) (sh_table (sy_shared s)) hs raw = Inr rq" and "sv_admission e = Admitted w"
    and "Granted rq \<in># sy_threads s" and "sv_waiting e = ad_waiting (sy_admission s)"
    and "\<And>i. env_runs sm co c (sv_envs e i)"
  shows "\<exists>s'. (sys_step sm co c)\<^sup>*\<^sup>* s s' \<and> Leaving \<in># sy_threads s' \<and> sy_shared s' = sh'"
proof -
  obtain r ds1 sh1 where sent: "send_messages co rq (sv_envs e) (accept_request e w (sy_shared s)) = (r, ds1, sh1)"
    by (metis prod_cases3)
  from assms(1-3) sent have answered: "answer_request co c e (rq_id rq) r sh1 = (resp, sh')"
    by (auto simp: anthropic_messages_def split: prod.splits)
  let ?th = "Planning rq 0 {} 0 None None"
  have "sys_step sm co c s (run_thread (Granted rq) ?th (accept_request e w (sy_shared s)) s)"
    by (rule sys_step.accept [OF assms(4,5)])
  moreover have "gets sm co c (run_thread (Granted rq) ?th (accept_request e w (sy_shared s)) s) (Answering rq r) sh1"
    by (rule send_loop_runs [OF sent [unfolded send_messages_def] assms(6), of None]) simp_all
  ultimately have sending: "gets sm co c s (Answering rq r) sh1" by (rule gets_step)
  have "gets sm co c s Leaving sh'"
  proof (rule gets_trans [OF sending])
    fix u :: "'s system"
    assume u: "Answering rq r \<in># sy_threads u" "sy_shared u = sh1"
    show "gets sm co c u Leaving sh'"
    proof (cases "\<exists>first rest target n. r = SentStream first rest target n")
      case False
      from sys_step.answer [OF refl u(1) False, of co c e resp sh'] answered u(2) show ?thesis by (auto intro: gets_run)
    next
      case True
      then obtain first rest target n where r: "r = SentStream first rest target n" by blast
      let ?p = "new_pump (sh_metrics sh1) (sv_polls e)" and ?is = "pump_inputs (sv_gone e) rest"
      have "sh' = sh1\<lparr>sh_metrics := snd (pu_scope (stream_body (stream_env_of co c (sv_clock e)) first ?is ?p))\<rparr>"
        using answered by (auto simp: r answer_request_def stream_env_of_def Let_def)
      moreover have "sys_step sm co c u (run_thread (Answering rq r) (Streaming (Some first) ?p) sh1 u)"
        using sys_step.answer_stream [OF refl u(1) [unfolded r]] u(2) r by simp
      moreover have "gets sm co c (run_thread (Answering rq r) (Streaming (Some first) ?p) sh1 u) Leaving
          (sh1\<lparr>sh_metrics := snd (pu_scope (stream_body (stream_env_of co c (sv_clock e)) first ?is ?p))\<rparr>)"
        by (rule stream_body_runs) simp_all
      ultimately show ?thesis by (auto intro: gets_step)
    qed
  qed
  then show ?thesis by (simp add: gets_def)
qed

theorem request_is_run_witness:
  "\<exists>rq resp ds sh'. prepare_request message_core (models two_groups) table2 (\<lambda>h. None) (Some ''{}'') = Inr rq
    \<and> anthropic_messages message_core two_groups sample_serve (\<lambda>h. None) (Some ''{}'') sample_shared = (resp, ds, sh')
    \<and> (\<exists>s'. (sys_step counting message_core two_groups)\<^sup>*\<^sup>*
          \<lparr>sy_admission = new_admission counting 1 1, sy_shared = sample_shared, sy_threads = {#Granted rq#}\<rparr> s'
        \<and> sy_shared s' = sh')"
proof -
  obtain rq where rq: "prepare_request message_core (models two_groups) table2 (\<lambda>h. None) (Some ''{}'') = Inr rq"
    using sample_request_prepared by blast
  let ?s = "\<lparr>sy_admission = new_admission counting 1 1, sy_shared = sample_shared, sy_threads = {#Granted rq#}\<rparr>"
  obtain resp ds sh' where a: "anthropic_messages message_core two_groups sample_serve (\<lambda>h. None) (Some ''{}'') (sy_shared ?s) = (resp, ds, sh')"
    by (metis prod_cases3)
  have env: "env_runs counting message_core two_groups (sv_envs sample_serve i)" for i
    using others_run_id by (simp add: env_runs_def sample_serve_def sample_env_def)
  from request_is_run [OF a _ _ _ _ env, of rq 0] rq
  have "\<exists>s'. (sys_step counting message_core two_groups)\<^sup>*\<^sup>* ?s s' \<and> sy_shared s' = sh'"
    by (auto simp: sample_serve_def new_admission_def)
  with rq a show ?thesis by auto
qed

section \<open>Every request can end\<close>

text \<open>How far a thread is from its end, in steps of its own, within the budget \<open>b\<close>.\<close>

fun steps_left :: "nat \<Rightarrow> thread \<Rightarrow> nat" where
  "steps_left b (Granted rq) = 4 * b + 8"
| "steps_left b (Planning rq n sk sr prior slept) = 4 * (b - n) + 6"
| "steps_left b (Exchanging rq n sk sr target g) = 4 * (b - n) + 8"
| "steps_left b (Answering rq r) = 4"
| "steps_left b (Streaming (Some c) p) = 3"
| "steps_left b (Streaming None p) = 2"
| "steps_left b Leaving = 1"

definition all_left :: "nat \<Rightarrow> 's system \<Rightarrow> nat" where
  "all_left b s = (\<Sum>th \<in># sy_threads s. steps_left b th)"

lemma left_run: "th \<in># sy_threads s \<Longrightarrow> steps_left b th' < steps_left b th \<Longrightarrow> all_left b (run_thread th th' sh s) < all_left b s"
  by (auto simp: all_left_def run_thread_def dest!: multi_member_split)

text \<open>A thread that does not wait for its permit to be returned runs, and comes closer to its end.\<close>

lemma thread_runs:
  assumes "th \<in># sy_threads s" "th \<noteq> Leaving"
  shows "\<exists>th' sh. sys_step sm co c s (run_thread th th' sh s) \<and> steps_left (co_max_attempts co) th' < steps_left (co_max_attempts co) th"
proof (cases th)
  case (Granted rq)
  from sys_step.accept [of rq s "sample_serve\<lparr>sv_waiting := ad_waiting (sy_admission s)\<rparr>"] assms(1) Granted
  show ?thesis by (fastforce simp: sample_serve_def)
next
  case (Planning rq n sk sr prior slept)
  let ?e = "sample_env answer_ok"
  show ?thesis
  proof (cases "n < co_max_attempts co")
    case False
    obtain r sh where x: "exhausted ?e prior (sy_shared s) = (r, sh)" by fastforce
    have "sys_step sm co c s (run_thread th (Answering rq r) sh s)"
      using sys_step.spent [OF Planning assms(1) _ x] False by simp
    then show ?thesis using Planning by fastforce
  next
    case True
    have clock: "e_plan ?e \<le> e_target ?e" by (simp add: sample_env_def)
    obtain fr sh where f: "attempt_front co rq ?e sk (sy_shared s) = (fr, sh)" by fastforce
    show ?thesis
    proof (cases fr)
      case (FrontEnds r)
      from sys_step.front_ends [OF Planning assms(1) True clock f [unfolded FrontEnds]] Planning show ?thesis by fastforce
    next
      case (FrontDials target wire g)
      from sys_step.front_dials [OF Planning assms(1) True clock f [unfolded FrontDials]] Planning True show ?thesis by fastforce
    qed
  qed
next
  case (Exchanging rq n sk sr target g)
  let ?e = "sample_env answer_ok"
  obtain out w sh where b: "attempt_back co rq ?e n sk sr target g answer_ok (sy_shared s) = (out, w, sh)" by (metis prod_cases3)
  show ?thesis
  proof (cases out)
    case (Done r)
    from sys_step.back_done [OF Exchanging assms(1) b [unfolded Done]] Exchanging show ?thesis by fastforce
  next
    case (Again sk' sr' err)
    from sys_step.back_again [OF Exchanging assms(1) b [unfolded Again]] Exchanging show ?thesis by fastforce
  qed
next
  case (Answering rq r)
  show ?thesis
  proof (cases "\<exists>first rest target n. r = SentStream first rest target n")
    case True
    then obtain first rest target n where r: "r = SentStream first rest target n" by blast
    from sys_step.answer_stream [OF Answering [unfolded r] assms(1)] Answering show ?thesis by fastforce
  next
    case False
    obtain resp sh where a: "answer_request co c sample_serve (rq_id rq) r (sy_shared s) = (resp, sh)" by fastforce
    from sys_step.answer [OF Answering assms(1) False a] Answering show ?thesis by fastforce
  qed
next
  case (Streaming first p)
  let ?turn = "stream_turn (stream_env_of co c (sv_clock sample_serve)) first None (attach (sh_metrics (sy_shared s)) p)"
  show ?thesis
  proof (cases ?turn)
    case (Go q)
    have "\<not> (\<exists>q. upstream_end e p = Go q)" for e p using upstream_end_halts [of e p] by auto
    with Go obtain ch where "first = Some ch" by (cases first) (auto simp: stream_turn_def pump_step_def)
    with sys_step.stream_goes [OF Streaming assms(1) refl Go] Streaming show ?thesis by fastforce
  next
    case (Halt q)
    from sys_step.stream_ends [OF Streaming assms(1) refl Halt] Streaming show ?thesis by (cases first) fastforce+
  qed
qed (use assms in simp)

lemma permit_returned:
  assumes "permits_ok sm limit s" "Leaving \<in># sy_threads s"
  shows "\<exists>s'. sys_step sm co c s s' \<and> all_left b s' < all_left b s"
proof -
  let ?a = "sy_admission s"
  have "0 < holders ?a" using assms by (auto simp: permits_ok_def dest!: multi_member_split)
  then have "Holding \<in># ad_tasks ?a" by simp
  from adm_step.released [OF this, of sm] sys_step.release [OF assms(2)] \<open>0 < holders ?a\<close>
  have "sys_step sm co c s (s\<lparr>sy_admission := move Holding Gone (?a\<lparr>ad_semaphore := sm_give sm (ad_semaphore ?a)\<rparr>),
      sy_threads := sy_threads s - {#Leaving#}\<rparr>)" by (simp add: count_move)
  moreover have "all_left b (s\<lparr>sy_admission := a, sy_threads := sy_threads s - {#Leaving#}\<rparr>) < all_left b s" for a
    using assms(2) by (auto simp: all_left_def dest!: multi_member_split)
  ultimately show ?thesis by blast
qed

lemma system_rests:
  "semaphore_ok sm \<Longrightarrow> permits_ok sm limit s \<Longrightarrow> \<exists>s'. (sys_step sm co c)\<^sup>*\<^sup>* s s' \<and> sy_threads s' = {#}"
proof (induction "all_left (co_max_attempts co) s" arbitrary: s rule: less_induct)
  case less
  show ?case
  proof (cases "sy_threads s = {#}")
    case False
    then obtain th where th: "th \<in># sy_threads s" by blast
    have "\<exists>s'. sys_step sm co c s s' \<and> all_left (co_max_attempts co) s' < all_left (co_max_attempts co) s"
    proof (cases "th = Leaving")
      case True
      with permit_returned [OF less.prems(2)] th show ?thesis by blast
    next
      case False
      with thread_runs [OF th] left_run [OF th] show ?thesis by blast
    qed
    then obtain s1 where s1: "sys_step sm co c s s1" "all_left (co_max_attempts co) s1 < all_left (co_max_attempts co) s" by blast
    from less.hyps [OF s1(2) less.prems(1) permits_step [OF s1(1) less.prems]] s1(1) show ?thesis
      by (blast intro: converse_rtranclp_into_rtranclp)
  qed blast
qed



end
