(* ===== verification/CircuitFacts.thy ===== *)
theory CircuitFacts
  imports SendFacts
begin

text \<open>
  The global circuit breaker.  When it trips, and what it promises while it is open: the refusals,
  the single probe, and the probes that never report.
\<close>

section \<open>The history of overloads\<close>

text \<open>The reports that fall in the window of the i-th one.\<close>

definition recent :: "duration \<Rightarrow> instant list \<Rightarrow> nat \<Rightarrow> instant list" where
  "recent window stamps i = filter (\<lambda>s. stamps ! i - s \<le> window) (take (Suc i) stamps)"

definition overloads :: "instant list \<Rightarrow> breaker \<Rightarrow> breaker" where
  "overloads stamps b = fold record_overload stamps b"

lemma overloads_snoc [simp]: "overloads (stamps @ [s]) b = record_overload s (overloads stamps b)"
  by (simp add: overloads_def)

lemma overloads_tunables [simp]:
  "cb_threshold (overloads stamps b) = cb_threshold b" "cb_window (overloads stamps b) = cb_window b"
  by (induction stamps rule: rev_induct) (simp_all add: overloads_def record_overload_def Let_def)

lemma recent_snoc_last: "recent w (stamps @ [s]) (length stamps) = filter (\<lambda>x. s - x \<le> w) stamps @ [s]"
  by (simp add: recent_def)

lemma recent_snoc_old: "i < length stamps \<Longrightarrow> recent w (stamps @ [s]) i = recent w stamps i"
  by (simp add: recent_def nth_append)

lemma recent_length: "length (recent w stamps i) \<le> Suc i"
  unfolding recent_def by (rule order_trans [OF length_filter_le]) simp

text \<open>Dropping what is too old for an earlier report never drops what a later one counts.\<close>

lemma filter_window_twice:
  assumes "r \<le> (s :: nat)"
  shows "filter (\<lambda>x. s - x \<le> w) (filter (\<lambda>x. r - x \<le> w) xs) = filter (\<lambda>x. s - x \<le> w) xs"
  using assms by (induction xs) auto

definition quiet :: "duration \<Rightarrow> nat \<Rightarrow> instant list \<Rightarrow> bool" where
  "quiet window threshold stamps = list_all (\<lambda>i. length (recent window stamps i) < threshold) [0..<length stamps]"

lemma quiet_snoc: "quiet w k (stamps @ [s]) \<longleftrightarrow> quiet w k stamps \<and> length (recent w (stamps @ [s]) (length stamps)) < k"
  by (auto simp: quiet_def list_all_iff recent_snoc_old)

lemma overloads_quiet:
  assumes "cb_state b = Closed" "cb_overloads b = []" "sorted stamps" "length stamps < 2 ^ 32"
    and "quiet (cb_window b) (cb_threshold b) stamps"
  shows "cb_state (overloads stamps b) = Closed
    \<and> cb_overloads (overloads stamps b)
        = (if stamps = [] then [] else recent (cb_window b) stamps (length stamps - 1))"
  using assms(3-5)
proof (induction stamps rule: rev_induct)
  case Nil
  then show ?case using assms(1,2) by (simp add: overloads_def)
next
  case (snoc s stamps)
  let ?b = "overloads stamps b" and ?w = "cb_window b"
  have IH: "cb_state ?b = Closed"
    "cb_overloads ?b = (if stamps = [] then [] else recent ?w stamps (length stamps - 1))"
    using snoc by (simp_all add: quiet_snoc sorted_append)
  have keep: "filter (\<lambda>x. s - x \<le> ?w) (cb_overloads ?b) = filter (\<lambda>x. s - x \<le> ?w) stamps"
  proof (cases "stamps = []")
    case False
    then have "stamps ! (length stamps - 1) \<le> s" using snoc.prems(1) by (simp add: sorted_append)
    then show ?thesis unfolding IH(2) recent_def using False by (simp add: filter_window_twice del: filter_filter)
  qed (use IH in simp)
  let ?new = "filter (\<lambda>x. s - x \<le> ?w) stamps @ [s]"
  have small: "length ?new < cb_threshold b" using snoc.prems(3) by (simp add: quiet_snoc recent_snoc_last)
  have "length ?new \<le> Suc (length stamps)" by simp
  also have "\<dots> < 2 ^ 32" using snoc.prems(2) by simp
  finally have "length ?new mod 2 ^ 32 = length ?new" by (rule mod_less)
  with small keep IH(1) have "record_overload s ?b = ?b\<lparr>cb_overloads := ?new, cb_probe := False\<rparr>"
    unfolding record_overload_def Let_def by simp
  then show ?case using IH(1) by (simp add: recent_snoc_last)
qed

lemma overloads_trip:
  assumes "cb_state b = Closed" "cb_overloads b = []" "sorted (stamps @ [s])" "length (stamps @ [s]) < 2 ^ 32"
    and "quiet (cb_window b) (cb_threshold b) stamps" "\<not> quiet (cb_window b) (cb_threshold b) (stamps @ [s])"
  shows "cb_state (overloads (stamps @ [s]) b) = Open
    \<and> cb_open_until (overloads (stamps @ [s]) b) = s + cb_open_for (overloads stamps b)"
proof -
  let ?b = "overloads stamps b" and ?w = "cb_window b"
  have IH: "cb_state ?b = Closed"
    "cb_overloads ?b = (if stamps = [] then [] else recent ?w stamps (length stamps - 1))"
    using overloads_quiet [of b stamps] assms by (simp_all add: sorted_append)
  have keep: "filter (\<lambda>x. s - x \<le> ?w) (cb_overloads ?b) = filter (\<lambda>x. s - x \<le> ?w) stamps"
  proof (cases "stamps = []")
    case False
    then have "stamps ! (length stamps - 1) \<le> s" using assms(3) by (simp add: sorted_append)
    then show ?thesis unfolding IH(2) recent_def using False by (simp add: filter_window_twice del: filter_filter)
  qed (use IH in simp)
  let ?new = "filter (\<lambda>x. s - x \<le> ?w) stamps @ [s]"
  have big: "cb_threshold b \<le> length ?new" using assms(5,6) by (simp add: quiet_snoc recent_snoc_last)
  have "length ?new \<le> Suc (length stamps)" by simp
  also have "\<dots> < 2 ^ 32" using assms(4) by simp
  finally have "length ?new mod 2 ^ 32 = length ?new" by (rule mod_less)
  with big keep IH(1) show ?thesis unfolding overloads_snoc record_overload_def Let_def by simp
qed

section \<open>What requests leave of the breaker\<close>

text \<open>A half-open breaker whose probe slot is taken.\<close>

definition wedged :: "breaker \<Rightarrow> bool" where
  "wedged b = (cb_state b = HalfOpen \<and> cb_probe b)"

lemma wedged_admit: "wedged b \<Longrightarrow> admit now b = (Refused (from_secs 1) ''half_open_probe_in_flight'', b)"
  by (simp add: wedged_def admit_def)

lemma admit_allowed_wedges: "admit now b = (Allowed, b') \<Longrightarrow> cb_state b \<noteq> Closed \<Longrightarrow> wedged b'"
  by (auto simp: wedged_def admit_def split: circuit_state.splits if_splits)

text \<open>An environment in which the other requests leave the breaker alone.\<close>

definition breaker_alone :: "env \<Rightarrow> bool" where
  "breaker_alone e = ((\<forall>s. sh_circuit (e_before e s) = sh_circuit s) \<and> (\<forall>s. sh_circuit (e_during e s) = sh_circuit s))"

lemma breaker_alone_D: "breaker_alone e \<Longrightarrow> sh_circuit (e_before e s) = sh_circuit s"
  "breaker_alone e \<Longrightarrow> sh_circuit (e_during e s) = sh_circuit s"
  by (simp_all add: breaker_alone_def)

lemma next_attempt_circuit: "next_attempt co spec tag f sk sr a c e sh = (n, sr', sh') \<Longrightarrow> sh_circuit sh' = sh_circuit sh"
  by (auto simp: next_attempt_def split: if_splits prod.splits option.splits followup.splits)

lemma next_attempt_group_circuit: "next_attempt_group co spec tag f sk a e sh = (n, sh') \<Longrightarrow> sh_circuit sh' = sh_circuit sh"
  by (auto simp: next_attempt_group_def split: if_splits prod.splits plan_result.splits)

lemma next_attempt_model_circuit: "next_attempt_model co spec tag f sk a e sh = (n, sh') \<Longrightarrow> sh_circuit sh' = sh_circuit sh"
  by (auto simp: next_attempt_model_def Let_def split: if_splits prod.splits plan_result.splits)

lemma follow_up_circuit: "follow_up co rq target sk sr a e rule sh = (n, sr', sh') \<Longrightarrow> sh_circuit sh' = sh_circuit sh"
  by (auto simp: follow_up_def next_attempt_circuit next_attempt_group_circuit next_attempt_model_circuit
      split: retry_rule.splits prod.splits)

lemma route_unavailable_circuit: "route_unavailable co w now sh = (r, sh') \<Longrightarrow> sh_circuit sh' = sh_circuit sh"
  by (auto simp: route_unavailable_def split: option.splits)

lemma transient_circuit: "transient target tag a hint e sh = (c, sh') \<Longrightarrow> sh_circuit sh' = sh_circuit sh"
  by (auto simp: transient_def split: prod.splits)

lemma transient_failure_circuit:
  "transient_failure st msg cls target tag a e sh = (f, sh') \<Longrightarrow> sh_circuit sh' = record_overload (e_note e) (sh_circuit sh)"
  by (auto simp: transient_failure_def overload_def split: prod.splits dest: transient_circuit)

lemma record_overload_probe [simp]: "\<not> cb_probe (record_overload now b)"
  by (simp add: record_overload_def Let_def)

lemma rate_limited_circuit: "on_rate_limited ac target tag a e sh = (f, sh') \<Longrightarrow> sh_circuit sh' = sh_circuit sh"
  by (auto simp: on_rate_limited_def Let_def split: prod.splits)

text \<open>The classes of answers that may leave the probe slot taken.\<close>

definition silent_class :: "error_class \<Rightarrow> bool" where
  "silent_class c = (c = RateLimited \<or> c = QuotaExhausted)"

lemma error_answer_probe:
  assumes "on_error_answer co ac target tag a e sh = (f, sh')" "\<not> silent_class (ac_class ac)"
  shows "\<not> cb_probe (sh_circuit sh')"
  using assms
  by (auto simp: on_error_answer_def silent_class_def on_credential_rejected_def on_not_found_def neutral_def
      record_neutral_failure_def on_server_error_def on_invalid_request_def overload_def Let_def
      split: error_class.splits prod.splits if_splits dest!: transient_circuit)

text \<open>The exchange answered with one of the two classes.\<close>

definition silent_answer :: "core \<Rightarrow> env \<Rightarrow> exchange \<Rightarrow> bool" where
  "silent_answer co e x = (case x of SendFailed err \<Rightarrow> False
    | Answered status hs events \<Rightarrow> \<not> (200 \<le> status \<and> status < 300) \<and> silent_class (ac_class (read_error co e status hs events)))"

lemma on_success_probe: "on_success t d target tag a e g sh = (g', sh') \<Longrightarrow> \<not> cb_probe (sh_circuit sh')"
  by (auto simp: on_success_def record_success_def Let_def split: prod.splits)

lemma handle_exchange_probe:
  assumes "handle_exchange co rq target a e g x sh = (r, g', sh')" "\<not> silent_answer co e x"
  shows "\<not> cb_probe (sh_circuit sh')"
proof (cases x)
  case (SendFailed err)
  then show ?thesis using assms(1)
    by (auto simp: handle_exchange_def on_send_error_def Let_def split: prod.splits dest!: transient_failure_circuit)
next
  case x: (Answered status hs events)
  show ?thesis
  proof (cases "200 \<le> status \<and> status < 300")
    case True
    then show ?thesis using assms(1) unfolding x
      by (auto simp: handle_exchange_def on_stream_failure_def on_first_byte_timeout_def on_invalid_json_def Let_def
          split: prod.splits if_splits first_byte.splits dest!: transient_failure_circuit on_success_probe)
  next
    case False
    with assms(2) x have "\<not> silent_class (ac_class (read_error co e status hs events))" by (simp add: silent_answer_def)
    with False show ?thesis using assms(1) unfolding x
      by (auto simp: handle_exchange_def Let_def split: prod.splits dest: error_answer_probe)
  qed
qed

lemma handle_exchange_rate_limited:
  assumes "handle_exchange co rq target a e g (Answered status hs events) sh = (r, g', sh')"
    and "\<not> (200 \<le> status \<and> status < 300)" "ac_class (read_error co e status hs events) = RateLimited"
  shows "sh_circuit sh' = sh_circuit sh"
  using assms by (auto simp: handle_exchange_def on_error_answer_def Let_def split: prod.splits dest: rate_limited_circuit)

text \<open>An attempt that dialed was admitted, and its breaker is the exchange's.\<close>

lemma attempt_dialed:
  assumes "attempt_once co rq e a skipped sr sh = (out, Some d, sh')" and "breaker_alone e"
  obtains cb g r g' sh2 sh3 where "admit (e_admit e) (sh_circuit sh) = (Allowed, cb)" "sh_circuit sh2 = cb"
    "handle_exchange co rq (dl_target d) (Suc a) e g (e_exchange e (dl_target d) (dl_request d)) sh2 = (r, g', sh3)"
    "sh_circuit sh' = sh_circuit sh3"
proof -
  from assms(1) obtain tgt t0 m0 cb where p: "admit (e_admit e) (sh_circuit sh) = (Allowed, cb)"
    "dial_target co rq e (Suc a) (insert (identity tgt) skipped) sr tgt
       ((e_before e sh)\<lparr>sh_table := t0, sh_metrics := m0, sh_circuit := cb\<rparr>) = (out, Some d, sh')"
    unfolding attempt_once_def Let_def
    by (auto split: prod.splits plan_result.splits admission.splits simp: breaker_alone_D(1) [OF assms(2)])
  let ?sh = "(e_before e sh)\<lparr>sh_table := t0, sh_metrics := m0, sh_circuit := cb\<rparr>"
  define sh1' where "sh1' = ?sh\<lparr>sh_metrics := (sh_metrics ?sh)\<lparr>
            route_attempts_total := route_attempts_total (sh_metrics ?sh) + 1,
            upstream_requests_total := upstream_requests_total (sh_metrics ?sh) + 1\<rparr>\<rparr>"
  have c1: "sh_circuit sh1' = cb" by (simp add: sh1'_def)
  from p(2) obtain body where body: "rewrite_model (co_ext co) (rq_canonical rq) (rt_model tgt) = Inr body"
    by (auto simp: dial_target_def Let_def split: sum.splits)
  obtain g t where b: "begin_attempt tgt (sh_table sh1') = (g, t)" by fastforce
  let ?sh2 = "e_during e (sh1'\<lparr>sh_table := t\<rparr>)" and ?wire = "send_once co tgt body (rq_stream rq) (rq_id rq)"
  obtain r g' sh3 where h: "handle_exchange co rq tgt (Suc a) e g (e_exchange e tgt ?wire) ?sh2 = (r, g', sh3)"
    by (metis prod_cases3)
  have c2: "sh_circuit ?sh2 = cb" using c1 by (simp add: breaker_alone_D(2) [OF assms(2)])
  have d: "dl_target d = tgt \<and> dl_request d = ?wire \<and> sh_circuit sh' = sh_circuit sh3"
    using p(2) unfolding dial_target_def Let_def sh1'_def [symmetric] body sum.case b prod.case h
    by (auto split: sum.splits prod.splits next_step.splits dest!: follow_up_circuit)
  show ?thesis using that [OF p(1) c2] h d by simp
qed

text \<open>An attempt that finds the probe slot taken does not dial.\<close>

lemma attempt_wedged:
  assumes "wedged (sh_circuit sh)" "breaker_alone e" "attempt_once co rq e a skipped sr sh = (out, d, sh')"
  shows "d = None \<and> (\<exists>r. out = Done r) \<and> sh_circuit sh' = sh_circuit sh"
  using assms(3) unfolding attempt_once_def Let_def
  by (auto split: prod.splits plan_result.splits simp: wedged_admit [OF assms(1)] breaker_alone_D(1) [OF assms(2)]
      dest!: route_unavailable_circuit)

section \<open>The properties\<close>

text \<open>C33: The breaker trips exactly on a burst.  A closed breaker with no reports stays closed
  through a series of overloads if and only if no report finds the threshold reached inside its
  window; pruning old stamps at each report never hides one that a later report counts.\<close>

theorem breaker_trips_on_burst:
  assumes "cb_state b = Closed" "cb_overloads b = []" "sorted stamps" "length stamps < 2 ^ 32"
  shows "list_all (\<lambda>n. cb_state (overloads (take n stamps) b) = Closed) [0..<Suc (length stamps)]
    = list_all (\<lambda>i. length (recent (cb_window b) stamps i) < cb_threshold b) [0..<length stamps]"
  using assms(3,4)
proof (induction stamps rule: rev_induct)
  case Nil
  then show ?case using assms(1) by (simp add: overloads_def)
next
  case (snoc s stamps)
  let ?q = "quiet (cb_window b) (cb_threshold b)"
  have IH: "list_all (\<lambda>n. cb_state (overloads (take n stamps) b) = Closed) [0..<Suc (length stamps)] = ?q stamps"
    using snoc by (simp add: quiet_def sorted_append)
  have "list_all (\<lambda>n. cb_state (overloads (take n (stamps @ [s])) b) = Closed) [0..<Suc (length stamps)]
      = list_all (\<lambda>n. cb_state (overloads (take n stamps) b) = Closed) [0..<Suc (length stamps)]"
    by (rule list_all_cong) auto
  then have "list_all (\<lambda>n. cb_state (overloads (take n (stamps @ [s])) b) = Closed) [0..<Suc (length (stamps @ [s]))]
      = (?q stamps \<and> cb_state (overloads (stamps @ [s]) b) = Closed)"
    using IH by auto
  also have "\<dots> = ?q (stamps @ [s])"
  proof (cases "?q (stamps @ [s])")
    case True
    then show ?thesis using overloads_quiet [OF assms(1,2) snoc.prems] by (simp add: quiet_snoc)
  next
    case False
    then show ?thesis using overloads_trip [OF assms(1,2) snoc.prems] by auto
  qed
  finally show ?case by (simp only: quiet_def)
qed

theorem breaker_trips_on_burst_witness:
  "\<not> list_all (\<lambda>n. cb_state (overloads (take n [1, 2, 3]) (new_breaker 2 60 30 0)) = Closed) [0..<Suc (length [1, 2, 3 :: nat])]"
proof -
  have sel: "cb_state (new_breaker 2 60 30 0) = Closed" "cb_overloads (new_breaker 2 60 30 0) = []"
    "cb_window (new_breaker 2 60 30 0) = from_secs 60" "cb_threshold (new_breaker 2 60 30 0) = 2"
    by (simp_all add: new_breaker_def)
  have "\<not> list_all (\<lambda>i. length (recent (from_secs 60) [1, 2, 3] i) < 2) [0..<length [1, 2, 3 :: nat]]"
    by (simp add: recent_def from_secs_def)
  then show ?thesis
    using breaker_trips_on_burst [OF sel(1,2), of "[1, 2, 3]", unfolded sel(3,4)] by simp
qed

text \<open>One probe.  While it is open the breaker refuses with exactly the time that is left;
  the first request after that is let through as a probe, and as long as nobody reports an outcome
  every other request is refused, whatever the time.\<close>

theorem half_open_single_probe:
  assumes "cb_state b = Open"
  shows "(now < cb_open_until b \<longrightarrow> admit now b = (Refused (cb_open_until b - now) (cb_open_reason b), b))
    \<and> (cb_open_until b \<le> now \<longrightarrow> (\<exists>b'. admit now b = (Allowed, b') \<and> cb_state b' = HalfOpen
         \<and> (\<forall>later. admit later b' = (Refused (from_secs 1) ''half_open_probe_in_flight'', b')
               \<and> breaker_state later b' = (HalfOpen, b'))))"
  using assms by (simp add: admit_def breaker_state_def)

theorem half_open_single_probe_witness:
  "fst (admit 5 (record_quota_exhaustion 10 0 (new_breaker 2 60 30 0))) = Refused 5 ''quota_exhausted''"
  using half_open_single_probe [of "record_quota_exhaustion 10 0 (new_breaker 2 60 30 0)" 5]
  by (simp add: record_quota_exhaustion_def from_secs_def)

text \<open>Every outcome but a 429 frees the probe slot.  After an attempt that dialed, the slot of
  the breaker is free unless the upstream answered with a rate limit or an exhausted quota.\<close>

theorem probe_slot_freed:
  assumes "attempt_once co rq e a skipped sr sh = (out, Some d, sh')" and "breaker_alone e"
    and "\<not> silent_answer co e (e_exchange e (dl_target d) (dl_request d))"
  shows "\<not> cb_probe (sh_circuit sh')"
  by (rule attempt_dialed [OF assms(1,2)]) (use handle_exchange_probe assms(3) in metis)

text \<open>The probe that is rate limited never reports.  When the request that the breaker lets
  through as its probe is answered with a 429, the slot stays taken; then no later request dials,
  whatever its environment and however long it waits, and the breaker stays half-open.\<close>

theorem rate_limited_probe_blocks:
  assumes "attempt_once co rq e a skipped sr sh = (out, Some d, sh')" and "breaker_alone e"
    and "cb_state (sh_circuit sh) \<noteq> Closed"
    and "e_exchange e (dl_target d) (dl_request d) = Answered status hs events" "\<not> (200 \<le> status \<and> status < 300)"
    and "ac_class (read_error co e status hs events) = RateLimited"
    and "\<And>n. breaker_alone (envs n)" and "0 < co_max_attempts co'" and "sh_circuit sh'' = sh_circuit sh'"
    and "send_messages co' rq' envs sh'' = (r, ds, sh3)"
  shows "ds = [] \<and> sh_circuit sh3 = sh_circuit sh' \<and> cb_state (sh_circuit sh3) = HalfOpen"
proof -
  obtain cb g r' g' sh2 sh4 where h: "admit (e_admit e) (sh_circuit sh) = (Allowed, cb)" "sh_circuit sh2 = cb"
    "handle_exchange co rq (dl_target d) (Suc a) e g (Answered status hs events) sh2 = (r', g', sh4)"
    "sh_circuit sh' = sh_circuit sh4" using attempt_dialed [OF assms(1,2)] assms(4) by metis
  have w: "wedged (sh_circuit sh')"
    using handle_exchange_rate_limited [OF h(3) assms(5,6)] h(2,4) admit_allowed_wedges [OF h(1) assms(3)] by simp
  obtain out' d' u where a: "attempt_once co' rq' (envs 0) 0 {} 0 sh'' = (out', d', u)" by (metis prod_cases3)
  from attempt_wedged [OF _ assms(7) a] w assms(9) obtain r0 where "d' = None" "out' = Done r0" "sh_circuit u = sh_circuit sh'"
    by metis
  then show ?thesis using assms(8,10) a w
    by (simp add: send_messages_def send_loop.simps [of co' rq' envs 0] wedged_def)
qed

section \<open>A sample probe\<close>

lemma dial_target_dials:
  assumes "rewrite_model (co_ext co) (rq_canonical rq) (rt_model target) = Inr body"
  shows "\<exists>out d sh'. dial_target co rq e a skipped sr target sh = (out, Some d, sh')"
proof -
  obtain out d sh' where d: "dial_target co rq e a skipped sr target sh = (out, d, sh')" by (metis prod_cases3)
  then have "d \<noteq> None" using assms unfolding dial_target_def Let_def
    by (auto split: prod.splits sum.splits next_step.splits)
  with d show ?thesis by auto
qed

lemma literal_dials:
  assumes "sh_table sh = table2" "admit 6 (sh_circuit sh) = (Allowed, cb)" "rq_spec rq = Literal ''glm-5.2''"
    and "\<And>m. rewrite_model (co_ext co) (rq_canonical rq) m = Inr body"
  shows "\<exists>out d sh'. attempt_once co rq (sample_env x) 0 {} 0 sh = (out, Some d, sh')"
proof -
  obtain p t' m' where p: "plan (Literal ''glm-5.2'') (rq_tag rq) {} 5 6 table2 (sh_metrics sh) = (Planned p, t', m')"
    using sample_plan_any by metis
  let ?e = "sample_env x"
  have sel: "e_before ?e = id" "e_plan ?e = 5" "e_target ?e = 6" "e_admit ?e = 6" by (simp_all add: sample_env_def)
  show ?thesis using dial_target_dials [OF assms(4)] assms(2)
    unfolding attempt_once_def Let_def sel id_apply assms(1,3) p prod.case plan_result.case by simp
qed

lemma sample_dials:
  assumes "sh_table sh = table2" "admit 6 (sh_circuit sh) = (Allowed, cb)"
  shows "\<exists>out d sh'. attempt_once sample_core sample_request (sample_env x) 0 {} 0 sh = (out, Some d, sh')"
  by (rule literal_dials [OF assms]) (simp_all add: rewrite_model_def sample_ext_def sample_request_def)

lemma sample_breaker_alone: "breaker_alone (sample_env x)"
  by (simp add: breaker_alone_def sample_env_def)

theorem probe_slot_freed_witness:
  "\<exists>out d sh'. attempt_once sample_core sample_request (sample_env answer_ok) 0 {} 0 sample_shared = (out, Some d, sh')
    \<and> \<not> cb_probe (sh_circuit sh')"
proof -
  have "admit 6 (sh_circuit sample_shared) = (Allowed, sh_circuit sample_shared)" by (simp add: admit_def)
  from sample_dials [OF sample_shared_sel(1) this] obtain out d sh' where
    a: "attempt_once sample_core sample_request (sample_env answer_ok) 0 {} 0 sample_shared = (out, Some d, sh')" by blast
  from probe_slot_freed [OF a sample_breaker_alone] a show ?thesis
    by (auto simp: silent_answer_def sample_env_def answer_ok_def)
qed

text \<open>A breaker whose open period is over, and a 429 for its probe.\<close>

definition tripped_shared :: shared where
  "tripped_shared = sample_shared\<lparr>sh_circuit := record_quota_exhaustion 3 0 (sh_circuit sample_shared)\<rparr>"

definition answer_429 :: exchange where "answer_429 = Answered 429 (\<lambda>h. None) []"

lemma answer_429_class: "ac_class (read_error sample_core e 429 (\<lambda>h. None) []) = RateLimited"
proof -
  have "error_message_of (Some (JObject [])) [] = []" by code_simp
  moreover have "\<not> is_explicit_quota_exhaustion []" by code_simp
  ultimately show ?thesis
    by (simp add: read_error_def classify_upstream_error_def Let_def sample_ext_def verdict_def)
qed

theorem rate_limited_probe_blocks_witness:
  "\<exists>out d sh' sh3 r. attempt_once sample_core sample_request (sample_env answer_429) 0 {} 0 tripped_shared = (out, Some d, sh')
    \<and> send_messages sample_core sample_request (\<lambda>n. sample_env answer_ok) sh' = (r, [], sh3)"
proof -
  have closed: "cb_state (sh_circuit tripped_shared) \<noteq> Closed" and ad: "\<exists>cb. admit 6 (sh_circuit tripped_shared) = (Allowed, cb)"
    and t: "sh_table tripped_shared = table2" "sh_metrics tripped_shared = new_metrics"
    by (simp_all add: tripped_shared_def record_quota_exhaustion_def admit_def)
  from ad sample_dials [OF t(1)] obtain out d sh' where
    a: "attempt_once sample_core sample_request (sample_env answer_429) 0 {} 0 tripped_shared = (out, Some d, sh')" by blast
  obtain r ds sh3 where s: "send_messages sample_core sample_request (\<lambda>n. sample_env answer_ok) sh' = (r, ds, sh3)"
    by (metis prod_cases3)
  have "ds = []" using rate_limited_probe_blocks [OF a sample_breaker_alone _ _ _ answer_429_class sample_breaker_alone _ refl s]
    closed by (simp add: sample_env_def answer_429_def)
  with a s show ?thesis by blast
qed

end
