(* ===== verification/CancelFacts.thy ===== *)
theory CancelFacts
  imports Cancel CircuitFacts
begin

text \<open>
  What an abandoned request leaves behind in the global breaker: the probe slot it took.  (That it
  leaves the gauge of active requests is part of \<^theory_text>\<open>ServerFacts\<close>.)
\<close>

lemma abandon_exchange_wedges:
  assumes "abandon_exchange co rq e skipped sh = Some sh'" "breaker_alone e" "cb_state (sh_circuit sh) \<noteq> Closed"
  shows "wedged (sh_circuit sh')"
  using assms(1) admit_allowed_wedges [OF _ assms(3)] unfolding abandon_exchange_def Let_def
  by (auto split: prod.splits plan_result.splits admission.splits sum.splits
      simp: breaker_alone_D [OF assms(2)])

text \<open>While the slot is taken, requests are refused without a dial and leave it taken.\<close>

lemma wedged_sends_nothing:
  assumes "wedged (sh_circuit sh)" "\<And>n. breaker_alone (envs n)" "0 < co_max_attempts co"
    and "send_messages co rq envs sh = (r, ds, sh')"
  shows "ds = [] \<and> sh_circuit sh' = sh_circuit sh"
proof -
  obtain out d u where a: "attempt_once co rq (envs 0) 0 {} 0 sh = (out, d, u)" by (metis prod_cases3)
  from attempt_wedged [OF assms(1,2) a] obtain r0 where "d = None" "out = Done r0" "sh_circuit u = sh_circuit sh" by blast
  then show ?thesis using assms(3,4) a by (simp add: send_messages_def send_loop.simps [of co rq envs 0])
qed

text \<open>The abandoned probe blocks the proxy.  When the breaker's open period is over and the client
  of the request it lets through disconnects during the exchange, nobody frees the probe slot: no
  later request dials, however long it waits, and the breaker stays half-open.\<close>

theorem abandoned_probe_blocks:
  assumes "abandon_exchange co rq e skipped sh = Some sh'" and "breaker_alone e"
    and "cb_state (sh_circuit sh) \<noteq> Closed"
    and "\<And>n. breaker_alone (envs n)" and "0 < co_max_attempts co'" and "sh_circuit sh'' = sh_circuit sh'"
    and "send_messages co' rq' envs sh'' = (r, ds, sh3)"
  shows "ds = [] \<and> sh_circuit sh3 = sh_circuit sh' \<and> cb_state (sh_circuit sh3) = HalfOpen"
proof -
  have w: "wedged (sh_circuit sh'')" using abandon_exchange_wedges [OF assms(1-3)] assms(6) by simp
  from wedged_sends_nothing [OF w assms(4,5,7)] w assms(6) show ?thesis by (simp add: wedged_def)
qed

theorem abandoned_probe_blocks_witness:
  "\<exists>sh' r sh3. abandon_exchange sample_core sample_request (sample_env answer_ok) {} tripped_shared = Some sh'
    \<and> send_messages sample_core sample_request (\<lambda>n. sample_env answer_ok) sh' = (r, [], sh3)"
proof -
  have closed: "cb_state (sh_circuit tripped_shared) \<noteq> Closed" and t: "sh_table tripped_shared = table2" "sh_metrics tripped_shared = new_metrics"
    by (simp_all add: tripped_shared_def record_quota_exhaustion_def)
  have "\<exists>cb. admit 6 (sh_circuit tripped_shared) = (Allowed, cb)"
    by (simp add: tripped_shared_def record_quota_exhaustion_def admit_def)
  then obtain cb where ad: "admit 6 (sh_circuit tripped_shared) = (Allowed, cb)" ..
  obtain p t' m' where p: "plan (Literal ''glm-5.2'') ''s'' {} 5 6 table2 new_metrics = (Planned p, t', m')"
    and tg: "p_target p = target_a" using sample_plan by (force simp: target_a_def)
  have rw: "rewrite_model (co_ext sample_core) (rq_canonical sample_request) (rt_model target_a) = Inr ''{}''"
    by (simp add: rewrite_model_def sample_ext_def sample_request_def target_sel)
  have sel: "e_before (sample_env answer_ok) = id" "e_plan (sample_env answer_ok) = 5" "e_target (sample_env answer_ok) = 6"
    "e_admit (sample_env answer_ok) = 6" "rq_spec sample_request = Literal ''glm-5.2''" "rq_tag sample_request = ''s''"
    by (simp_all add: sample_env_def sample_request_def)
  obtain g u where b: "begin_attempt target_a t' = (g, u)" by fastforce
  have "\<exists>sh'. abandon_exchange sample_core sample_request (sample_env answer_ok) {} tripped_shared = Some sh'"
    unfolding abandon_exchange_def Let_def sel id_apply t p prod.case plan_result.case ad admission.case tg rw sum.case b
    by (rule exI, rule refl)
  then obtain sh' where a: "abandon_exchange sample_core sample_request (sample_env answer_ok) {} tripped_shared = Some sh'" ..
  obtain r ds sh3 where s: "send_messages sample_core sample_request (\<lambda>n. sample_env answer_ok) sh' = (r, ds, sh3)"
    by (metis prod_cases3)
  have "ds = []" using abandoned_probe_blocks [OF a sample_breaker_alone closed sample_breaker_alone _ refl s] by simp
  with a s show ?thesis by blast
qed

end
