(* ===== verification/SystemBreaker.thy ===== *)
theory SystemBreaker
  imports SystemRuns CancelFacts
begin

text \<open>
  The global breaker (\<open>src/circuit.rs\<close>) in the running server: a probe slot whose request has left is
  never given back.
\<close>

definition exchanging :: "thread \<Rightarrow> bool" where
  "exchanging th = (case th of Exchanging rq n sk sr target g \<Rightarrow> True | _ \<Rightarrow> False)"

lemma exchanging_simps [simp]:
  "\<not> exchanging (Granted rq)" "\<not> exchanging Leaving" "\<not> exchanging (Planning rq n sk sr prior slept)"
  "exchanging (Exchanging rq n sk sr target g)" "\<not> exchanging (Answering rq r)" "\<not> exchanging (Streaming first p)"
  by (simp_all add: exchanging_def)

text \<open>The slot is taken and nobody is in an exchange: the probe's request is gone, with no outcome reported.\<close>

definition probe_lost :: "'s system \<Rightarrow> bool" where
  "probe_lost s = (wedged (sh_circuit (sy_shared s)) \<and> (\<forall>th \<in># sy_threads s. \<not> exchanging th))"

lemma front_refused:
  "wedged (sh_circuit sh) \<Longrightarrow> attempt_front co rq e sk sh = (fr, sh') \<Longrightarrow>
    (\<exists>r. fr = FrontEnds r) \<and> sh_circuit sh' = sh_circuit sh"
  unfolding attempt_front_def Let_def
  by (auto split: prod.splits plan_result.splits simp: wedged_admit dest!: route_unavailable_circuit)

lemma wedged_state: "wedged b \<Longrightarrow> breaker_state now b = (HalfOpen, b)"
  by (simp add: wedged_def breaker_state_def)

lemma accept_request_circuit: "wedged (sh_circuit sh) \<Longrightarrow> sh_circuit (accept_request e w sh) = sh_circuit sh"
  by (simp add: accept_request_def wedged_state)

lemma exhausted_circuit: "exhausted e prior sh = (r, sh') \<Longrightarrow> sh_circuit sh' = sh_circuit sh"
  by (auto simp: exhausted_def Let_def split: option.splits prod.splits)

lemma answer_request_circuit: "answer_request co c e rid r sh = (resp, sh') \<Longrightarrow> sh_circuit sh' = sh_circuit sh"
  by (auto simp: answer_request_def with_metrics_def Let_def split: send_result.splits)

lemma pages_circuit:
  "wedged (sh_circuit sh) \<Longrightarrow> readyz_impl c clocks adm sh = (resp, sh') \<Longrightarrow> sh_circuit sh' = sh_circuit sh"
  "wedged (sh_circuit sh) \<Longrightarrow> metrics_impl now w sh = (resp, sh') \<Longrightarrow> sh_circuit sh' = sh_circuit sh"
  by (auto simp: readyz_impl_def metrics_impl_def wedged_state Let_def split: prod.splits)

lemma probe_lost_run:
  "probe_lost s \<Longrightarrow> sh_circuit sh = sh_circuit (sy_shared s) \<Longrightarrow> \<not> exchanging th' \<Longrightarrow> probe_lost (run_thread th th' sh s)"
  by (auto simp: probe_lost_def run_thread_def dest: in_diffD)

lemma probe_lost_step:
  assumes "sys_step sm co c s s'" "probe_lost s"
  shows "probe_lost s'"
  using assms(1)
proof cases
  note w = assms(2) [unfolded probe_lost_def, THEN conjunct1]
    and idle = assms(2) [unfolded probe_lost_def, THEN conjunct2] and run = probe_lost_run [OF assms(2)]
  case (accept rq e wt)
  then show ?thesis by (simp add: run accept_request_circuit [OF w])
next
  note w = assms(2) [unfolded probe_lost_def, THEN conjunct1] and run = probe_lost_run [OF assms(2)]
  case (front_ends th rq n sk sr prior slept e r sh)
  then show ?thesis using front_refused [OF w front_ends(6)] by (simp add: run)
next
  note w = assms(2) [unfolded probe_lost_def, THEN conjunct1]
  case (front_dials th rq n sk sr prior slept e target wire g sh)
  then show ?thesis using front_refused [OF w front_dials(6)] by simp
next
  case (spent th rq n sk sr prior slept e r sh)
  then show ?thesis using exhausted_circuit [OF spent(5)] by (simp add: probe_lost_run [OF assms(2)])
next
  case (answer th rq r e resp sh)
  then show ?thesis using answer_request_circuit [OF answer(5)] by (simp add: probe_lost_run [OF assms(2)])
next
  case (release a)
  then show ?thesis using assms(2) by (auto simp: probe_lost_def dest: in_diffD)
next
  note w = assms(2) [unfolded probe_lost_def, THEN conjunct1]
  case (readyz clocks resp sh)
  then show ?thesis using assms(2) pages_circuit(1) [OF w readyz(2)] by (simp add: probe_lost_def)
next
  note w = assms(2) [unfolded probe_lost_def, THEN conjunct1]
  case (metrics_page now resp sh)
  then show ?thesis using assms(2) pages_circuit(2) [OF w metrics_page(2)] by (simp add: probe_lost_def)
next
  note idle = assms(2) [unfolded probe_lost_def, THEN conjunct2]
  case (back_done th rq n sk sr target g e x r w sh)
  then show ?thesis using idle by auto
next
  note idle = assms(2) [unfolded probe_lost_def, THEN conjunct2]
  case (back_again th rq n sk sr target g e x sk' sr' err w sh)
  then show ?thesis using idle by auto
next
  note idle = assms(2) [unfolded probe_lost_def, THEN conjunct2]
  case (gone_exchanging th rq n sk sr target g sh ck)
  then show ?thesis using idle by auto
qed (use assms(2) in \<open>auto simp: probe_lost_run with_metrics_def\<close>, auto simp: probe_lost_def)

interpretation lost: preserved "sys_step sm co c" probe_lost for sm co c
  by unfold_locales (rule probe_lost_step)

lemma no_member_kind: "filter_mset Q M = {#} \<longleftrightarrow> (\<forall>x \<in># M. \<not> Q x)"
  by (induction M) auto

text \<open>C34: A lost probe stops the server for ever.  Once the breaker's half-open slot is taken and nobody
  is in an exchange (the probe's client disconnected, or the probe was answered with a 429), no request
  ever reaches the upstream again, whatever arrives and however long it waits.\<close>

theorem lost_probe_blocks_server:
  assumes "wedged (sh_circuit (sy_shared s))" and "filter_mset exchanging (sy_threads s) = {#}"
    and "(sys_step sm co c)\<^sup>*\<^sup>* s s'"
  shows "filter_mset exchanging (sy_threads s') = {#} \<and> cb_state (sh_circuit (sy_shared s')) = HalfOpen"
proof -
  have "probe_lost s" using assms(1,2) by (auto simp: probe_lost_def no_member_kind)
  then have "probe_lost s'" by (rule lost.run_inv [OF assms(3)])
  then show ?thesis by (auto simp: probe_lost_def wedged_def no_member_kind)
qed

text \<open>Two requests meet a breaker whose open period is over: the first takes the probe slot and its client
  disconnects, the second runs and does not dial.\<close>

theorem lost_probe_blocks_server_witness:
  "\<exists>s1 s2 s3. sy_shared s1 = tripped_shared \<and> (sys_step counting sample_core two_groups)\<^sup>*\<^sup>* s1 s2
    \<and> sys_step counting sample_core two_groups s2 s3 \<and> sy_threads s3 \<noteq> {#} \<and> filter_mset exchanging (sy_threads s3) = {#}"
proof -
  let ?e = "sample_env answer_ok" and ?th = "Planning sample_request 0 {} 0 None None"
  let ?s1 = "\<lparr>sy_admission = new_admission counting 2 1, sy_shared = tripped_shared, sy_threads = {#?th, ?th#}\<rparr>"
  have t: "sh_table tripped_shared = table2" "sh_metrics tripped_shared = new_metrics"
    and closed: "cb_state (sh_circuit tripped_shared) \<noteq> Closed"
    by (simp_all add: tripped_shared_def record_quota_exhaustion_def)
  have "\<exists>cb. admit 6 (sh_circuit tripped_shared) = (Allowed, cb)"
    by (simp add: tripped_shared_def record_quota_exhaustion_def admit_def)
  then obtain cb where ad: "admit 6 (sh_circuit tripped_shared) = (Allowed, cb)" ..
  obtain p t' m' where p: "plan (Literal ''glm-5.2'') ''s'' {} 5 6 table2 new_metrics = (Planned p, t', m')"
    and tg: "p_target p = target_a" using sample_plan by (force simp: target_a_def)
  have sel: "e_plan ?e = 5" "e_target ?e = 6" "e_admit ?e = 6" "rq_spec sample_request = Literal ''glm-5.2''" "rq_tag sample_request = ''s''"
    by (simp_all add: sample_env_def sample_request_def)
  have "\<exists>wire g sh. attempt_front sample_core sample_request ?e {} tripped_shared = (FrontDials target_a wire g, sh) \<and> sh_circuit sh = cb"
    unfolding attempt_front_def sel t p prod.case Let_def plan_result.case
    by (simp add: ad tg rewrite_model_def sample_ext_def sample_request_def split: prod.split)
  then obtain wire g sh where f: "attempt_front sample_core sample_request ?e {} tripped_shared = (FrontDials target_a wire g, sh)"
    "sh_circuit sh = cb" by blast
  let ?ex = "Exchanging sample_request (Suc 0) (insert (identity target_a) {}) 0 target_a g"
  let ?s2 = "run_thread ?th ?ex sh ?s1"
  have 1: "sys_step counting sample_core two_groups ?s1 ?s2"
    by (rule sys_step.front_dials [OF refl]) (use f in \<open>simp_all add: sel\<close>)
  let ?sh3 = "with_metrics (\<lambda>m. drop_scope (sv_clock sample_serve) (False, m)) (sh\<lparr>sh_table := drop_guard g (sh_table sh)\<rparr>)"
  let ?s3 = "run_thread ?ex Leaving ?sh3 ?s2"
  have 2: "sys_step counting sample_core two_groups ?s2 ?s3"
    by (rule sys_step.gone_exchanging [OF refl]) simp_all
  have th: "sy_threads ?s3 = {#Leaving, ?th#}" by (simp add: run_thread_def)
  have w: "wedged (sh_circuit (sy_shared ?s3))"
    using admit_allowed_wedges [OF ad closed] f(2) by (simp add: with_metrics_def)
  from thread_runs [of ?th ?s3 counting sample_core two_groups] th obtain th' sh' where
    3: "sys_step counting sample_core two_groups ?s3 (run_thread ?th th' sh' ?s3)" by auto
  define s4 where "s4 = run_thread ?th th' sh' ?s3"
  from 3 have "(sys_step counting sample_core two_groups)\<^sup>*\<^sup>* ?s3 s4" unfolding s4_def by blast
  from lost_probe_blocks_server [OF w _ this] th have "filter_mset exchanging (sy_threads (run_thread ?th th' sh' ?s3)) = {#}"
    by (simp add: s4_def)
  moreover have "sy_threads (run_thread ?th th' sh' ?s3) \<noteq> {#}" by (simp add: run_thread_def)
  moreover have "(sys_step counting sample_core two_groups)\<^sup>*\<^sup>* ?s1 ?s3" using 1 2 by (blast intro: converse_rtranclp_into_rtranclp)
  moreover have "sy_shared ?s1 = tripped_shared" by simp
  ultimately show ?thesis using 3 by blast
qed

end
