(* ===== verification/SystemProbe.thy ===== *)
theory SystemProbe
  imports SystemBreaker
begin

text \<open>
  The half-open slots of the model circuits (\<open>src/router.rs\<close>) in the running server.  Unlike the slot
  of the global breaker each is owned by the guard of an attempt: a slot is taken only while an
  attempt that holds it is in its exchange, so none is ever lost.  The converse fails: a guard can
  outlive the half-open period it was taken in.
\<close>

section \<open>Which calls take a slot\<close>

definition slot_taken :: "string \<Rightarrow> route_table \<Rightarrow> bool" where
  "slot_taken m t = me_probe_in_flight (or_default (t_models t m))"

text \<open>Whatever is recorded about a model gives its slot back or leaves it.\<close>

lemma slot_entry:
  "me_probe_in_flight (refresh_model now e) \<Longrightarrow> me_probe_in_flight e"
  "me_probe_in_flight (snd (record_failure_entry cfg g now e)) \<Longrightarrow> me_probe_in_flight e"
  "me_probe_in_flight (success_model e) \<Longrightarrow> me_probe_in_flight e"
  "me_probe_in_flight (missing_entry cfg g now e) \<Longrightarrow> me_probe_in_flight e"
  by (auto simp: refresh_model_def refresh_circuit_def refresh_missing_def record_failure_entry_def
      transition_model_circuit_def success_model_def close_model_circuit_def missing_entry_def Let_def
      split: if_splits circuit_state.splits)

lemma slot_update [simp]:
  "slot_taken m (update_model n e t) = (if m = n then me_probe_in_flight e else slot_taken m t)"
  "slot_taken m (update_route r f t) = slot_taken m t" "slot_taken m (update_group g h t) = slot_taken m t"
  "slot_taken m (map_key_state i k t) = slot_taken m t" "slot_taken m (cool_group_keys g u t) = slot_taken m t"
  "slot_taken m (break_affinity_where hit t) = slot_taken m t" "slot_taken m (clear_all_keys now t) = slot_taken m t"
  "slot_taken m (t\<lparr>t_affinity := al\<rparr>) = slot_taken m t" "slot_taken m (t\<lparr>t_routes := rs\<rparr>) = slot_taken m t"
  "slot_taken m (t\<lparr>t_groups := gs\<rparr>) = slot_taken m t" "slot_taken m (t\<lparr>t_round_robin := n'\<rparr>) = slot_taken m t"
  "slot_taken m (t\<lparr>t_affinity := al, t_affinity_breaks := k'\<rparr>) = slot_taken m t"
  by (simp_all add: slot_taken_def update_model_def update_route_def update_group_def map_key_state_def
      cool_group_keys_def break_affinity_where_def clear_all_keys_def)

lemma slot_forgets: "forgets t u \<Longrightarrow> slot_taken m u \<Longrightarrow> slot_taken m t"
  by (induction rule: forgets.induct) (auto simp: slot_taken_def clear_all_keys_def dest: slot_entry(1) split: if_splits)

lemma slot_present: "t_models t n = Some e \<Longrightarrow> slot_taken n t = me_probe_in_flight e"
  by (simp add: slot_taken_def)

lemma slot_notes:
  "slot_taken m (note_success target ttft elapsed t) \<Longrightarrow> slot_taken m t"
  "slot_taken m (fst (snd (note_rate_limited target attempt streak hint jitter now t mt))) \<Longrightarrow> slot_taken m t"
  "slot_taken m (fst (snd (note_transient_failure target attempt hint jitter now t mt))) \<Longrightarrow> slot_taken m t"
  "slot_taken m (note_quota_exhausted target cooldown now t) \<Longrightarrow> slot_taken m t"
  "slot_taken m (note_authentication_failure target t) \<Longrightarrow> slot_taken m t"
  "slot_taken m (note_model_missing target now t) \<Longrightarrow> slot_taken m t"
  "slot_taken m (note_session_route tag target now t) \<Longrightarrow> slot_taken m t"
  "slot_taken m (fst (break_affinity tag t mt)) \<Longrightarrow> slot_taken m t"
  "slot_taken m (snd (release_probe g t)) \<Longrightarrow> slot_taken m t"
  "slot_taken m (drop_guard g t) \<Longrightarrow> slot_taken m t"
  by (auto simp: note_success_def note_quota_exhausted_def note_authentication_failure_def note_model_missing_def
      note_session_route_def break_affinity_def release_probe_def drop_guard_def break_affinity_for_group_def
      break_affinity_for_route_def table_eqs Let_def slot_present
      dest: slot_entry split: option.splits if_splits) (auto simp: slot_taken_def dest: slot_entry)

text \<open>Each call of the table takes no slot: those taken after it were taken before.\<close>

interpretation pr: table_calls "\<lambda>u. {m. slot_taken m u} \<subseteq> F" for F
proof (unfold_locales, goal_cases)
  case (1 spec tag skipped now now2 u m r v m')
  with forgets_plan [OF 1(1)] show ?case by (auto dest: slot_forgets)
next
  case (3 now u n v)
  with forgets_usable_route_count [OF 3(1)] show ?case by (auto dest: slot_forgets)
next
  case (4 now u w v)
  with forgets_earliest_retry_after [OF 4(1)] show ?case by (auto dest: slot_forgets)
next
  case (2 tag u m v m')
  with slot_notes(8) [of _ tag u m] show ?case by auto
next
  case (5 target attempt streak hint jitter now u m d v m')
  with slot_notes(2) [of _ target attempt streak hint jitter now u m] show ?case by auto
next
  case (6 target attempt hint jitter now u m d v m')
  with slot_notes(3) [of _ target attempt hint jitter now u m] show ?case by auto
next
  case (7 g u g' v)
  with slot_notes(9) [of _ g u] show ?case by auto
qed (auto dest: slot_notes)

lemma slot_begin:
  "begin_attempt target t = (g, t') \<Longrightarrow> slot_taken m t' \<Longrightarrow>
    slot_taken m t \<or> ig_holds_probe g \<and> ig_model g = m"
  by (auto simp: begin_attempt_def Let_def split: if_splits) (auto simp: slot_taken_def)

text \<open>A guard that holds a slot gives it back, at the latest when it is dropped.\<close>

lemma slot_dropped: "ig_holds_probe g \<Longrightarrow> \<not> slot_taken (ig_model g) (drop_guard g t)"
  by (auto simp: drop_guard_def Let_def split: option.split) (simp add: slot_taken_def)

lemma slot_released: "release_probe g t = (g', t') \<Longrightarrow> g' = g \<or> \<not> slot_taken (ig_model g) t'"
  by (auto simp: release_probe_def split: if_splits option.splits) (simp add: slot_taken_def)

lemma exchange_slot:
  assumes "handle_exchange co rq target n e g x sh = (r, g', sh')"
  shows "g' = g \<or> \<not> slot_taken (ig_model g) (sh_table sh')"
  using assms
  by (auto simp: handle_exchange_def Let_def on_success_def dest!: slot_released split: exchange.splits if_splits first_byte.splits prod.splits)

lemma attempt_back_slot:
  assumes "attempt_back co rq e n sk sr target g x sh = (out, w, sh')" "ig_holds_probe g"
  shows "\<not> slot_taken (ig_model g) (sh_table sh')"
  using assms(1)
proof (rule attempt_back_parts)
  fix r g' sh1
  assume h: "handle_exchange co rq target n e g x sh = (r, g', sh1)"
  let ?sh2 = "sh1\<lparr>sh_table := drop_guard g' (sh_table sh1)\<rparr>"
  have "\<not> slot_taken (ig_model g) (sh_table ?sh2)"
    using exchange_slot [OF h] slot_dropped [OF assms(2)] slot_notes(10) [of "ig_model g" g' "sh_table sh1"] by auto
  then have free: "{m. slot_taken m (sh_table ?sh2)} \<subseteq> - {ig_model g}" by auto
  assume "(\<exists>res. out = Done res \<and> sh' = ?sh2)
     \<or> (\<exists>rule nx sr'. follow_up co rq target sk sr n e rule ?sh2 = (nx, sr', sh')
        \<and> (\<forall>sk' q err. out = Again sk' q err \<longrightarrow> nx = Proceed w))"
  then show ?thesis using free pr.follow_up_keeps [OF _ free] by auto
qed

lemma attempt_back_takes_none:
  assumes "attempt_back co rq e n sk sr target g x sh = (out, w, sh')"
  shows "{m. slot_taken m (sh_table sh')} \<subseteq> {m. slot_taken m (sh_table sh)}"
  using assms
proof (rule attempt_back_parts)
  fix r g' and sh1 :: shared
  let ?F = "{m. slot_taken m (sh_table sh)}" and ?sh2 = "sh1\<lparr>sh_table := drop_guard g' (sh_table sh1)\<rparr>"
  assume h: "handle_exchange co rq target n e g x sh = (r, g', sh1)"
  have d: "{m. slot_taken m (sh_table ?sh2)} \<subseteq> ?F"
    using pr.handle_exchange_keeps [OF h subset_refl] slot_notes(10) by auto
  assume "(\<exists>res. out = Done res \<and> sh' = ?sh2)
     \<or> (\<exists>rule nx sr'. follow_up co rq target sk sr n e rule ?sh2 = (nx, sr', sh')
        \<and> (\<forall>sk' q err. out = Again sk' q err \<longrightarrow> nx = Proceed w))"
  then show ?thesis
  proof (elim disjE exE conjE)
    fix res
    assume "sh' = ?sh2"
    with d show ?thesis by simp
  next
    fix rule nx sr'
    assume "follow_up co rq target sk sr n e rule ?sh2 = (nx, sr', sh')"
    from pr.follow_up_keeps [OF this d] show ?thesis .
  qed
qed

section \<open>Every taken slot has its holder\<close>

definition holds_slot :: "string \<Rightarrow> thread \<Rightarrow> bool" where
  "holds_slot m th = (case th of Exchanging rq n sk sr target g \<Rightarrow> ig_holds_probe g \<and> ig_model g = m | _ \<Rightarrow> False)"

lemma holds_slot_simps [simp]:
  "\<not> holds_slot m (Granted rq)" "\<not> holds_slot m Leaving" "\<not> holds_slot m (Planning rq n sk sr prior slept)"
  "\<not> holds_slot m (Answering rq r)" "\<not> holds_slot m (Streaming first p)"
  "holds_slot m (Exchanging rq n sk sr target g) \<longleftrightarrow> ig_holds_probe g \<and> ig_model g = m"
  by (simp_all add: holds_slot_def)

definition slots_held :: "'s system \<Rightarrow> bool" where
  "slots_held s = (\<forall>m. slot_taken m (sh_table (sy_shared s)) \<longrightarrow> (\<exists>th \<in># sy_threads s. holds_slot m th))"

lemma slots_held_run:
  assumes "slots_held s" "th \<in># sy_threads s"
    and "\<And>m. slot_taken m (sh_table sh) \<Longrightarrow> slot_taken m (sh_table (sy_shared s)) \<and> \<not> holds_slot m th \<or> holds_slot m th'"
  shows "slots_held (run_thread th th' sh s)"
  unfolding slots_held_def
proof (intro allI impI)
  fix m
  assume "slot_taken m (sh_table (sy_shared (run_thread th th' sh s)))"
  then have "slot_taken m (sh_table sh)" by (simp add: run_thread_def)
  from assms(3) [OF this] show "\<exists>x \<in># sy_threads (run_thread th th' sh s). holds_slot m x"
  proof
    assume old: "slot_taken m (sh_table (sy_shared s)) \<and> \<not> holds_slot m th"
    with assms(1) obtain x where "x \<in># sy_threads s" "holds_slot m x" by (auto simp: slots_held_def)
    with old have "x \<in># sy_threads s - {#th#}" by (metis in_diff_count count_single diff_zero gr_zeroI not_in_iff)
    with \<open>holds_slot m x\<close> show ?thesis by (auto simp: run_thread_def)
  qed (auto simp: run_thread_def)
qed

lemma front_ends_slots: "attempt_front co rq e sk sh = (FrontEnds r, sh') \<Longrightarrow> slot_taken m (sh_table sh') \<Longrightarrow> slot_taken m (sh_table sh)"
  using pr.front_ends_keeps [OF _ subset_refl] by blast

lemma front_dials_slots:
  assumes "attempt_front co rq e sk sh = (FrontDials target wire g, sh')" "slot_taken m (sh_table sh')"
  shows "slot_taken m (sh_table sh) \<or> ig_holds_probe g \<and> ig_model g = m"
proof -
  from pr.front_dials_keeps [OF assms(1) subset_refl] obtain u where
    u: "{m. slot_taken m u} \<subseteq> {m. slot_taken m (sh_table sh)}" "begin_attempt target u = (g, sh_table sh')" by blast
  from slot_begin [OF u(2) assms(2)] u(1) show ?thesis by blast
qed

lemma exhausted_slots:
  "exhausted e prior sh = (r, sh') \<Longrightarrow> slot_taken m (sh_table sh') \<Longrightarrow> slot_taken m (sh_table sh)"
  using pr.calls(4) [OF _ subset_refl] by (auto simp: exhausted_def Let_def split: option.splits prod.splits) blast

lemma readyz_slots:
  assumes "readyz_impl c clocks adm sh = (resp, sh')" "slot_taken m (sh_table sh')"
  shows "slot_taken m (sh_table sh)"
proof -
  obtain now1 now2 now3 now4 where cl: "clocks = (now1, now2, now3, now4)" by (metis prod_cases4)
  obtain n t1 where u: "usable_route_count now1 (sh_table sh) = (n, t1)" by fastforce
  obtain k t2 where k: "usable_credential_count now2 t1 = (k, t2)" by fastforce
  have "sh_table sh' = t2" using assms(1) by (auto simp: readyz_impl_def cl u k Let_def split: prod.splits)
  then show ?thesis using assms(2) slot_forgets [OF forgets_usable_route_count [OF u]]
      slot_forgets [OF forgets_usable_credential_count [OF k]] by blast
qed

lemma slots_held_step:
  assumes step: "sys_step sm co c s s'" and held: "slots_held s"
  shows "slots_held s'"
  using step
proof cases
  note run = slots_held_run [OF held]
  case (front_ends th rq n sk sr prior slept e r sh)
  show ?thesis unfolding front_ends(1)
    by (rule run) (use front_ends(2,3) front_ends_slots [OF front_ends(6)] in auto)
next
  note run = slots_held_run [OF held]
  case (front_dials th rq n sk sr prior slept e target wire g sh)
  show ?thesis unfolding front_dials(1)
    by (rule run) (use front_dials(2,3) front_dials_slots [OF front_dials(6)] in auto)
next
  note run = slots_held_run [OF held]
  case (spent th rq n sk sr prior slept e r sh)
  show ?thesis unfolding spent(1)
    by (rule run) (use spent(2,3) exhausted_slots [OF spent(5)] in auto)
next
  note run = slots_held_run [OF held]
  case (answer th rq r e resp sh)
  show ?thesis unfolding answer(1)
    by (rule run) (use answer(2,3) answer_request_table [OF answer(5)] in auto)
next
  note run = slots_held_run [OF held]
  case (back_done th rq n sk sr target g e x r w sh)
  show ?thesis unfolding back_done(1)
    by (rule run) (use back_done(2,3) attempt_back_slot [OF back_done(4)] attempt_back_takes_none [OF back_done(4)] in auto)
next
  note run = slots_held_run [OF held]
  case (back_again th rq n sk sr target g e x sk' sr' err w sh)
  show ?thesis unfolding back_again(1)
    by (rule run) (use back_again(2,3) attempt_back_slot [OF back_again(4)] attempt_back_takes_none [OF back_again(4)] in auto)
next
  note run = slots_held_run [OF held]
  case (gone_exchanging th rq n sk sr target g sh ck)
  show ?thesis unfolding gone_exchanging(1)
    by (rule run) (use gone_exchanging(2,3,4) slot_dropped [of g] slot_notes(10) in auto)
next
  case (release a)
  have "Leaving \<in># sy_threads s" by (rule release)
  then have "x \<in># sy_threads s - {#Leaving#}" if "x \<in># sy_threads s" "holds_slot m x" for x m
    using that by (metis holds_slot_simps(2) in_diff_count count_single diff_zero gr_zeroI not_in_iff)
  with held show ?thesis unfolding release(1) by (fastforce simp: slots_held_def)
next
  case (readyz clocks resp sh)
  then show ?thesis using held readyz_slots [OF readyz(2)] by (auto simp: slots_held_def)
next
  case (metrics_page now resp sh)
  then show ?thesis using held metrics_page_frame [OF metrics_page(2)] by (auto simp: slots_held_def)
next
  case (queue a)
  then show ?thesis using held by (simp add: slots_held_def)
next
  case (reject f sh)
  then show ?thesis using held by (simp add: slots_held_def)
next
  case (grant a hs raw rq)
  then show ?thesis using held by (auto simp: slots_held_def)
next
  note run = slots_held_run [OF held]
  case (accept rq e w)
  show ?thesis unfolding accept(1) by (rule run) (use accept(2) in auto)
next
  note run = slots_held_run [OF held]
  case (gone_sleeping th rq n sk sr prior d ck)
  show ?thesis unfolding gone_sleeping(1) by (rule run) (use gone_sleeping(2,3) in auto)
next
  note run = slots_held_run [OF held]
  case (answer_stream th rq first rest target n polls)
  show ?thesis unfolding answer_stream(1) by (rule run) (use answer_stream(2,3) in auto)
next
  note run = slots_held_run [OF held]
  case (stream_goes th first p sh ck i q)
  show ?thesis unfolding stream_goes(1) by (rule run) (use stream_goes(2,3,4) in auto)
next
  note run = slots_held_run [OF held]
  case (stream_ends th first p sh ck i q)
  show ?thesis unfolding stream_ends(1) by (rule run) (use stream_ends(2,3,4) in auto)
qed

interpretation slots: preserved "sys_step sm co c" slots_held for sm co c
  by unfold_locales (rule slots_held_step)

lemma forgets_half_open:
  "forgets t u \<Longrightarrow> me_state (or_default (t_models t m)) = HalfOpen \<Longrightarrow> me_state (or_default (t_models u m)) = HalfOpen"
  by (induction rule: forgets.induct)
    (auto simp: clear_all_keys_def refresh_model_def refresh_circuit_def refresh_missing_def)

text \<open>C13: The router never loses a half-open slot.  In every interleaving, from a server none of whose
  slots is taken, a model's slot is taken only while an attempt that holds it is in its exchange: when
  the exchange ends, however it ends, the slot is free again.  (The global breaker is different.)\<close>

theorem router_slots_never_lost:
  assumes "\<And>m. \<not> slot_taken m (sh_table (sy_shared s))" and "(sys_step sm co c)\<^sup>*\<^sup>* s s'"
    and "slot_taken m (sh_table (sy_shared s'))"
  shows "filter_mset (holds_slot m) (sy_threads s') \<noteq> {#}"
proof -
  have "slots_held s" using assms(1) by (simp add: slots_held_def)
  from slots.run_inv [OF assms(2) this] assms(3) show ?thesis by (auto simp: slots_held_def no_member_kind)
qed

text \<open>A request meets a model whose open period is over: it takes the slot.\<close>

theorem router_slots_never_lost_witness:
  "\<exists>s s'. (\<forall>m. \<not> slot_taken m (sh_table (sy_shared s))) \<and> (sys_step counting sample_core two_groups)\<^sup>*\<^sup>* s s'
    \<and> slot_taken ''glm-5.2'' (sh_table (sy_shared s')) \<and> filter_mset (holds_slot ''glm-5.2'') (sy_threads s') \<noteq> {#}"
proof -
  let ?e = "(sample_env answer_ok)\<lparr>e_plan := 9, e_target := 9\<rparr>" and ?th = "Planning sample_request 0 {} 0 None None"
  let ?sh = "sample_shared\<lparr>sh_table := half_open_table\<rparr>"
  let ?s = "\<lparr>sy_admission = new_admission counting 1 1, sy_shared = ?sh, sy_threads = {#?th#}\<rparr>"
  have free: "\<not> slot_taken m (sh_table (sy_shared ?s))" for m
    by (simp add: half_open_table_def slot_taken_def [of _ table2] table2_sel)
  obtain p t1 m1 where p: "plan (Literal ''glm-5.2'') ''s'' {} 9 9 half_open_table (sh_metrics ?sh) = (Planned p, t1, m1)"
    "rt_model (p_target p) = ''glm-5.2''" using two_probes by metis
  then have f: "forgets half_open_table t1" using forgets_plan by blast
  have half: "me_state (or_default (t_models t1 ''glm-5.2'')) = HalfOpen"
    by (rule forgets_half_open [OF f]) (simp add: half_open_table_def update_model_def)
  have none: "\<not> slot_taken ''glm-5.2'' t1" using slot_forgets [OF f] free by auto
  obtain g t2 where b: "begin_attempt (p_target p) t1 = (g, t2)" by fastforce
  have g: "ig_holds_probe g" "ig_model g = ''glm-5.2''" "slot_taken ''glm-5.2'' t2"
    using b p(2) half none by (auto simp: begin_attempt_def Let_def slot_taken_def [of _ t1])
  have ad: "admit 6 (sh_circuit sample_shared) = (Allowed, sh_circuit sample_shared)" by (simp add: admit_def)
  have sel: "e_plan ?e = 9" "e_target ?e = 9" "e_admit ?e = 6" "rq_spec sample_request = Literal ''glm-5.2''" "rq_tag sample_request = ''s''"
    "sh_table ?sh = half_open_table" by (simp_all add: sample_env_def sample_request_def)
  have "\<exists>wire sh. attempt_front sample_core sample_request ?e {} ?sh = (FrontDials (p_target p) wire g, sh) \<and> sh_table sh = t2"
    unfolding attempt_front_def sel p(1) prod.case Let_def plan_result.case
    by (simp add: ad b rewrite_model_def sample_ext_def sample_request_def)
  then obtain wire sh where fr: "attempt_front sample_core sample_request ?e {} ?sh = (FrontDials (p_target p) wire g, sh)"
    "sh_table sh = t2" by blast
  let ?s' = "run_thread ?th (Exchanging sample_request (Suc 0) (insert (identity (p_target p)) {}) 0 (p_target p) g) sh ?s"
  have "sys_step counting sample_core two_groups ?s ?s'"
    by (rule sys_step.front_dials [OF refl]) (use fr in \<open>simp_all add: sel\<close>)
  then have run: "(sys_step counting sample_core two_groups)\<^sup>*\<^sup>* ?s ?s'" by blast
  have taken: "slot_taken ''glm-5.2'' (sh_table (sy_shared ?s'))" using g(3) fr(2) by (simp add: run_thread_def)
  from router_slots_never_lost [OF free run taken] free run taken show ?thesis by blast
qed

section \<open>A guard can outlive its half-open period\<close>

text \<open>
  The first probe is still in its exchange when an attempt begun before it fails: the circuit opens
  again, becomes half-open again, and a second probe takes the slot.  The end of the first, with no
  outcome for the model, then closes the circuit and frees the slot the second one holds.
\<close>

lemma stale_guard_closes:
  assumes "me_state (or_default (t_models t m)) = HalfOpen" "\<not> slot_taken m t"
    and "rt_model first = m" "rt_model older = m" "rt_model second = m"
    and g1: "begin_attempt first t = (g1, t1)"
    and fail: "note_transient_failure older attempt hint jitter now t1 mt = (d, t2, mt')"
    and view: "model_view m later t2 = (v, t3)" "now + min (model_open (t_config t)) max_route_wait \<le> later"
    and g2: "begin_attempt second t3 = (g2, t4)"
  shows "ig_holds_probe g1 \<and> ig_holds_probe g2
    \<and> me_state (or_default (t_models (drop_guard g1 t4) m)) = Closed \<and> \<not> slot_taken m (drop_guard g1 t4)"
proof -
  have g1: "ig_holds_probe g1" "ig_model g1 = m" "me_state (or_default (t_models t1 m)) = HalfOpen" "t_config t1 = t_config t"
    using assms(1,2,3) g1 by (auto simp: begin_attempt_def Let_def slot_taken_def)
  have t2: "t2 = fst (snd (note_transient_failure older attempt hint jitter now t1 mt))" by (simp add: fail)
  have e2: "me_state (or_default (t_models t2 m)) = Open"
    "me_open_until (or_default (t_models t2 m)) = Some (now + min (model_open (t_config t)) max_route_wait)"
    unfolding t2 table_eqs Let_def using g1(3,4) assms(4)
    by (auto simp: record_failure_entry_def transition_model_circuit_def deadline_def)
  have e3: "me_state (or_default (t_models t3 m)) = HalfOpen" "\<not> me_probe_in_flight (or_default (t_models t3 m))"
    using view e2 by (auto simp: model_view_def Let_def refresh_model_def refresh_circuit_def refresh_missing_def split: if_splits)
  have g2': "ig_holds_probe g2" "me_state (or_default (t_models t4 m)) = HalfOpen" "t_models t4 m \<noteq> None"
    using g2 e3 assms(5) by (auto simp: begin_attempt_def Let_def)
  moreover have "me_state (or_default (t_models (drop_guard g1 t4) m)) = Closed"
    using g1 g2' by (auto simp: drop_guard_def Let_def)
  ultimately show ?thesis using g1 slot_dropped [of g1 t4] by simp
qed

end
