(* ===== verification/SystemWork.thy ===== *)
theory SystemWork
  imports SystemRuns
begin

text \<open>
  The running server does a bounded amount of work for each request.  A step is an arrival, or leaves
  every request where it is (a chunk of a stream is forwarded, a page is served), or works; and the
  working steps are at most a fixed number for each arrival, in every interleaving.
\<close>

section \<open>Three kinds of steps\<close>

definition arrives :: "'s system \<Rightarrow> 's system \<Rightarrow> bool" where
  "arrives s s' = (ad_tasks (sy_admission s') = add_mset Entering (ad_tasks (sy_admission s)))"

text \<open>A stream that has forwarded its first chunk stays a stream.\<close>

definition forwards :: "'s system \<Rightarrow> 's system \<Rightarrow> bool" where
  "forwards s s' = (\<exists>p q. Streaming None p \<in># sy_threads s
     \<and> sy_threads s' = add_mset (Streaming None q) (sy_threads s - {#Streaming None p#}))"

definition stays :: "'s system \<Rightarrow> 's system \<Rightarrow> bool" where
  "stays s s' = (sy_admission s' = sy_admission s \<and> (sy_threads s' = sy_threads s \<or> forwards s s'))"

text \<open>A run that counts its arrivals and its working steps.\<close>

inductive counted_run :: "'s semaphore \<Rightarrow> core \<Rightarrow> config \<Rightarrow> 's system \<Rightarrow> nat \<Rightarrow> nat \<Rightarrow> 's system \<Rightarrow> bool"
  for sm :: "'s semaphore" and co :: core and c :: config and s :: "'s system" where
  begin_run: "counted_run sm co c s 0 0 s"
| arrival: "counted_run sm co c s a w u \<Longrightarrow> sys_step sm co c u v \<Longrightarrow> arrives u v \<Longrightarrow> counted_run sm co c s (Suc a) w v"
| standing: "counted_run sm co c s a w u \<Longrightarrow> sys_step sm co c u v \<Longrightarrow> stays u v \<Longrightarrow> counted_run sm co c s a w v"
| working: "counted_run sm co c s a w u \<Longrightarrow> sys_step sm co c u v \<Longrightarrow> \<not> arrives u v \<Longrightarrow> \<not> stays u v \<Longrightarrow>
    counted_run sm co c s a (Suc w) v"

lemma every_run_counted: "(sys_step sm co c)\<^sup>*\<^sup>* s v \<Longrightarrow> \<exists>a w. counted_run sm co c s a w v"
proof (induction rule: rtranclp_induct)
  case (step u v)
  then show ?case by (meson counted_run.arrival counted_run.standing counted_run.working)
qed (blast intro: counted_run.begin_run)

lemma counted_is_run: "counted_run sm co c s a w v \<Longrightarrow> (sys_step sm co c)\<^sup>*\<^sup>* s v"
  by (induction rule: counted_run.induct) auto

section \<open>The work that is left\<close>

text \<open>A task of the admission, until its permit is a thread or its rejection answered.\<close>

fun phase_left :: "nat \<Rightarrow> phase \<Rightarrow> nat" where
  "phase_left b Entering = 4 * b + 13"
| "phase_left b Reading = 4 * b + 12"
| "phase_left b Registering = 4 * b + 11"
| "phase_left b Waiting = 4 * b + 10"
| "phase_left b (Rejected f) = 1"
| "phase_left b Holding = 0"
| "phase_left b Gone = 0"

definition queue_left :: "nat \<Rightarrow> 's controller \<Rightarrow> nat" where
  "queue_left b a = (\<Sum>p \<in># ad_tasks a. phase_left b p)"

definition work_left :: "nat \<Rightarrow> 's system \<Rightarrow> nat" where
  "work_left b s = queue_left b (sy_admission s) + all_left b s"

lemma queue_left_move:
  "p \<in># ad_tasks a \<Longrightarrow> queue_left b (move p q a) + phase_left b p = queue_left b a + phase_left b q"
  by (auto simp: queue_left_def move_def dest!: multi_member_split)

lemma queue_left_frame [simp]:
  "queue_left b (a\<lparr>ad_semaphore := s\<rparr>) = queue_left b a" "queue_left b (a\<lparr>ad_waiting := n\<rparr>) = queue_left b a"
  "queue_left b (a\<lparr>ad_semaphore := s, ad_waiting := n\<rparr>) = queue_left b a"
  by (simp_all add: queue_left_def)

lemma all_left_frame [simp]: "all_left b (s\<lparr>sy_admission := a\<rparr>) = all_left b s" "all_left b (s\<lparr>sy_shared := sh\<rparr>) = all_left b s"
  "all_left b (s\<lparr>sy_admission := a, sy_shared := sh\<rparr>) = all_left b s"
  by (simp_all add: all_left_def)

text \<open>A step of the admission: an arrival, progress, a permit handed out or given back.\<close>

lemma admission_progress:
  assumes "adm_step sm a a'"
  shows "ad_tasks a' = add_mset Entering (ad_tasks a)
    \<or> holders a' = holders a \<and> queue_left b a' < queue_left b a
    \<or> holders a' = Suc (holders a) \<and> queue_left b a' + 4 * b + 10 \<le> queue_left b a
    \<or> Suc (holders a') = holders a \<and> queue_left b a' = queue_left b a"
  using assms
proof cases
  case (try_ok s)
  with queue_left_move [of Entering "a\<lparr>ad_semaphore := s\<rparr>" b Holding] show ?thesis by (auto simp: count_move)
next
  case try_fail
  with queue_left_move [of Entering a b Reading] show ?thesis by (auto simp: count_move)
next
  case queue_full
  with queue_left_move [of Reading a b "Rejected FailQueueFull"] show ?thesis by (auto simp: count_move)
next
  case has_room
  with queue_left_move [of Reading a b Registering] show ?thesis by (auto simp: count_move)
next
  case register
  with queue_left_move [of Registering "a\<lparr>ad_waiting := ad_waiting a + 1\<rparr>" b Waiting] show ?thesis by (auto simp: count_move)
next
  case (granted s)
  with queue_left_move [of Waiting "a\<lparr>ad_semaphore := s, ad_waiting := ad_waiting a - 1\<rparr>" b Holding]
  show ?thesis by (auto simp: count_move)
next
  case timed_out
  with queue_left_move [of Waiting "a\<lparr>ad_waiting := ad_waiting a - 1\<rparr>" b "Rejected FailQueueTimeout"]
  show ?thesis by (auto simp: count_move)
next
  case cancelled
  with queue_left_move [of Waiting "a\<lparr>ad_waiting := ad_waiting a - 1\<rparr>" b Gone] show ?thesis by (auto simp: count_move)
next
  case released
  with queue_left_move [of Holding "a\<lparr>ad_semaphore := sm_give sm (ad_semaphore a)\<rparr>" b Gone]
  show ?thesis by (auto simp: count_move)
qed simp

lemma work_run:
  "th \<in># sy_threads s \<Longrightarrow> steps_left b th' < steps_left b th \<Longrightarrow> work_left b (run_thread th th' sh s) < work_left b s"
  using left_run [of th s b th' sh] by (simp add: work_left_def)

lemma step_works:
  assumes "sys_step sm co c s s'"
  shows "arrives s s' \<or> stays s s' \<or> work_left (co_max_attempts co) s' < work_left (co_max_attempts co) s"
  using assms
proof cases
  case (queue a)
  with admission_progress [OF queue(2), of "co_max_attempts co"] show ?thesis by (auto simp: arrives_def work_left_def)
next
  case (reject f sh)
  with queue_left_move [OF reject(2), of "co_max_attempts co" Gone] show ?thesis by (auto simp: work_left_def)
next
  case (grant a hs raw rq)
  with admission_progress [OF grant(2), of "co_max_attempts co"]
  show ?thesis by (auto simp: arrives_def work_left_def all_left_def)
next
  case (stream_goes th first p sh ck i q)
  show ?thesis
  proof (cases first)
    case None
    with stream_goes show ?thesis by (auto simp: stays_def forwards_def run_thread_def)
  next
    case (Some x)
    with stream_goes show ?thesis by (simp add: work_run)
  qed
next
  case (stream_ends th first p sh ck i q)
  then show ?thesis by (cases first) (simp_all add: work_run)
next
  case (release a)
  with admission_progress [OF release(3), of "co_max_attempts co"] show ?thesis
    by (auto simp: arrives_def work_left_def all_left_def dest!: multi_member_split)
qed (auto simp: work_run stays_def)

section \<open>The property\<close>

lemma forwards_left: "forwards s s' \<Longrightarrow> all_left b s' = all_left b s"
  by (auto simp: forwards_def all_left_def dest!: multi_member_split)

lemma arrival_adds:
  assumes "sys_step sm co c s s'" "arrives s s'"
  shows "work_left b s' = work_left b s + (4 * b + 13)"
proof -
  have "sy_threads s' = sy_threads s"
    using assms
  proof cases
    case (reject f sh)
    then have "size (ad_tasks (sy_admission s')) = size (ad_tasks (sy_admission s))"
      by (simp add: move_def size_Suc_Diff1)
    with assms(2) show ?thesis by (simp add: arrives_def)
  qed (auto simp: arrives_def run_thread_def)
  then show ?thesis using assms(2) by (simp add: work_left_def all_left_def queue_left_def arrives_def)
qed

lemma counted_work:
  "counted_run sm co c s a w u \<Longrightarrow>
    w + work_left (co_max_attempts co) u \<le> work_left (co_max_attempts co) s + (4 * co_max_attempts co + 13) * a"
proof (induction rule: counted_run.induct)
  case (arrival a w u v)
  with arrival_adds [OF arrival(2,3), of "co_max_attempts co"] show ?case by simp
next
  case (standing a w u v)
  then have "work_left (co_max_attempts co) v = work_left (co_max_attempts co) u"
    by (auto simp: stays_def work_left_def forwards_left) (simp add: all_left_def)
  with standing show ?case by simp
next
  case (working a w u v)
  with step_works [OF working(2)] show ?case by simp
qed simp

text \<open>C12: No request works for ever.  In every run of a server, whatever arrives, answers or disconnects,
  all requests together take at most \<open>4 * max_attempts + 13\<close> steps for each arrival (chunks forwarded
  on a stream and pages served apart), and what is still to be done is within that bound too.\<close>

theorem bounded_work:
  assumes "new_app ps ok sm ua h x now c = Some app"
    and "counted_run sm (as_core app) (as_config app) (start app) arrivals turns s"
  shows "turns + work_left (max_route_attempts (route_config_of (routing c))) s
    \<le> (4 * max_route_attempts (route_config_of (routing c)) + 13) * arrivals"
proof -
  note parts = new_app_parts [OF assms(1)]
  have b: "co_max_attempts (as_core app) = max_route_attempts (route_config_of (routing c))"
    by (simp add: parts new_core_def Let_def)
  have "work_left k (start app) = 0" for k
    by (simp add: work_left_def start_def all_left_def queue_left_def parts) (simp add: new_admission_def)
  with counted_work [OF assms(2)] show ?thesis unfolding b by simp
qed

theorem bounded_work_witness:
  "\<exists>app s arrivals turns. new_app sample_parsers True counting ''sensenova-proxy'' (\<lambda>s. True) message_ext 0 two_groups = Some app
    \<and> counted_run counting (as_core app) (as_config app) (start app) arrivals turns s \<and> sy_threads s \<noteq> {#} \<and> turns \<le> 29 * arrivals"
proof -
  obtain app s rq sk g where r: "new_app sample_parsers True counting ''sensenova-proxy'' (\<lambda>s. True) message_ext 0 two_groups = Some app"
    "sys_reachable counting app s" "sy_threads s = {#Exchanging rq 1 sk 0 target_a g#}" using sample_running by blast
  obtain a w where run: "counted_run counting (as_core app) (as_config app) (start app) a w s"
    using every_run_counted r(2) unfolding sys_reachable_def by blast
  have "max_route_attempts (route_config_of (routing two_groups)) = 4"
    by (simp add: two_groups_def config_with_def sample_config_sel)
  with bounded_work [OF r(1) run] have "w \<le> 29 * a" by simp
  with r run show ?thesis by (intro exI [of _ app] exI [of _ s] exI [of _ a] exI [of _ w]) simp
qed

end
