(* ===== verification/CountFacts.thy ===== *)
theory CountFacts
  imports SystemFacts
begin

text \<open>
  What the counters of failovers and tiers count, against what \<open>docs/routing.md\<close> and the help texts of
  \<open>src/metrics.rs\<close> say they count.
\<close>

section \<open>Model failovers\<close>

interpretation mf: outcome_counts "\<lambda>m. (model_failovers_total m, cross_model_failovers_total m)"
  by unfold_locales simp_all

text \<open>Only a 404 is followed up by the decision that counts a change of the model.\<close>

lemma model_rule_needs_404:
  assumes "handle_exchange co rq target n e g x sh = (Inr f, g', sh')" "fl_rule f = TryModel"
  shows "gw_class (fl_error f) = NotFound"
proof -
  have "on_error_answer co ac target tag n e sh = (f, sh') \<Longrightarrow> gw_class (fl_error f) = NotFound" for ac tag
    using assms(2) by (auto simp: on_error_answer_def on_rate_limited_def on_quota_exhausted_def on_credential_rejected_def
        on_not_found_def on_server_error_def on_invalid_request_def answer_error_def Let_def
        split: error_class.splits prod.splits if_splits)
  then show ?thesis using assms
    by (auto simp: handle_exchange_def on_send_error_def on_stream_failure_def on_first_byte_timeout_def on_invalid_json_def
        transient_failure_def Let_def split: exchange.splits if_splits first_byte.splits prod.splits)
qed

text \<open>
  A request that fails over to another model after anything but a 404 (a rate limit, a server error, a
  tier stepped down) is not counted as a model failover, although its next dial changes the model.
\<close>

lemma model_failover_uncounted:
  assumes again: "attempt_back co rq e n sk sr failed g x sh = (Again sk' sr' err, w, sh')" and "gw_class err \<noteq> NotFound"
    and front: "attempt_front co rq e' sk' sh' = (FrontDials target wire g2, sh2)" and "rt_model target \<noteq> rt_model failed"
  shows "model_failovers_total (sh_metrics sh2) = model_failovers_total (sh_metrics sh)
    \<and> cross_model_failovers_total (sh_metrics sh2) = cross_model_failovers_total (sh_metrics sh)"
proof -
  let ?Q = "\<lambda>sh. (model_failovers_total (sh_metrics sh), cross_model_failovers_total (sh_metrics sh))"
  from again obtain f g' sh1 where h: "handle_exchange co rq failed n e g x sh = (Inr f, g', sh1)" "err = fl_error f"
    and u: "follow_up co rq failed sk sr n e (fl_rule f) (sh1\<lparr>sh_table := drop_guard g' (sh_table sh1)\<rparr>) = (Proceed w, sr', sh')"
    unfolding attempt_back_def Let_def by (auto split: prod.splits sum.splits next_step.splits)
  have "fl_rule f \<noteq> TryModel" using model_rule_needs_404 [OF h(1)] assms(2) h(2) by blast
  then have "?Q sh' = ?Q sh1" using u
    by (auto simp: follow_up_def split: retry_rule.splits prod.splits dest!: mf.next_attempt_keeps mf.next_attempt_group_keeps)
  then show ?thesis using mf.handle_exchange_keeps [OF h(1)] mf.attempt_front_keeps [OF front] by simp
qed

section \<open>Steps down and exclusions\<close>

text \<open>Every plan that chooses a route of a lower tier counts a step, and every plan that met a gate one exclusion.\<close>

lemma choose_counts:
  "choose_route tier aff now2 s t m = (Planned p, t', m') \<Longrightarrow>
    tier_steps_total m' = tier_steps_total m + (if 0 < p_stepped_down p then 1 else 0)
    \<and> health_excluded_total m' = health_excluded_total m + (if p_gate p \<noteq> None then 1 else 0)"
  by (auto simp: choose_route_def Let_def split: prod.splits option.splits if_splits)

lemma plan_tiers_counts:
  "plan_tiers skipped aff lat lower now now2 tier cfgs gate w t m = (Planned p, t', m') \<Longrightarrow>
    tier_steps_total m' = tier_steps_total m + (if 0 < p_stepped_down p then 1 else 0)
    \<and> health_excluded_total m' = health_excluded_total m + (if p_gate p \<noteq> None then 1 else 0)"
proof (induction cfgs arbitrary: tier gate w t)
  case (Cons cfg cfgs)
  obtain s u where s: "scan_tier skipped aff lat now gate (tier_models cfg) t = (s, u)" by fastforce
  show ?case
  proof (cases "sc_available s \<noteq> []")
    case True
    then show ?thesis using Cons(2) s choose_counts by (auto simp del: if_split)
  next
    case False
    then show ?thesis using Cons s by (auto split: tier_availability.splits if_splits)
  qed
qed simp

lemma plan_counts:
  "plan spec tag sk now now2 t m = (Planned p, t', m') \<Longrightarrow>
    tier_steps_total m' = tier_steps_total m + (if 0 < p_stepped_down p then 1 else 0)
    \<and> health_excluded_total m' = health_excluded_total m + (if p_gate p \<noteq> None then 1 else 0)"
  by (auto simp: plan_def split: option.splits prod.splits simp del: if_split dest!: plan_tiers_counts)

text \<open>
  A failover plans twice, once to decide that it goes on and once for the dial: one step down of one
  request is counted twice.
\<close>

lemma step_down_counted_twice:
  assumes "attempt < co_max_attempts co"
    and b: "break_affinity tag (sh_table sh) (sh_metrics sh) = (u, m)"
    and p: "plan spec sess_none (insert (identity failed) skipped) (e_follow e) (e_follow_target e) u m = (Planned p, t1, m1)" "0 < p_stepped_down p"
    and n: "next_attempt co spec tag failed skipped sr attempt cooldown e sh = (Proceed w, sr', sh')"
    and q: "plan spec tag skipped now now2 (sh_table sh') (sh_metrics sh') = (Planned q, t2, m2)" "0 < p_stepped_down q"
  shows "tier_steps_total m2 = tier_steps_total (sh_metrics sh) + 2"
proof -
  have "sh_metrics sh' = m1\<lparr>retries_total := retries_total m1 + 1, route_failovers_total := route_failovers_total m1 + 1\<rparr>"
    using n assms(1) by (auto simp: next_attempt_def followup_def b p(1) split: option.splits)
  moreover have "tier_steps_total m = tier_steps_total (sh_metrics sh)"
    using b by (auto simp: break_affinity_def split: if_splits)
  ultimately show ?thesis using plan_counts [OF p(1)] plan_counts [OF q(1)] p(2) q(2) by simp
qed

end
