(* ===== verification/TokenFacts.thy ===== *)
theory TokenFacts
  imports Models
begin

text \<open>
  The token estimate of \<open>src/models.rs\<close> against the text it estimates: the compact JSON of the fields
  it looks at, as the crate prints values that need no escapes.
\<close>

section \<open>Compact JSON\<close>

definition quoted :: "string \<Rightarrow> string" where
  "quoted s = CHR 0x22 # s @ [CHR 0x22]"

fun compact_text :: "json \<Rightarrow> string"
and compact_items :: "json list \<Rightarrow> string"
and compact_fields :: "(string \<times> json) list \<Rightarrow> string" where
  "compact_text JNull = ''null''"
| "compact_text (JBool b) = (if b then ''true'' else ''false'')"
| "compact_text (JNumber n) = num_text n"
| "compact_text (JString s) = quoted s"
| "compact_text (JArray vs) = ''['' @ compact_items vs @ '']''"
| "compact_text (JObject fs) = ''{'' @ compact_fields fs @ ''}''"
| "compact_items [] = []"
| "compact_items (v # vs) = compact_text v @ (if vs = [] then [] else '','' @ compact_items vs)"
| "compact_fields [] = []"
| "compact_fields ((k, v) # fs) = quoted k @ '':'' @ compact_text v @ (if fs = [] then [] else '','' @ compact_fields fs)"

text \<open>What the estimate counts differently: it has a comma for every item of an array, and none for a field.\<close>

fun full_arrays :: "json \<Rightarrow> nat"
and full_arrays_items :: "json list \<Rightarrow> nat"
and full_arrays_fields :: "(string \<times> json) list \<Rightarrow> nat" where
  "full_arrays (JArray vs) = (if vs = [] then 0 else 1) + full_arrays_items vs"
| "full_arrays (JObject fs) = full_arrays_fields fs"
| "full_arrays JNull = 0" | "full_arrays (JBool b) = 0" | "full_arrays (JNumber n) = 0" | "full_arrays (JString s) = 0"
| "full_arrays_items [] = 0"
| "full_arrays_items (v # vs) = full_arrays v + full_arrays_items vs"
| "full_arrays_fields [] = 0"
| "full_arrays_fields ((k, v) # fs) = full_arrays v + full_arrays_fields fs"

fun field_commas :: "json \<Rightarrow> nat"
and field_commas_items :: "json list \<Rightarrow> nat"
and field_commas_fields :: "(string \<times> json) list \<Rightarrow> nat" where
  "field_commas (JArray vs) = field_commas_items vs"
| "field_commas (JObject fs) = length fs - 1 + field_commas_fields fs"
| "field_commas JNull = 0" | "field_commas (JBool b) = 0" | "field_commas (JNumber n) = 0" | "field_commas (JString s) = 0"
| "field_commas_items [] = 0"
| "field_commas_items (v # vs) = field_commas v + field_commas_items vs"
| "field_commas_fields [] = 0"
| "field_commas_fields ((k, v) # fs) = field_commas v + field_commas_fields fs"

section \<open>The estimate of a value\<close>

lemma sat_add_fits: "a + b \<le> m \<Longrightarrow> sat_add m a b = a + b"
  by (simp add: sat_add_def)

text \<open>The bytes a value is charged with: those of its text, a comma more for an array, none for fields.\<close>

definition charged :: "json \<Rightarrow> nat" where
  "charged v = length (compact_text v) + full_arrays v - field_commas v"

lemma commas_printed:
  "field_commas v \<le> length (compact_text v)"
  "field_commas_items vs \<le> length (compact_items vs)"
  "field_commas_fields fs + (length fs - 1) \<le> length (compact_fields fs)"
proof (induction v and vs and fs rule: compact_text_compact_items_compact_fields.induct)
  case (10 k v fs)
  then show ?case by (cases fs) (simp_all add: quoted_def)
next
  case (8 v vs)
  then show ?case by (cases vs) simp_all
qed simp_all

text \<open>The loops over items and fields, from any count so far, as long as the text is addressable.\<close>

lemma estimated_charged:
  "length (compact_text v) + full_arrays v \<le> u64_max \<Longrightarrow> estimated_json_bytes v = charged v"
  "\<And>acc. acc + length (compact_items vs) + full_arrays_items vs + 1 \<le> u64_max \<Longrightarrow> estimated_items acc vs =
     acc + length (compact_items vs) + full_arrays_items vs + (if vs = [] then 0 else 1) - field_commas_items vs"
  "\<And>acc. acc + length (compact_fields fs) + full_arrays_fields fs \<le> u64_max \<Longrightarrow> estimated_fields acc fs =
     acc + length (compact_fields fs) + full_arrays_fields fs - (field_commas_fields fs + (length fs - 1))"
proof (induction v and vs and fs rule: compact_text_compact_items_compact_fields.induct)
  case (5 vs)
  then show ?case using commas_printed(2) [of vs] by (cases "vs = []") (simp_all add: charged_def)
next
  case (6 fs)
  then show ?case using commas_printed(3) [of fs] by (simp add: charged_def add.commute [of "field_commas_fields fs"])
next
  case (8 v vs acc)
  have v: "estimated_json_bytes v = charged v" using 8(1,3) by simp
  then have "estimated_items acc (v # vs) = estimated_items (acc + 1 + charged v) vs"
    using 8(3) by (simp add: sat_add_fits charged_def)
  then show ?case using 8(3) commas_printed(1) [of v] commas_printed(2) [of vs]
    by (cases "vs = []") (simp_all add: 8(2) charged_def del: estimated_items.simps(2))
next
  case (10 k v fs acc)
  have v: "estimated_json_bytes v = charged v" using 10(1,3) by simp
  then have "estimated_fields acc ((k, v) # fs) = estimated_fields (acc + length k + 3 + charged v) fs"
    using 10(3) by (simp add: sat_add_fits charged_def quoted_def)
  moreover obtain n where "fs = [] \<or> fs \<noteq> [] \<and> length fs = Suc n" by (cases fs) auto
  ultimately show ?case using 10(3) commas_printed(1) [of v] commas_printed(3) [of fs]
    by (elim disjE conjE) (simp_all add: 10(2) charged_def quoted_def numeral_eq_Suc del: estimated_fields.simps(2))
qed (simp_all add: charged_def quoted_def sat_add_def)

section \<open>The property\<close>

text \<open>The values of the prompt, in the order the estimate looks them up.\<close>

definition prompt_values :: "(string \<times> json) list \<Rightarrow> json list" where
  "prompt_values fs = List.map_filter (map_of fs) [''messages'', ''system'', ''tools'', ''tool_choice'']"

lemma prompt_sum:
  "acc + (\<Sum>v \<leftarrow> List.map_filter (map_of fs) names. length (compact_text v) + full_arrays v) \<le> u64_max \<Longrightarrow>
    fold (\<lambda>field acc. case map_of fs field of Some v \<Rightarrow> sat_add u64_max acc (estimated_json_bytes v) | None \<Rightarrow> acc) names acc
      = acc + sum_list (map charged (List.map_filter (map_of fs) names))"
proof (induction names arbitrary: acc)
  case (Cons n names)
  show ?case
  proof (cases "map_of fs n")
    case None
    then show ?thesis using Cons by (simp add: map_filter_simps)
  next
    case (Some v)
    then have "estimated_json_bytes v = charged v" "acc + charged v \<le> u64_max"
      using Cons(2) estimated_charged(1) [of v] by (simp_all add: map_filter_simps charged_def)
    then show ?thesis using Some Cons(2) Cons(1) [of "acc + charged v"]
      by (simp add: map_filter_simps sat_add_fits charged_def)
  qed
qed (simp add: map_filter_simps)

lemma estimate_of_body:
  assumes "x_parse_json x bytes = Some (JObject fs)"
    and "(\<Sum>v \<leftarrow> prompt_values fs. length (compact_text v) + full_arrays v) \<le> u64_max"
  shows "approximate_input_tokens x bytes =
    (if \<not> nonempty_model fs then Inl (invalid ''model must be a non-empty string'')
     else if \<nexists>vs. map_of fs ''messages'' = Some (JArray vs) then Inl (invalid ''messages must be an array'')
     else Inr (((\<Sum>v \<leftarrow> prompt_values fs. length (compact_text v) + full_arrays v - field_commas v) + 3) div 4))"
proof -
  note sum = prompt_sum [of 0 fs "[''messages'', ''system'', ''tools'', ''tool_choice'']", folded prompt_values_def, simplified, OF assms(2)]
  show ?thesis using assms(1) sum
    by (auto simp: approximate_input_tokens_def charged_def [abs_def] Let_def is_array_def split: option.splits json.splits)
qed

text \<open>C35: The token estimate of a body is a quarter, rounded up, of the bytes of the compact text of its
  messages, system prompt, tools and tool choice (before escapes), plus one for every array that has
  items and minus one for every field of an object but the first; a body without a model or a list
  of messages is refused with the reason.\<close>

theorem token_estimate_exact:
  assumes "x_parse_json x bytes = Some (JObject fs)"
    and "(\<Sum>v \<leftarrow> prompt_values fs. length (compact_text v) + full_arrays v) \<le> u64_max"
  shows "approximate_input_tokens x bytes =
    (if \<not> nonempty_model fs then Inl (invalid ''model must be a non-empty string'')
     else if \<nexists>vs. map_of fs ''messages'' = Some (JArray vs) then Inl (invalid ''messages must be an array'')
     else Inr (((\<Sum>v \<leftarrow> prompt_values fs. length (compact_text v) + full_arrays v - field_commas v) + 3) div 4))"
  using estimate_of_body [OF assms] .

text \<open>A body with one tool of two parameters, which has to be used.\<close>

definition sample_tool :: json where
  "sample_tool = JObject [(''description'', JString ''finds''), (''input_schema'', JObject [(''properties'',
      JObject [(''limit'', JObject [(''type'', JString ''integer'')]), (''query'', JObject [(''type'', JString ''string'')])]),
      (''type'', JString ''object'')]), (''name'', JString ''search'')]"

definition sample_prompt :: "(string \<times> json) list" where
  "sample_prompt = [(''messages'', JArray [JObject [(''content'', JString ''Hello''), (''role'', JString ''user'')]]), (''model'', JString ''m''),
    (''tool_choice'', JObject [(''disable_parallel_tool_use'', JBool True), (''name'', JString ''search''), (''type'', JString ''tool'')]),
    (''tools'', JArray [sample_tool])]"

definition sample_reader :: externals where
  "sample_reader = \<lparr>x_parse_json = (\<lambda>t. Some (JObject sample_prompt)), x_render_json = (\<lambda>v. None), x_http_date = (\<lambda>t. None)\<rparr>"

lemma sample_prompt_sizes: "(\<Sum>v \<leftarrow> prompt_values sample_prompt. length (compact_text v) + full_arrays v) = 243"
  "(\<Sum>v \<leftarrow> prompt_values sample_prompt. length (compact_text v) + full_arrays v - field_commas v) = 236"
  "(\<Sum>v \<leftarrow> prompt_values sample_prompt. length (compact_text v)) = 241"
  "nonempty_model sample_prompt" "\<exists>vs. map_of sample_prompt ''messages'' = Some (JArray vs)"
  by (simp_all add: sample_prompt_def sample_tool_def prompt_values_def map_filter_simps quoted_def nonempty_model_def as_str_def)

theorem token_estimate_exact_witness:
  "approximate_input_tokens sample_reader [] = Inr 59"
  using token_estimate_exact [of sample_reader "[]" sample_prompt]
  by (simp add: sample_reader_def sample_prompt_sizes u64_max_def)

section \<open>The estimate can be too low\<close>

text \<open>The comment promises the serialized bytes over four, rounded up, and to prefer overestimating.\<close>

lemma estimate_too_low:
  assumes "x_parse_json x bytes = Some (JObject sample_prompt)"
  shows "approximate_input_tokens x bytes = Inr 59 \<and> 59 * 4 < (\<Sum>v \<leftarrow> prompt_values sample_prompt. length (compact_text v))"
  using estimate_of_body [OF assms] by (simp add: sample_prompt_sizes u64_max_def)

end
