(* ===== verification/FailoverFacts.thy ===== *)
theory FailoverFacts
  imports SendFacts
begin

text \<open>
  How long a failover waits: what \<open>followup\<close> of \<open>src/router.rs\<close> reports as the wait before the next
  attempt and \<open>next_attempt\<close> of \<open>src/upstream.rs\<close> sleeps.
\<close>

text \<open>C28: A failover sleeps for the routes it does not take.  When the re-plan after a failure finds a
  route that is healthy at that instant, the request still sleeps, before it dials it, for the shortest
  cooldown of the tier's other untried routes, if there is one.\<close>

theorem failover_sleeps_for_others:
  assumes "attempt < co_max_attempts co" and "e_follow e \<le> e_follow_target e"
    and "break_affinity tag (sh_table sh) (sh_metrics sh) = (u, m)"
    and "plan spec sess_none (insert (identity failed) skipped) (e_follow e) (e_follow_target e) u m = (Planned p, u', m')"
  shows "\<exists>ts lat lower. spec_tiers (t_profiles u) spec = Some (ts, lat, lower)
    \<and> route_healthy (e_follow e) u (p_target p) \<and> key_usable (e_follow_target e) u (p_target p)
    \<and> fst (next_attempt co spec tag failed skipped sr attempt cooldown e sh) = Proceed
        (case tier_wait_spec (insert (identity failed) skipped) (e_follow e) u (tier_models (ts ! p_stepped_down p)) of
           Some w \<Rightarrow> if 0 < w then Some w else None | None \<Rightarrow> None)"
proof -
  from plan_chosen [OF assms(4,2)] obtain ts lat lower where ts: "spec_tiers (t_profiles u) spec = Some (ts, lat, lower)"
    "p_next_alternative p = tier_wait_spec (insert (identity failed) skipped) (e_follow e) u (tier_models (ts ! p_stepped_down p))"
    by metis
  have "fst (next_attempt co spec tag failed skipped sr attempt cooldown e sh) = Proceed
      (case p_next_alternative p of Some w \<Rightarrow> if 0 < w then Some w else None | None \<Rightarrow> None)"
    using assms(1) by (simp add: next_attempt_def followup_def assms(3,4) split: option.split)
  with ts plan_target_healthy_core [OF assms(4,2)] show ?thesis by auto
qed

text \<open>When no route is dialable, but one will be soon, the request sleeps, also with no same-route retries.\<close>

lemma failover_sleeps_without_route:
  assumes "attempt < co_max_attempts co" and "break_affinity tag (sh_table sh) (sh_metrics sh) = (u, m)"
    and "plan spec sess_none (insert (identity failed) skipped) (e_follow e) (e_follow_target e) u m = (Waitable (Some w), u', m')"
    and "w \<le> retry_after_max (t_config u')" "0 < w"
  shows "fst (next_attempt (co\<lparr>co_same_route_retries := 0\<rparr>) spec tag failed skipped sr attempt cooldown e sh) = Proceed (Some w)"
  using assms by (simp add: next_attempt_def followup_def)

section \<open>A sample\<close>

text \<open>A group with two credentials, one of them tried and its route cooling for another \<open>w\<close>; the other group is untouched.\<close>

definition cooled3 :: "duration \<Rightarrow> route_table" where
  "cooled3 w = update_route (hash_name ''glm-5.2'', hash_name ''ga'')
     \<lparr>rs_cooling_until = Some (9 + w), rs_disabled_until = None\<rparr> table3"

definition failed3 :: route_target where
  "failed3 = \<lparr>rt_model = ''glm-5.2'', rt_quota_group = ''ga'', rt_key = new_selected_key 0 ''a1'' ''ga'' ''secret-a1'', rt_tier = 0\<rparr>"

lemma cooled3_sel:
  "t_keys (cooled3 w) = [entry 0 ''a1'' ''ga'', entry 1 ''a2'' ''ga'', entry 2 ''b'' ''gb'']"
  "t_models (cooled3 w) = Map.empty" "t_groups (cooled3 w) = Map.empty" "t_affinity (cooled3 w) = []" "t_profiles (cooled3 w) = builtin_profiles"
  "t_round_robin (cooled3 w) = 0"
  "t_routes (cooled3 w) = [(hash_name ''glm-5.2'', hash_name ''ga'') \<mapsto> \<lparr>rs_cooling_until = Some (9 + w), rs_disabled_until = None\<rparr>]"
  by (simp_all add: cooled3_def update_route_def table3_sel)

lemma cooled3_candidates:
  "tier_candidates (cooled3 w) [''glm-5.2'']
    = [(sole ''glm-5.2'' ''ga'' 0 0)\<lparr>c_b_index := Some 1\<rparr>, sole ''glm-5.2'' ''gb'' 0 2]"
  by (simp add: tier_candidates_def candidates_at_def by_group_def candidate_at_def Let_def sole_def cooled3_sel)

abbreviation "cand_a \<equiv> (sole ''glm-5.2'' ''ga'' 0 0)\<lparr>c_b_index := Some 1\<rparr>"
abbreviation "cand_b \<equiv> sole ''glm-5.2'' ''gb'' 0 2"

lemma cooled3_dial: "0 < w \<Longrightarrow> dial_spec cand_a 9 (cooled3 w) = (Blocked RouteCooling, Some (0, w))"
  by (simp add: gate_eval c_route_id_def cooled3_sel clear_def sample_hashes)

lemma cooled3_ready: "fst (dial_spec cand_b 9 (cooled3 w)) = Ready"
  by (rule untouched_ready [of _ _ 2 "[]"])
    (simp_all add: cooled3_sel c_route_id_def sample_hashes key_is_ready_def key_entry_at_def)

lemma cooled3_untried:
  "\<not> all_skipped {identity failed3} cand_a" "\<not> all_skipped {identity failed3} cand_b"
  by (simp_all add: all_skipped_def key_choices_def sole_def identity_def failed3_def new_selected_key_def sample_hashes)

lemma cooled3_wait: "0 < w \<Longrightarrow> tier_wait_spec {identity failed3} 9 (cooled3 w) [''glm-5.2''] = Some w"
  using cooled3_ready [of w]
  by (cases "dial_spec cand_b 9 (cooled3 w)")
    (simp add: tier_wait_spec_def cooled3_candidates wait_of_def cooled3_dial [simplified] cooled3_untried [simplified]
      shortest_def min_wait_def)

lemma cooled3_plan:
  "0 < w \<Longrightarrow> \<exists>p t' m'. plan (Literal ''glm-5.2'') sess_none {identity failed3} 9 9 (cooled3 w) m = (Planned p, t', m')
    \<and> rt_quota_group (p_target p) = ''gb'' \<and> p_stepped_down p = 0"
proof -
  assume w: "0 < w"
  have el: "eligible {identity failed3} 9 (cooled3 w) cand_b" "\<not> eligible {identity failed3} 9 (cooled3 w) cand_a"
    using cooled3_ready cooled3_dial [OF w] cooled3_untried by (simp_all add: eligible_def)
  have ch: "choose_spec {identity failed3} (pinned sess_none 9 (cooled3 w)) False False 9 (cooled3 w) 0 [\<lparr>tier_models = [''glm-5.2'']\<rparr>] None
      = Inr (0, cand_b)"
    using el by (simp add: Let_def tier_ready_def cooled3_candidates chosen_spec_def order_def)
  have tg: "target_spec cand_b 0 9 (cooled3 w) = Some \<lparr>rt_model = ''glm-5.2'', rt_quota_group = ''gb'',
      rt_key = new_selected_key 2 ''b'' ''gb'' ''secret-b'', rt_tier = 0\<rparr>"
    by (simp add: target_spec_def key_is_ready_def key_entry_at_def cooled3_sel)
  from plan_exists [OF _ _ ch tg, of "Literal ''glm-5.2''" m] show ?thesis by fastforce
qed

text \<open>There is no bound: the wait of the routes not taken is slept whatever it is (a quota group cools
  for up to a day), although the profile's limit for waits inside a request is two minutes.\<close>

lemma cooled3_sleep:
  assumes "0 < w"
  shows "break_affinity ''s'' (sh_table (sample_shared\<lparr>sh_table := cooled3 w\<rparr>)) (sh_metrics (sample_shared\<lparr>sh_table := cooled3 w\<rparr>))
      = (cooled3 w, new_metrics)"
    and "\<exists>p t' m'. plan (Literal ''glm-5.2'') sess_none (insert (identity failed3) {}) (e_follow (sample_env answer_ok))
      (e_follow_target (sample_env answer_ok)) (cooled3 w) new_metrics = (Planned p, t', m') \<and> p_stepped_down p = 0"
    and "tier_wait_spec (insert (identity failed3) {}) (e_follow (sample_env answer_ok)) (cooled3 w) [''glm-5.2''] = Some w"
  using cooled3_plan [OF assms, of new_metrics] cooled3_wait [OF assms]
  by (auto simp: break_affinity_def cooled3_sel sample_env_def)

lemma failover_sleep_unbounded:
  assumes "0 < w"
  shows "fst (next_attempt sample_core (Literal ''glm-5.2'') ''s'' failed3 {} 0 1 d (sample_env answer_ok)
    (sample_shared\<lparr>sh_table := cooled3 w\<rparr>)) = Proceed (Some w)"
proof -
  from cooled3_sleep(2) [OF assms] obtain p t' m' where p: "plan (Literal ''glm-5.2'') sess_none (insert (identity failed3) {})
      (e_follow (sample_env answer_ok)) (e_follow_target (sample_env answer_ok)) (cooled3 w) new_metrics = (Planned p, t', m')"
    "p_stepped_down p = 0" by blast
  from plan_chosen [OF p(1)] p(2) cooled3_sleep(3) [OF assms] have "p_next_alternative p = Some w"
    by (force simp: sample_env_def)
  with assms cooled3_sleep(1) [OF assms] p(1) show ?thesis by (simp add: next_attempt_def followup_def)
qed

theorem failover_sleeps_for_others_witness:
  "fst (next_attempt sample_core (Literal ''glm-5.2'') ''s'' failed3 {} 0 1 0 (sample_env answer_ok)
    (sample_shared\<lparr>sh_table := cooled3 3600000000000\<rparr>)) = Proceed (Some 3600000000000)"
proof -
  have w: "(0 :: duration) < 3600000000000" by simp
  from cooled3_sleep(2) [OF w] obtain p t' m' where p: "plan (Literal ''glm-5.2'') sess_none (insert (identity failed3) {})
      (e_follow (sample_env answer_ok)) (e_follow_target (sample_env answer_ok)) (cooled3 3600000000000) new_metrics = (Planned p, t', m')"
    "p_stepped_down p = 0" by blast
  have "1 < co_max_attempts sample_core" "e_follow (sample_env answer_ok) \<le> e_follow_target (sample_env answer_ok)"
    by (simp_all add: sample_env_def)
  from failover_sleeps_for_others [OF this cooled3_sleep(1) [OF w] p(1), of 0 0] p(2) cooled3_sleep(3) [OF w]
  show ?thesis by auto
qed

end
