(* ===== verification/AnswerFacts.thy ===== *)
theory AnswerFacts
  imports ServerFacts CircuitFacts
begin

text \<open>
  What a client reads in an answer: the identifier that ties the answer to the upstream's logs, and the
  status, error type and wait of an error.
\<close>

section \<open>Errors that say when to come back\<close>

text \<open>Exactly the rate limits and the exhausted quotas are 429, and exactly these carry a wait.\<close>

definition says_when :: "gateway_error \<Rightarrow> bool" where
  "says_when err = ((gw_status err = 429) = (gw_retry_after err \<noteq> None)
     \<and> (gw_status err = 429) = (gw_class err \<in> {RateLimited, QuotaExhausted}))"

named_theorems answer_facts \<open>errors whose status, class and wait agree\<close>

lemma verdict_429:
  "verdict status q code = (cls, ex, why) \<Longrightarrow> status = 429 \<Longrightarrow> cls = RateLimited \<or> cls = QuotaExhausted"
  "verdict status q code = (RateLimited, ex, why) \<Longrightarrow> status = 429"
  by (auto simp: verdict_def split: if_splits)

text \<open>A classified answer: its class is a rate limit or an exhausted quota whenever its status is 429.\<close>

definition classified_ok :: "answer_context \<Rightarrow> bool" where
  "classified_ok ac = ((ac_status ac = 429 \<longrightarrow> ac_class ac \<in> {RateLimited, QuotaExhausted}))"

lemma read_error_ok: "classified_ok (read_error co e status hs events)"
  by (auto simp: classified_ok_def read_error_def classify_upstream_error_def Let_def dest: verdict_429(1) split: prod.splits)

lemma plain_error_ok: "status \<noteq> 429 \<Longrightarrow> cls \<noteq> RateLimited \<Longrightarrow> cls \<noteq> QuotaExhausted \<Longrightarrow> says_when (plain_error status msg cls)"
  by (simp add: says_when_def plain_error_def)

lemma transient_failure_ok [answer_facts]:
  "transient_failure status msg cls target tag a e sh = (f, sh') \<Longrightarrow> status \<noteq> 429 \<Longrightarrow> cls \<noteq> RateLimited
    \<Longrightarrow> cls \<noteq> QuotaExhausted \<Longrightarrow> says_when (fl_error f)"
  by (auto simp: transient_failure_def plain_error_ok split: prod.splits)

lemma local_failures_ok [answer_facts]:
  "on_send_error err target tag a e sh = (f, sh') \<Longrightarrow> says_when (fl_error f)"
  "on_stream_failure oerr target tag a e sh = (f, sh') \<Longrightarrow> says_when (fl_error f)"
  "on_first_byte_timeout target tag a e sh = (f, sh') \<Longrightarrow> says_when (fl_error f)"
  "on_invalid_json target tag a e sh = (f, sh') \<Longrightarrow> says_when (fl_error f)"
  unfolding on_send_error_def on_stream_failure_def on_first_byte_timeout_def on_invalid_json_def
  by (drule transient_failure_ok; simp split: option.split)+

lemma on_error_answer_ok [answer_facts]:
  assumes "on_error_answer co ac target tag a e sh = (f, sh')" "classified_ok ac"
  shows "says_when (fl_error f)"
  using assms unfolding on_error_answer_def
  by (cases "ac_class ac")
    (auto simp: says_when_def classified_ok_def answer_error_def on_rate_limited_def on_quota_exhausted_def
      on_credential_rejected_def on_not_found_def on_server_error_def on_invalid_request_def Let_def split: prod.splits if_splits)

lemma handle_exchange_ok:
  assumes "handle_exchange co rq target a e g x sh = (Inr f, g', sh')"
  shows "says_when (fl_error f)"
proof (cases x)
  case (SendFailed err)
  with assms show ?thesis by (auto simp: handle_exchange_def Let_def dest: answer_facts split: prod.splits)
next
  case (Answered status hs events)
  with assms show ?thesis
    by (auto simp: handle_exchange_def Let_def read_error_ok dest: answer_facts
        split: prod.splits if_splits first_byte.splits)
qed

text \<open>The errors of an attempt, whether they end the request or are carried to the next attempt.\<close>

definition outcome_ok :: "attempt_outcome \<Rightarrow> bool" where
  "outcome_ok out = (case out of
      Done r \<Rightarrow> (\<forall>err. r = SendErr err \<longrightarrow> says_when err)
    | Again skipped same_route err \<Rightarrow> says_when err)"

lemma rewrite_model_ok: "rewrite_model x canonical m = Inl err \<Longrightarrow> says_when err"
  by (auto simp: rewrite_model_def plain_error_ok split: option.splits json.splits)

lemma dial_target_ok:
  assumes "dial_target co rq e a sk sr target sh = (out, d, sh')"
  shows "outcome_ok out"
proof (cases "rewrite_model (co_ext co) (rq_canonical rq) (rt_model target)")
  case (Inl err)
  with assms rewrite_model_ok [OF Inl] show ?thesis by (auto simp: dial_target_def Let_def outcome_ok_def)
next
  case (Inr body)
  define sh1 where "sh1 = sh\<lparr>sh_metrics := (sh_metrics sh)\<lparr>route_attempts_total := route_attempts_total (sh_metrics sh) + 1,
            upstream_requests_total := upstream_requests_total (sh_metrics sh) + 1\<rparr>\<rparr>"
  obtain g t where b: "begin_attempt target (sh_table sh1) = (g, t)" by fastforce
  let ?wire = "send_once co target body (rq_stream rq) (rq_id rq)" and ?sh2 = "e_during e (sh1\<lparr>sh_table := t\<rparr>)"
  obtain r g' sh3 where h: "handle_exchange co rq target a e g (e_exchange e target ?wire) ?sh2 = (r, g', sh3)"
    by (metis prod_cases3)
  note step = assms [unfolded dial_target_def Let_def sh1_def [symmetric] Inr sum.case b prod.case h]
  show ?thesis
  proof (cases r)
    case (Inl res)
    with handle_exchange_reports h have "\<And>err. res \<noteq> SendErr err"
      by (auto simp: handle_exchange_def Let_def split: exchange.splits if_splits first_byte.splits prod.splits)
    with step Inl show ?thesis by (auto simp: outcome_ok_def)
  next
    case (Inr f)
    from handle_exchange_ok [OF h [unfolded Inr]] step Inr show ?thesis
      by (auto simp: outcome_ok_def split: prod.splits next_step.splits)
  qed
qed

lemma attempt_once_ok:
  assumes "attempt_once co rq e a sk sr sh = (out, d, sh')"
  shows "outcome_ok out"
  using assms dial_target_ok unfolding attempt_once_def Let_def
  by (auto simp: outcome_ok_def route_unavailable_def refused_error_def says_when_def plain_error_def
      split: plan_result.splits prod.splits admission.splits option.splits)

lemma send_loop_ok:
  "send_loop co rq envs a sk sr prior sh = (SendErr err, ds, sh') \<Longrightarrow> prior = None \<longrightarrow> a < co_max_attempts co
    \<Longrightarrow> (\<And>p. prior = Some p \<Longrightarrow> says_when p) \<Longrightarrow> says_when err"
proof (induction "co_max_attempts co - a" arbitrary: a sk sr prior sh ds)
  case 0
  then have spent: "co_max_attempts co \<le> a" by simp
  with 0(3) obtain p where p: "prior = Some p" by (cases prior) auto
  with 0(2) spent have "err = p" by (subst (asm) send_loop.simps) (auto simp: exhausted_def Let_def split: prod.splits)
  with 0(4) [OF p] show ?case by simp
next
  case (Suc k)
  then have "a < co_max_attempts co" by simp
  with Suc.prems(1) show ?case
  proof (cases rule: send_loop_cases)
    case (stop d)
    from attempt_once_ok [OF stop(1)] show ?thesis by (simp add: outcome_ok_def)
  next
    case (again d s' sr' err' sh1 ds')
    have "says_when err'" using attempt_once_ok [OF again(1)] by (simp add: outcome_ok_def)
    with Suc.hyps(1) [OF _ again(2)] Suc.hyps(2) show ?thesis by simp
  qed
qed

text \<open>Every header of a response is set by name.\<close>

definition header :: "string \<Rightarrow> response \<Rightarrow> string option" where
  "header name r = map_of (rs_headers r) name"

lemma insert_request_id_facts [simp]:
  "header n (insert_request_id co rid r) = (if n = ''x-request-id'' \<and> co_header_ok co rid then Some rid else header n r)"
  "rs_body (insert_request_id co rid r) = rs_body r"
  by (simp_all add: header_def insert_request_id_def)

lemma error_response_facts:
  "header ''retry-after'' (anthropic_error co st ty msg rid) = None"
  "header ''retry-after'' (gateway_error_response co err rid) = map_option (\<lambda>d. decimal (retry_after_seconds d)) (gw_retry_after err)"
  "header ''retry-after'' (queue_rejection co failure rid) = Some ''2''"
  "rs_status (gateway_error_response co err rid) = gw_status err" "rs_status (queue_rejection co failure rid) = 429"
  by (simp_all add: header_def anthropic_error_def json_response_def insert_request_id_def gateway_error_response_def
      queue_rejection_def Let_def split: option.split)

text \<open>The type an error body names.\<close>

definition body_error_type :: "response \<Rightarrow> json option" where
  "body_error_type r = (case rs_body r of JsonBody b \<Rightarrow> and_then (jget ''error'' b) (jget ''type'') | _ \<Rightarrow> None)"

lemma error_type_facts:
  "body_error_type (anthropic_error co st ty msg rid) = Some (JString ty)"
  "body_error_type (gateway_error_response co err rid) = Some (JString (error_type_for_status (gw_status err)))"
  "body_error_type (queue_rejection co failure rid) = Some (JString ''rate_limit_error'')"
  by (simp_all add: body_error_type_def anthropic_error_def json_response_def insert_request_id_def error_envelope_def jget_def
      gateway_error_response_def queue_rejection_def Let_def split: option.split)

lemma prepare_request_error:
  assumes "prepare_request co mc t hs raw = Inl r"
  shows "rs_status r \<noteq> 429 \<and> header ''retry-after'' r = None"
  using assms by (auto simp: prepare_request_def Let_def error_response_facts
      split: option.splits prod.splits sum.splits)

text \<open>C15: An answer of \<open>/v1/messages\<close> is a 429 exactly when it carries a \<open>retry-after\<close> header, whatever the
  upstream did (a status, a body, a broken connection), whether the wait comes from the queue, the
  breaker, a cooling route, or an exhausted group; and its body then names a \<open>rate_limit_error\<close>.\<close>

theorem every_429_says_when:
  assumes "anthropic_messages co c e hs raw sh = (Some r, ds, sh')" and "0 < co_max_attempts co"
  shows "(rs_status r = 429) = (header ''retry-after'' r \<noteq> None)
    \<and> (rs_status r = 429 \<longrightarrow> body_error_type r = Some (JString ''rate_limit_error''))"
proof (cases "prepare_request co (models c) (sh_table sh) hs raw")
  case (Inl x)
  with assms(1) prepare_request_error [OF Inl] show ?thesis by (simp add: anthropic_messages_def)
next
  case (Inr rq)
  show ?thesis
  proof (cases "sv_admission e")
    case (NotAdmitted failure)
    with assms(1) Inr show ?thesis by (auto simp: anthropic_messages_def error_response_facts error_type_facts)
  next
    case (Admitted wait)
    obtain result ds1 sh1 where s: "send_messages co rq (sv_envs e) (accept_request e wait sh) = (result, ds1, sh1)"
      by (metis prod_cases3)
    from assms(1) have a: "\<exists>sh2. answer_request co c e (rq_id rq) result sh1 = (Some r, sh2)"
      by (auto simp: anthropic_messages_def Inr Admitted s split: prod.splits)
    show ?thesis
    proof (cases result)
      case (SendErr err)
      with s assms(2) have "says_when err" unfolding send_messages_def by (auto dest: send_loop_ok)
      with a SendErr show ?thesis
        by (auto simp: answer_request_def says_when_def error_response_facts error_type_facts error_type_for_status_def)
    qed (use a in \<open>auto simp: answer_request_def Let_def\<close>, simp_all add: header_def)
  qed
qed

lemma message_core_sel:
  "0 < co_max_attempts message_core" "co_header_ok message_core s"
  "rewrite_model (co_ext message_core) c m = Inr ''{}''"
  by (simp_all add: message_core_def message_ext_def rewrite_model_def new_core_def two_groups_def config_with_def
      route_config_of_def default_routing_def Let_def)

theorem every_429_says_when_witness:
  "\<exists>r ds sh'. anthropic_messages message_core two_groups (sample_serve\<lparr>sv_admission := NotAdmitted FailQueueFull\<rparr>)
      (\<lambda>h. None) (Some ''{}'') sample_shared = (Some r, ds, sh')
    \<and> rs_status r = 429 \<and> header ''retry-after'' r \<noteq> None"
proof -
  obtain rq where p: "prepare_request message_core (models two_groups) (sh_table sample_shared) (\<lambda>h. None) (Some ''{}'') = Inr rq"
    using sample_request_prepared by auto
  let ?e = "sample_serve\<lparr>sv_admission := NotAdmitted FailQueueFull\<rparr>"
  obtain sh' where a: "anthropic_messages message_core two_groups ?e (\<lambda>h. None) (Some ''{}'') sample_shared
      = (Some (queue_rejection message_core FailQueueFull (rq_id rq)), [], sh')"
    unfolding anthropic_messages_def p by simp
  from every_429_says_when [OF a message_core_sel(1)] a show ?thesis by (auto simp: error_response_facts)
qed

section \<open>The identifier of a request\<close>

text \<open>The identifier an error body names.\<close>

definition body_request_id :: "response \<Rightarrow> json option" where
  "body_request_id r = (case rs_body r of JsonBody b \<Rightarrow> jget ''request_id'' b | _ \<Rightarrow> None)"

lemma prepared_id: "prepare_request co mc t hs raw = Inr rq \<Longrightarrow> rq_id rq = request_id hs"
  by (auto simp: prepare_request_def Let_def split: option.splits prod.splits sum.splits)

definition names :: "string \<Rightarrow> response \<Rightarrow> bool" where
  "names rid r = (body_request_id r = None \<or> body_request_id r = Some (JString rid))"

lemma names_facts:
  "names rid (insert_request_id co rid' r) = names rid r"
  "names rid (anthropic_error co st ty msg rid)" "names rid (gateway_error_response co err rid)"
  "names rid (queue_rejection co failure rid)" "names rid (unauthorized co hs) \<longleftrightarrow> rid = request_id hs" "names rid healthz"
  by (auto simp: names_def body_request_id_def anthropic_error_def json_response_def error_envelope_def jget_def
      gateway_error_response_def queue_rejection_def unauthorized_def healthz_def Let_def split: option.split body.split)

lemma names_pages:
  "names rid (anthropic_count_tokens co hs raw)" if "rid = request_id hs" for rid hs
  using that by (auto simp: anthropic_count_tokens_def Let_def names_facts split: option.split sum.split)
    (simp add: names_def body_request_id_def json_response_def jget_def)

lemma names_models: "names rid (models_list co c hs)"
  by (simp add: names_def body_request_id_def models_list_def json_response_def models_response_def jget_def Let_def)

lemma names_observations:
  "readyz_impl c clocks adm sh = (r, sh') \<Longrightarrow> names rid r" "metrics_impl now waiting sh = (r, sh') \<Longrightarrow> names rid r"
  by (auto simp: names_def body_request_id_def readyz_impl_def metrics_impl_def jget_def Let_def split: prod.splits)

lemma names_messages:
  assumes "anthropic_messages co c e hs raw sh = (Some r, ds, sh')"
  shows "names (request_id hs) r"
proof (cases "prepare_request co (models c) (sh_table sh) hs raw")
  case (Inl x)
  then have "names (request_id hs) x"
    by (auto simp: prepare_request_def Let_def names_facts split: option.splits prod.splits sum.splits)
  with assms Inl show ?thesis by (simp add: anthropic_messages_def)
next
  case (Inr rq)
  from assms show ?thesis
    by (auto simp: anthropic_messages_def Inr prepared_id [OF Inr] answer_request_def names_facts Let_def
        split: admission_outcome.splits prod.splits send_result.splits)
      (simp_all add: names_def body_request_id_def)
qed

lemma wire_request_id:
  assumes "wire_ok co rq d" "co_header_ok co (rq_id rq)"
  shows "map_of (wr_headers (dl_request d)) ''x-request-id'' = Some (rq_id rq)"
  using assms by (auto simp: wire_ok_def send_once_def split: sum.splits)

lemma sent_request_id:
  assumes "send_messages co rq envs sh = (result, ds, sh')" "\<And>n. env_ok (envs n)" "0 < co_max_attempts co"
    and "co_header_ok co (rq_id rq)" "d \<in> set ds"
  shows "map_of (wr_headers (dl_request d)) ''x-request-id'' = Some (rq_id rq)"
proof (rule wire_request_id [OF _ assms(4)])
  from send_loop_facts [where envs = envs, OF assms(2)] assms(1,3) have ok: "dials_ok co rq envs 0 {} (sh_table sh) ds"
    by (simp add: send_messages_def)
  from assms(5) obtain i where "i < length ds" "ds ! i = d" by (auto simp: in_set_conv_nth)
  with ok show "wire_ok co rq d" by (auto simp: dials_ok_def)
qed

text \<open>C32: One identifier names a request everywhere.  The client's own identifier, when it is short and
  visible, or else the fresh one, is the \<open>x-request-id\<close> of the answer of every endpoint, of every dial
  made for it, and the only one its body names.\<close>

theorem request_id_everywhere:
  assumes "handle_request co ps c fresh e pg ep headers raw sh = (r, ds, sh')"
    and "co_header_ok co (incoming_request_id fresh headers)" "\<And>n. env_ok (sv_envs e n)" "0 < co_max_attempts co"
  shows "(\<forall>x. r = Some x \<longrightarrow> header ''x-request-id'' x = Some (incoming_request_id fresh headers))
    \<and> (\<forall>x. r = Some x \<longrightarrow> body_request_id x = None \<or> body_request_id x = Some (JString (incoming_request_id fresh headers)))
    \<and> (\<forall>d \<in> set ds. map_of (wr_headers (dl_request d)) ''x-request-id'' = Some (incoming_request_id fresh headers))"
proof -
  define rid where "rid = incoming_request_id fresh headers"
  define hs where "hs = headers(''x-request-id'' := Some rid)"
  have ok: "co_header_ok co rid" using assms(2) by (simp add: rid_def)
  have id: "request_id hs = rid" by (simp add: hs_def request_id_def)
  note step = assms(1) [unfolded handle_request_def Let_def rid_def [symmetric] if_P [OF ok] hs_def [symmetric]]
  have messages: "map_of (wr_headers (dl_request d)) ''x-request-id'' = Some rid"
    if "anthropic_messages co c e hs raw sh = (r1, ds1, sh1)" "d \<in> set ds1" for r1 ds1 sh1 d
  proof -
    from that obtain rq w result sh2 where rq: "prepare_request co (models c) (sh_table sh) hs raw = Inr rq"
      and s: "send_messages co rq (sv_envs e) (accept_request e w sh) = (result, ds1, sh2)"
      by (auto simp: anthropic_messages_def split: sum.splits admission_outcome.splits prod.splits)
    have "rq_id rq = rid" using prepared_id [OF rq] id by simp
    with sent_request_id [OF s assms(3,4) _ that(2)] ok show ?thesis by simp
  qed
  have body: "names rid x" if "r = Some x" for x
    using step that id
    by (auto simp: names_facts names_models names_pages split: if_splits endpoint.splits prod.splits
        dest: names_messages names_observations)
  show ?thesis using step messages ok body unfolding rid_def [symmetric] names_def
    by (auto split: if_splits endpoint.splits prod.splits)
qed

theorem request_id_everywhere_witness:
  "\<exists>r d ds sh'. handle_request message_core sample_parsers two_groups ''req_1'' sample_serve
      \<lparr>pg_clocks = (1, 2, 3, 4), pg_limit = 1, pg_waiting = 0\<rparr> Messages [''x-api-key'' \<mapsto> ''client-secret''] (Some ''{}'')
      sample_shared = (r, d # ds, sh')
    \<and> map_of (wr_headers (dl_request d)) ''x-request-id'' = Some ''req_1''"
proof -
  let ?hs = "[''x-api-key'' \<mapsto> ''client-secret'', ''x-request-id'' \<mapsto> ''req_1'']"
  obtain rq where rq: "prepare_request message_core (models two_groups) table2 ?hs (Some ''{}'') = Inr rq"
    "rq_spec rq = Literal ''glm-5.2''" using sample_request_prepared by blast
  let ?sh = "accept_request sample_serve 0 sample_shared"
  have sh: "sh_table ?sh = table2" "admit 6 (sh_circuit ?sh) = (Allowed, sh_circuit ?sh)"
    by (simp_all add: accept_request_def breaker_state_def admit_def Let_def)
  obtain out d sh1 where a: "attempt_once message_core rq (sample_env answer_ok) 0 {} 0 ?sh = (out, Some d, sh1)"
    using literal_dials [OF sh rq(2) message_core_sel(3)] by blast
  obtain result ds0 sh2 where s0: "send_messages message_core rq (\<lambda>n. sample_env answer_ok) ?sh = (result, ds0, sh2)"
    by (metis prod_cases3)
  have "\<exists>ds. ds0 = d # ds"
    using s0 a message_core_sel(1)
    by (auto simp: send_messages_def send_loop.simps [of message_core rq _ 0] split: attempt_outcome.splits prod.splits)
  then obtain ds where s: "send_messages message_core rq (\<lambda>n. sample_env answer_ok) ?sh = (result, d # ds, sh2)"
    using s0 by blast
  obtain r sh3 where m: "anthropic_messages message_core two_groups sample_serve ?hs (Some ''{}'') sample_shared = (r, d # ds, sh3)"
    using rq(1) s by (cases "answer_request message_core two_groups sample_serve (rq_id rq) result sh2")
      (simp add: anthropic_messages_def sample_serve_def)
  have gate: "gateway_key_is_valid ?hs (server_api_key (server two_groups))"
    by (simp add: gateway_key_is_valid_def presented_gateway_key_def constant_time_eq_core two_groups_def config_with_def)
  have "\<exists>r sh'. handle_request message_core sample_parsers two_groups ''req_1'' sample_serve
      \<lparr>pg_clocks = (1, 2, 3, 4), pg_limit = 1, pg_waiting = 0\<rparr> Messages [''x-api-key'' \<mapsto> ''client-secret''] (Some ''{}'')
      sample_shared = (r, d # ds, sh')"
    using m gate by (simp add: handle_request_def incoming_request_id_def message_core_sel Let_def)
  then obtain r sh' where h: "handle_request message_core sample_parsers two_groups ''req_1'' sample_serve
      \<lparr>pg_clocks = (1, 2, 3, 4), pg_limit = 1, pg_waiting = 0\<rparr> Messages [''x-api-key'' \<mapsto> ''client-secret''] (Some ''{}'')
      sample_shared = (r, d # ds, sh')" by blast
  have "env_ok (sv_envs sample_serve n)" for n by (simp add: sample_serve_def sample_env_ok)
  from request_id_everywhere [OF h message_core_sel(2) this message_core_sel(1)] h show ?thesis
    by (auto simp: incoming_request_id_def)
qed

end
