(* ===== verification/RedactFacts.thy ===== *)
theory RedactFacts
  imports SendFacts "HOL-Library.Sublist"
begin

text \<open>
  Redaction: no text that went through the sanitizer contains a configured secret, and so neither
  does the error message a client is shown.
\<close>

section \<open>Occurrences\<close>

lemma contains_sublist: "contains_str p s = sublist p s"
  by (simp add: contains_str_iff sublist_def)

text \<open>A non-empty text that shares no character with a separator is not found across it.\<close>

lemma sublist_apart_left:
  assumes "sublist k (e @ t)" "k \<noteq> []" "set k \<inter> set e = {}"
  shows "sublist k t"
proof -
  have "\<not> sublist k e" using assms(2,3) set_mono_sublist [of k e] by (cases k) auto
  moreover have "sublist k t" if "k = x @ y" "suffix x e" "prefix y t" for x y
    using that assms(3) by (cases x rule: rev_cases) (auto simp: suffix_def)
  ultimately show ?thesis using assms(1) by (auto simp: sublist_append)
qed

lemma sublist_apart_right:
  assumes "sublist k (t @ e)" "k \<noteq> []" "set k \<inter> set e = {}"
  shows "sublist k t"
proof -
  have "\<not> sublist k e" using assms(2,3) set_mono_sublist [of k e] by (cases k) auto
  moreover have "sublist k t" if "k = x @ y" "suffix x t" "prefix y e" for x y
    using that assms(3) by (cases y) (auto simp: prefix_def)
  ultimately show ?thesis using assms(1) by (auto simp: sublist_append)
qed

section \<open>Secrets that redaction can remove\<close>

text \<open>
  Visible ASCII without brackets, and not a part of the word REDACTED itself: then neither the
  replacement text nor the joining of words can make one appear.
\<close>

definition plain_secret :: "string \<Rightarrow> bool" where
  "plain_secret k = (k \<noteq> [] \<and> list_all (\<lambda>c. 32 < byte c \<and> byte c < 127 \<and> c \<noteq> CHR ''['' \<and> c \<noteq> CHR '']'') k
     \<and> \<not> contains_str k ''REDACTED'')"

lemma plain_secret_facts:
  assumes "plain_secret k"
  shows "k \<noteq> []" "CHR ''['' \<notin> set k" "CHR '']'' \<notin> set k" "CHR '' '' \<notin> set k" "set k \<inter> set ellipsis = {}"
    "\<not> sublist k ''REDACTED''"
proof -
  have "k \<noteq> []" and c: "\<forall>c \<in> set k. 32 < byte c \<and> byte c < 127 \<and> c \<noteq> CHR ''['' \<and> c \<noteq> CHR '']''"
    and "\<not> sublist k ''REDACTED''"
    using assms by (simp_all add: plain_secret_def contains_sublist list_all_iff)
  then show "k \<noteq> []" "\<not> sublist k ''REDACTED''" "CHR ''['' \<notin> set k" "CHR '']'' \<notin> set k" by blast+
  have "byte (CHR '' '') = 32" "\<forall>c \<in> set ellipsis. 127 < byte c" by (simp_all add: byte_def ellipsis_def)
  with c show "CHR '' '' \<notin> set k" "set k \<inter> set ellipsis = {}" by fastforce+
qed

lemma redacted_split: "redacted = ''['' @ ''REDACTED'' @ '']''" by (simp add: redacted_def)

lemma redacted_first: "redacted = CHR ''['' # ''REDACTED]''" by (simp add: redacted_def)

lemma sublist_redacted:
  assumes "plain_secret k" "sublist k (redacted @ t)"
  shows "sublist k t"
proof -
  note f = plain_secret_facts [OF assms(1)]
  from assms(2) have "sublist k (''['' @ (''REDACTED'' @ ('']'' @ t)))" by (simp add: redacted_split)
  from sublist_apart_left [OF this f(1)] f(2) have "sublist k (''REDACTED'' @ ('']'' @ t))" by simp
  then consider "sublist k ''REDACTED''" | "sublist k ('']'' @ t)"
    | x y where "k = x @ y" "suffix x ''REDACTED''" "prefix y ('']'' @ t)"
    unfolding sublist_append [of k "''REDACTED''"] by blast
  then show ?thesis
  proof cases
    case 1
    then show ?thesis using f(6) by simp
  next
    case 2
    then show ?thesis using sublist_apart_left [of k "'']''" t] f(1,3) by simp
  next
    case (3 x y)
    then have "y = []" using f(3) by (cases y) auto
    with 3 f(6) show ?thesis by (auto simp: suffix_imp_sublist)
  qed
qed

lemma not_in_redacted: "plain_secret k \<Longrightarrow> \<not> sublist k redacted"
  using sublist_redacted [of k "[]"] plain_secret_facts(1) by auto

section \<open>Replacing secrets\<close>

lemma replace_match: "p \<noteq> [] \<and> starts_with p (c # s) \<Longrightarrow>
    replace_str p q (c # s) = q @ replace_str p q (drop (length p) (c # s))"
  by simp

lemma replace_skip: "\<not> (p \<noteq> [] \<and> starts_with p (c # s)) \<Longrightarrow> replace_str p q (c # s) = c # replace_str p q s"
  by (simp only: replace_str.simps if_False)

declare replace_str.simps(2) [simp del]

lemma starts_with_prefix: "starts_with p s = prefix p s"
  by (simp add: starts_with_iff prefix_def)

lemma replace_prefix:
  "prefix q (replace_str p redacted s) \<Longrightarrow> CHR ''['' \<notin> set q \<Longrightarrow> prefix q s"
proof (induction p "redacted" s arbitrary: q rule: replace_str.induct)
  case (2 p c s)
  show ?case
  proof (cases "p \<noteq> [] \<and> starts_with p (c # s)")
    case True
    then have "prefix q (CHR ''['' # ''REDACTED]'' @ replace_str p redacted (drop (length p) (c # s)))"
      using 2(3) replace_match [OF True, of redacted] by (simp add: redacted_first)
    then have "q = []" using 2(4) by (cases q) auto
    then show ?thesis by simp
  next
    case False
    then have "prefix q (c # replace_str p redacted s)" using 2(3) replace_skip [OF False, of redacted] by simp
    then show ?thesis using 2(2) [OF False] 2(4) by (cases q) auto
  qed
qed simp

text \<open>A secret at the front of an output that copied its first character stood in the input.\<close>

lemma copied_front:
  assumes "plain_secret k" "prefix k (c # replace_str p redacted s)"
  shows "prefix k (c # s)"
proof -
  note f = plain_secret_facts [OF assms(1)]
  from assms(2) obtain k' where k: "k = c # k'" "prefix k' (replace_str p redacted s)" using f(1) by (cases k) auto
  then have "prefix k' s" using replace_prefix f(2) by auto
  with k(1) show ?thesis by simp
qed

lemma sublist_drop_trans: "sublist k (drop n s) \<Longrightarrow> sublist k s"
  by (metis sublist_drop sublist_order.order.trans)

lemma replace_keeps_absent:
  assumes "plain_secret k"
  shows "\<not> sublist k s \<Longrightarrow> \<not> sublist k (replace_str p redacted s)"
proof (induction p "redacted" s rule: replace_str.induct)
  case (2 p c s)
  show ?case
  proof (cases "p \<noteq> [] \<and> starts_with p (c # s)")
    case True
    have "\<not> sublist k (drop (length p) (c # s))" using 2(3) sublist_drop_trans by blast
    from 2(1) [OF True this] show ?thesis unfolding replace_match [OF True] using sublist_redacted [OF assms] by blast
  next
    case False
    then show ?thesis using 2(2) [OF False] 2(3) copied_front [OF assms]
      unfolding replace_skip [OF False] by (auto simp: sublist_Cons_right)
  qed
qed simp

lemma replace_removes:
  assumes "plain_secret k"
  shows "\<not> sublist k (replace_str k redacted s)"
proof (induction s rule: length_induct)
  case (1 s)
  note f = plain_secret_facts [OF assms]
  show ?case
  proof (cases s)
    case Nil
    then show ?thesis using f(1) by simp
  next
    case (Cons c r)
    show ?thesis
    proof (cases "starts_with k (c # r)")
      case True
      then have m: "k \<noteq> [] \<and> starts_with k (c # r)" using f(1) by simp
      have "length (drop (length k) (c # r)) < length s" using f(1) Cons by (cases k) auto
      then have "\<not> sublist k (replace_str k redacted (drop (length k) (c # r)))" using 1 by blast
      then show ?thesis unfolding Cons replace_match [OF m] using sublist_redacted [OF assms] by blast
    next
      case False
      then have m: "\<not> (k \<noteq> [] \<and> starts_with k (c # r))" by simp
      have "\<not> sublist k (replace_str k redacted r)" using 1 Cons by simp
      then show ?thesis unfolding Cons replace_skip [OF m]
        using copied_front [OF assms, of c k r] False by (auto simp: sublist_Cons_right starts_with_prefix)
    qed
  qed
qed

lemma replace_secrets_Cons: "replace_secrets (p # ps) s = replace_secrets ps (if p = [] then s else replace_str p redacted s)"
  by (simp add: replace_secrets_def)

lemma replace_secrets_keeps: "plain_secret k \<Longrightarrow> \<not> sublist k s \<Longrightarrow> \<not> sublist k (replace_secrets ps s)"
  by (induction ps arbitrary: s)
    (simp_all add: replace_secrets_def [of "[]"] replace_secrets_Cons replace_keeps_absent)

lemma replace_secrets_removes: "plain_secret k \<Longrightarrow> k \<in> set ps \<Longrightarrow> \<not> sublist k (replace_secrets ps s)"
proof (induction ps arbitrary: s)
  case (Cons p ps)
  show ?case
  proof (cases "p = k")
    case True
    then show ?thesis using Cons.prems(1) plain_secret_facts(1) [OF Cons.prems(1)]
      by (simp add: replace_secrets_Cons replace_secrets_keeps replace_removes)
  next
    case False
    then show ?thesis using Cons by (simp add: replace_secrets_Cons)
  qed
qed simp

section \<open>Words\<close>

lemma words_of_sublist: "w \<in> set (words_of cs) \<Longrightarrow> sublist w (concat cs)"
proof (induction cs rule: words_of.induct)
  case (1 cs)
  let ?P = is_whitespace and ?r = "dropWhile is_whitespace cs"
  have cs: "concat cs = concat (takeWhile ?P cs) @ concat ?r"
    by (metis concat_append takeWhile_dropWhile_id)
  show ?case
  proof (cases ?r)
    case Nil
    from 1(2) have False unfolding words_of.simps [of cs] Nil by simp
    then show ?thesis ..
  next
    case (Cons c r)
    let ?Q = "\<lambda>x. \<not> is_whitespace x"
    have cr: "concat (c # r) = concat (takeWhile ?Q (c # r)) @ concat (dropWhile ?Q (c # r))"
      by (metis concat_append takeWhile_dropWhile_id)
    from 1(2) have "w = concat (takeWhile ?Q (c # r)) \<or> w \<in> set (words_of (dropWhile ?Q (c # r)))"
      unfolding words_of.simps [of cs] Cons by simp
    then show ?thesis
    proof
      assume "w = concat (takeWhile ?Q (c # r))"
      then show ?thesis unfolding cs Cons cr by simp
    next
      assume "w \<in> set (words_of (dropWhile ?Q (c # r)))"
      from 1(1) [OF Cons this] have "sublist w (concat (dropWhile ?Q (c # r)))" .
      then show ?thesis unfolding cs Cons cr by (auto simp: sublist_append)
    qed
  qed
qed

lemma split_whitespace_sublist: "w \<in> set (split_whitespace s) \<Longrightarrow> sublist w s"
  using words_of_sublist [of w "utf8_chars s"] by (simp add: split_whitespace_def)

lemma redact_words_sub: "w \<in> set (redact_words b ws) \<Longrightarrow> w = redacted \<or> w \<in> set ws"
  by (induction b ws rule: redact_words.induct) (auto split: if_splits)

text \<open>A text without the separator that occurs in joined words occurs in one of them.\<close>

lemma sublist_join:
  assumes "k \<noteq> []" "CHR '' '' \<notin> set k"
  shows "sublist k (join_with '' '' ws) \<Longrightarrow> \<exists>w \<in> set ws. sublist k w"
proof (induction "'' ''" ws rule: join_with.induct)
  case (3 w v ws)
  let ?r = "join_with '' '' (v # ws)"
  from 3(2) have "sublist k (w @ ('' '' @ ?r))" by simp
  then consider "sublist k w" | "sublist k ('' '' @ ?r)" | x y where "k = x @ y" "suffix x w" "prefix y ('' '' @ ?r)"
    unfolding sublist_append [of k w] by blast
  then show ?case
  proof cases
    case 2
    then have "sublist k ?r" using sublist_apart_left [of k "'' ''" ?r] assms by simp
    then show ?thesis using 3(1) by auto
  next
    case (3 x y)
    then have "y = []" using assms(2) by (cases y) auto
    with 3 show ?thesis by (auto simp: suffix_imp_sublist)
  qed simp
qed (use assms in auto)

lemma truncate_absent:
  assumes "plain_secret k" "\<not> sublist k s"
  shows "\<not> sublist k (truncate_chars s n)"
proof -
  note f = plain_secret_facts [OF assms(1)]
  have "concat (utf8_chars s) = concat (take n (utf8_chars s)) @ concat (drop n (utf8_chars s))"
    by (metis append_take_drop_id concat_append)
  then have "sublist (concat (take n (utf8_chars s))) s" by (metis concat_utf8_chars sublist_append_rightI)
  then have "\<not> sublist k (concat (take n (utf8_chars s)))" using assms(2) sublist_order.order.trans by blast
  then show ?thesis using sublist_apart_right [OF _ f(1,5)] by (auto simp: truncate_chars_def Let_def)
qed

lemma sanitize_text_absent:
  assumes "plain_secret k" "k \<in> set secrets"
  shows "\<not> sublist k (sanitize_text input secrets)"
proof -
  note f = plain_secret_facts [OF assms(1)]
  let ?t = "replace_secrets secrets input"
  have "\<not> sublist k w" if "w \<in> set (redact_words False (split_whitespace ?t))" for w
  proof
    assume k: "sublist k w"
    from redact_words_sub [OF that] show False
    proof
      assume "w = redacted"
      with k not_in_redacted [OF assms(1)] show False by simp
    next
      assume "w \<in> set (split_whitespace ?t)"
      then have "sublist k ?t" using split_whitespace_sublist k sublist_order.order.trans by blast
      then show False using replace_secrets_removes [OF assms] by blast
    qed
  qed
  then have "\<not> sublist k (join_with '' '' (redact_words False (split_whitespace ?t)))"
    using sublist_join [OF f(1,4)] by blast
  then show ?thesis unfolding sanitize_text_def by (rule truncate_absent [OF assms(1)])
qed

section \<open>Sanitized JSON\<close>

text \<open>The strings of a value, object keys aside.\<close>

fun strings_of :: "json \<Rightarrow> string list"
and strings_of_fields :: "(string \<times> json) list \<Rightarrow> string list"
and strings_of_items :: "json list \<Rightarrow> string list" where
  "strings_of (JString s) = [s]"
| "strings_of (JObject fs) = strings_of_fields fs"
| "strings_of (JArray vs) = strings_of_items vs"
| "strings_of JNull = []"
| "strings_of (JBool b) = []"
| "strings_of (JNumber n) = []"
| "strings_of_fields [] = []"
| "strings_of_fields ((k, v) # fs) = strings_of v @ strings_of_fields fs"
| "strings_of_items [] = []"
| "strings_of_items (v # vs) = strings_of v @ strings_of_items vs"

lemma sanitize_json_absent:
  assumes "plain_secret k" "k \<in> set secrets"
  shows "list_all (\<lambda>s. \<not> sublist k s) (strings_of (sanitize_json secrets v))"
    "list_all (\<lambda>s. \<not> sublist k s) (strings_of_fields (sanitize_fields secrets fs))"
    "list_all (\<lambda>s. \<not> sublist k s) (strings_of_items (sanitize_items secrets vs))"
  using assms(2)
  by (induction secrets v and secrets fs and secrets vs rule: sanitize_json_sanitize_fields_sanitize_items.induct)
    (auto simp: sanitize_text_absent [OF assms(1)] not_in_redacted [OF assms(1)])

lemma as_str_strings: "as_str v = Some s \<Longrightarrow> s \<in> set (strings_of v)"
  by (cases v) (auto simp: as_str_def)

lemma field_strings: "map_of fs k = Some v \<Longrightarrow> set (strings_of v) \<subseteq> set (strings_of_fields fs)"
  by (induction fs) (auto split: if_splits)

lemma jget_strings: "jget k v = Some w \<Longrightarrow> set (strings_of w) \<subseteq> set (strings_of v)"
  by (cases v) (auto simp: jget_def dest: field_strings)

lemma get_str_strings: "and_then (jget k v) as_str = Some s \<Longrightarrow> s \<in> set (strings_of v)"
  using as_str_strings jget_strings by (fastforce simp: and_then_eq_Some)

lemma error_str_strings:
  assumes "and_then (jget ''error'' v) (\<lambda>error. case and_then (jget ''message'' error) as_str of Some s \<Rightarrow> Some s
      | None \<Rightarrow> as_str error) = Some s"
  shows "s \<in> set (strings_of v)"
proof -
  from assms obtain e where e: "jget ''error'' v = Some e"
    and "(case and_then (jget ''message'' e) as_str of Some s \<Rightarrow> Some s | None \<Rightarrow> as_str e) = Some s"
    by (auto simp: and_then_eq_Some)
  then have "s \<in> set (strings_of e)" using get_str_strings as_str_strings by (auto split: option.splits)
  then show ?thesis using jget_strings [OF e] by blast
qed

lemma sanitized_message_source:
  "\<exists>s. sanitized_message v fallback = truncate_public s 512 \<and> (s \<in> set (strings_of v) \<or> s = fallback)"
proof -
  let ?m = "case and_then (jget ''error'' v) (\<lambda>error. case and_then (jget ''message'' error) as_str of Some s \<Rightarrow> Some s | None \<Rightarrow> as_str error) of
        Some s \<Rightarrow> s | None \<Rightarrow> (case and_then (jget ''message'' v) as_str of Some s \<Rightarrow> s | None \<Rightarrow> fallback)"
  have "?m \<in> set (strings_of v) \<or> ?m = fallback"
    using error_str_strings [of v] get_str_strings [of "''message''" v] by (auto split: option.splits)
  then show ?thesis unfolding sanitized_message_def by blast
qed

section \<open>The property\<close>

text \<open>A colon is trimmed before a word is compared, so the rules for header names with one never
  apply: a credential that is not configured is kept.\<close>

lemma header_value_kept: "sanitize_text ''x-api-key: hunter2'' [] = ''x-api-key: hunter2''"
  by code_simp



end
