(* ===== verification/Startup.thy ===== *)
theory Startup
  imports System
begin

text \<open>
  The start and the end of the process: \<open>Config::load\<close> and \<open>default_config_path\<close> of
  \<open>src/config.rs\<close>, \<open>main\<close> and \<open>init_tracing\<close> of \<open>src/main.rs\<close>, \<open>serve\<close> and \<open>shutdown_signal\<close> of
  \<open>src/server.rs\<close>.  The file system, the environment, the derived deserializer, the command line, the
  signals and the HTTP server are parameters.
\<close>

section \<open>The configuration file\<close>

definition default_config_path :: "(string \<Rightarrow> string option) \<Rightarrow> string" where
  "default_config_path var = (case var ''SENSENOVA_PROXY_CONFIG'' of
      Some v \<Rightarrow> if v \<noteq> [] then v else ''config.json''
    | None \<Rightarrow> ''config.json'')"

datatype load_error = Unreadable string | Unparsable string | Invalid config_error

definition load :: "parsers \<Rightarrow> (string \<Rightarrow> string option) \<Rightarrow> (string \<Rightarrow> config option) \<Rightarrow> string \<Rightarrow> load_error + config" where
  "load ps read parse path = (case read path of
      None \<Rightarrow> Inl (Unreadable path)
    | Some bytes \<Rightarrow> (case parse bytes of
        None \<Rightarrow> Inl (Unparsable path)
      | Some c \<Rightarrow> (case validate ps c of Some e \<Rightarrow> Inl (Invalid e) | None \<Rightarrow> Inr c)))"

section \<open>The entry point\<close>

text \<open>\<open>init_tracing\<close>: the filter of the environment when it is there and valid, the configured one else.\<close>

definition tracing_filter :: "parsers \<Rightarrow> (string \<Rightarrow> string option) \<Rightarrow> config \<Rightarrow> string" where
  "tracing_filter ps var c = (case var ''RUST_LOG'' of
      Some f \<Rightarrow> if env_filter_ok ps f then f else log_level (runtime c)
    | None \<Rightarrow> log_level (runtime c))"

text \<open>What is logged of a configuration that was loaded.\<close>

record startup_info =
  si_path :: string
  si_bind :: string
  si_upstream :: string
  si_messages_path :: string
  si_default_model :: string
  si_enabled_keys :: nat
  si_profiles :: string
  si_routed_models :: nat
  si_max_route_attempts :: nat
  si_concurrency_limit :: nat
  si_queue_capacity :: nat

fun join_with :: "string \<Rightarrow> string list \<Rightarrow> string" where
  "join_with sep [] = []"
| "join_with sep [s] = s"
| "join_with sep (s # t # ss) = s @ sep @ join_with sep (t # ss)"

definition startup_info_of :: "string \<Rightarrow> config \<Rightarrow> startup_info" where
  "startup_info_of path c =
     (let profiles = profiles_of c
      in \<lparr>si_path = path, si_bind = server_bind (server c), si_upstream = base_url (upstream c),
          si_messages_path = messages_path (upstream c), si_default_model = models_default (models c),
          si_enabled_keys = length (filter key_enabled (sensenova_api_keys c)),
          si_profiles = join_with '','' (map fst profiles),
          si_routed_models = length (remdups (concat (map (\<lambda>p. concat (map tier_models (tiers (snd p)))) profiles))),
          si_max_route_attempts = cfg_max_route_attempts (routing c),
          si_concurrency_limit = conc_initial (concurrency c),
          si_queue_capacity = conc_queue_capacity (concurrency c)\<rparr>)"

datatype main_error = LoadFailed load_error | StateFailed

text \<open>\<open>main\<close> up to the call of \<open>serve\<close>: the application and what was logged.\<close>

definition main :: "parsers \<Rightarrow> (string \<Rightarrow> string option) \<Rightarrow> (string \<Rightarrow> string option) \<Rightarrow> (string \<Rightarrow> config option)
    \<Rightarrow> (config \<Rightarrow> 's app_state option) \<Rightarrow> string option \<Rightarrow> main_error + startup_info \<times> string \<times> 's app_state" where
  "main ps var read parse build cli =
     (let path = (case cli of Some p \<Rightarrow> p | None \<Rightarrow> default_config_path var)
      in (case load ps read parse path of
          Inl e \<Rightarrow> Inl (LoadFailed e)
        | Inr c \<Rightarrow> (case build c of
            None \<Rightarrow> Inl StateFailed
          | Some app \<Rightarrow> Inr (startup_info_of path c, tracing_filter ps var c, app))))"

section \<open>The life of the server\<close>

text \<open>How the task of the HTTP server ends: it panicked or was aborted, serving failed, it returned.\<close>

datatype task_end = TaskLost | ServingFailed | TaskDone

text \<open>The handlers of the two signals: not installed, waiting for an interrupt failed, a signal came.\<close>

datatype signal_end = TermNotInstalled | InterruptFailed | Interrupted | Terminated

datatype serve_error = BindFailed | TaskFailed | ServeFailed | TaskFailedDraining | ServeFailedDraining | SignalFailed signal_end

definition shutdown_signal :: "signal_end \<Rightarrow> serve_error + unit" where
  "shutdown_signal s = (case s of
      TermNotInstalled \<Rightarrow> Inl (SignalFailed TermNotInstalled)
    | InterruptFailed \<Rightarrow> Inl (SignalFailed InterruptFailed)
    | Interrupted \<Rightarrow> Inr ()
    | Terminated \<Rightarrow> Inr ())"

text \<open>Which branch of the \<open>select!\<close> is taken; after a signal, how the task ends before the timeout, if it does.\<close>

datatype serve_race = TaskFirst task_end | SignalFirst signal_end "task_end option"

text \<open>The result of \<open>serve\<close>, and whether the connections that were left were aborted.\<close>

definition serve :: "bool \<Rightarrow> serve_race \<Rightarrow> (serve_error + unit) \<times> bool" where
  "serve bound race =
     (if \<not> bound then (Inl BindFailed, False)
      else (case race of
          TaskFirst t \<Rightarrow> ((case t of TaskLost \<Rightarrow> Inl TaskFailed | ServingFailed \<Rightarrow> Inl ServeFailed | TaskDone \<Rightarrow> Inr ()), False)
        | SignalFirst s drained \<Rightarrow> (case drained of
            Some t \<Rightarrow> ((case t of TaskLost \<Rightarrow> Inl TaskFailedDraining | ServingFailed \<Rightarrow> Inl ServeFailedDraining
                          | TaskDone \<Rightarrow> shutdown_signal s), False)
          | None \<Rightarrow> (shutdown_signal s, True))))"

section \<open>What a start guarantees\<close>

text \<open>A configuration that was loaded is valid, so the second validation, in \<open>AppState::new\<close>, passes.\<close>

lemma load_valid: "load ps read parse path = Inr c \<Longrightarrow> validate ps c = None"
  by (auto simp: load_def split: option.splits)

lemma main_builds:
  assumes "main ps var read parse (new_app ps client_ok sm ua h x now) cli = Inr (info, filt, app)"
  shows "\<exists>path c. load ps read parse path = Inr c \<and> new_app ps client_ok sm ua h x now c = Some app"
  using assms by (auto simp: main_def Let_def split: sum.splits option.splits)

lemma main_state_failure:
  assumes "main ps var read parse (new_app ps client_ok sm ua h x now) cli = Inl StateFailed"
  shows "\<not> client_ok"
  using assms load_valid by (fastforce simp: main_def new_app_def Let_def split: sum.splits option.splits if_splits)

text \<open>A valid configuration has a valid log filter, so the filter that is used is one.\<close>

lemma tracing_filter_ok: "validate ps c = None \<Longrightarrow> env_filter_ok ps (tracing_filter ps var c)"
  by (auto simp: tracing_filter_def validate_def orelse_def split: option.splits if_splits)

lemma shutdown_forced: "snd (serve bound race) \<longleftrightarrow> bound \<and> (\<exists>s. race = SignalFirst s None)"
  by (auto simp: serve_def split: serve_race.splits option.splits)

text \<open>A signal whose handler works ends the process well, unless the task fails while it drains.\<close>

lemma shutdown_clean:
  "fst (serve True (SignalFirst s drained)) = Inr () \<longleftrightarrow> s \<in> {Interrupted, Terminated} \<and> drained \<in> {None, Some TaskDone}"
  by (cases s; cases drained) (auto simp: serve_def shutdown_signal_def split: task_end.splits)

end
