(* ===== verification/Spec2Isabelle.thy ===== *)
theory Spec2Isabelle
  imports ClassifyFacts SystemProbe SystemWork CountFacts TokenFacts FailoverFacts AnswerFacts RedactFacts ConfigFacts Startup
begin

text \<open>
  A verification development for sensenova-proxy (Rust, \<open>src/src/*.rs\<close>): a gateway that accepts
  Anthropic Messages requests, routes each over models, quota groups and credentials with failover,
  and passes the upstream's answer through.

  \<^bold>\<open>How the program works.\<close>  A request passes the gates of \<open>server.rs\<close> (identifier, gateway key),
  is parsed and normalized (\<open>models.rs\<close>), is admitted by a semaphore with a bounded queue
  (\<open>concurrency.rs\<close>) and enters the loop of \<open>upstream.rs\<close>: the router (\<open>router.rs\<close>) plans a target over
  the tiers of the requested profile, the global breaker (\<open>circuit.rs\<close>) admits the dial, and the
  answer is either committed to the client or classified (\<open>rate_limit.rs\<close>), written into the health
  state of the router and followed by another attempt.  A committed stream is pumped verbatim while a
  decoder (\<open>sse.rs\<close>) watches it.  Messages to the client are redacted (\<open>redaction.rs\<close>).

  \<^bold>\<open>Theories and sources.\<close>
  \<^item> Prelude, Float64, Utf8, Json: time in nanoseconds, saturating integers, FNV-1a, association
    lists, the \<open>f64\<close> arithmetic of the averages (exact values rounded to 53 bits), UTF-8 and
    \<open>serde_json\<close> values.  Prelude has the locale \<open>preserved\<close> of invariants of transition systems.
  \<^item> Config (\<open>config.rs\<close>): data, defaults, \<open>validate\<close>.  Metrics (\<open>metrics.rs\<close>): counters, gauges, page.
  \<^item> RouterState, RouterPlan, RouterHealth, RouterInspect (\<open>router.rs\<close>): the tables and their lazy
    reads; candidates, score, order, \<open>plan\<close>; the \<open>note_*\<close> operations, model circuits, affinity, attempts
    and guards; the counts and snapshots.
  \<^item> RateLimit (\<open>rate_limit.rs\<close>), Redaction (\<open>redaction.rs\<close>), Circuit (\<open>circuit.rs\<close>).
  \<^item> Upstream (\<open>upstream.rs\<close>, with the envelopes of \<open>error.rs\<close>): one attempt and the loop
    \<open>send_messages\<close>.
  \<^item> Sse (\<open>sse.rs\<close>); Stream (\<open>StreamPump\<close>, \<open>stream_body\<close> and \<open>RequestScope\<close> of \<open>server.rs\<close>).
  \<^item> Auth (\<open>auth.rs\<close>), Concurrency (\<open>concurrency.rs\<close>), Pool (\<open>pool.rs\<close>), Models (\<open>models.rs\<close>).
  \<^item> Server (the rest of \<open>server.rs\<close>): \<open>AppState\<close>, the handlers, the gates, \<open>handle_request\<close>.
    Cancel: a request whose client disconnects while its handler waits.
  \<^item> System: all requests of a running server at once, each a thread that steps from await to await.
  \<^item> Startup (\<open>main.rs\<close>, \<open>Config::load\<close>, \<open>serve\<close>, \<open>shutdown_signal\<close>): from the command line and the
    configuration file to a listening server, and how it stops.

  \<^bold>\<open>State and concurrency.\<close>  The router's mutexes become one record \<open>route_table\<close>, passed and returned;
  with the breaker and the metrics it is the record \<open>shared\<close>.  Two views of a request are connected:
  \<^item> as a function (\<open>send_messages\<close>, \<open>anthropic_messages\<close>), where what other requests do is a function of
    the request's environment (\<open>env\<close>), applied before each attempt and during each exchange.
    Properties in this view assume that these functions are sequences of router steps (\<open>env_ok\<close>),
    leave the breaker alone (\<open>breaker_alone\<close>) or are balanced (\<open>others_balanced\<close>), where they need it;
  \<^item> as a thread of the relation \<open>sys_step\<close>, which interleaves any number of requests, their admission
    and their disconnections on one \<open>shared\<close>, with no assumption about each other.  One step is what
    a request does between two awaits; \<open>request_is_run\<close> shows that the function is a run of the relation.
  Admission is a step relation on the atomic operations of \<open>acquire\<close>.  Clock readings, jitter, the
  upstream's answers and the client's departure are inputs.

  \<^bold>\<open>What is shown.\<close>
  \<^item> RouterObserve, RouterSpec: every read of the router is a pure function of the settled table
    (locales \<open>lazy_read\<close>, \<open>two_reads\<close>) and \<open>plan\<close> refines a pure specification \<open>choose_spec\<close>;
    PlanFacts draws from it: tier absoluteness, health and quality of the target, the selected
    minimum, waits, the absence of panics.
  \<^item> RouterSteps, HealthFacts: the operations as the step relation \<open>table_step\<close>, its invariants, the
    evidence of a model circuit as history, isolation of a 429, quota groups, rejected credentials,
    recovery, probes and in-flight counts.
  \<^item> SendCalls, SendFacts: what the outcome handlers call and count (locales \<open>table_calls\<close>,
    \<open>outcome_counts\<close>, \<open>metric_calls\<close>); the loop refines router steps; budget, quality, wire contents, commit, no repeats.  FailoverFacts: how long it sleeps.
  \<^item> CircuitFacts, CancelFacts: when the breaker trips, and what frees or leaks its probe slot.
  \<^item> ClassifyFacts: evidence of quota exhaustion, bounds and the round trip of retry hints.
  \<^item> RedactFacts: configured secrets do not occur in what an error shows.
  \<^item> SseFacts: the decoder is a byte-by-byte reference, whatever the chunks; printing and decoding.
  \<^item> StreamFacts: verbatim passthrough, nothing after an error frame, exactly one ending.
  \<^item> ModelsFacts, ConfigFacts, Auth, Concurrency, Pool: normalization, validation, the key
    comparison, bounded concurrency, agreement of the pool with the router.
  \<^item> ServerFacts: the composed request: refusal without effect, the balance of the active gauge on
    every ending, readiness.  AnswerFacts: the identifier of a request, and when an error is a 429.
  \<^item> SystemFacts: in every interleaving the gauges and the in-flight counters are exact, the
    request counters balance and the table is a reachable one.  SystemRuns: a request is a run, and every state can come to rest.
    SystemBreaker: a server whose half-open slot was lost never dials again.  SystemProbe: the slots of the
    router's model circuits are never lost, but a guard can outlive its half-open period.  SystemWork: a
    measure of the work that is left bounds the steps of all requests by the number of arrivals.
    CountFacts: what the counters of failovers, tier steps and exclusions really count.
  \<^item> TokenFacts: the token estimate against the compact text of the prompt.
  \<^item> Startup: every refusal of a start, and what a started server is built from.
  \<^item> Lemmas named in the findings record where the code departs from what it says:
    \<open>gap_wrong_credential\<close>, \<open>skipped_credential_redialed\<close>, \<open>again_within_budget\<close>, \<open>two_probes\<close>,
    \<open>rate_limited_probe_blocks\<close>, \<open>failover_sleeps_without_route\<close>, \<open>failover_sleep_unbounded\<close>,
    \<open>invalid_request_fails_over\<close>, \<open>dropped_probe_closes\<close>, \<open>header_value_kept\<close>, \<open>empty_data_unbounded\<close>,
    \<open>push_after_overflow\<close>, \<open>queue_capacity_exceeded\<close>, \<open>profile_thinking_kept\<close>,
    \<open>profile_estimate_fails\<close>, \<open>retry_after_early\<close>, \<open>snapshot_stale\<close>, \<open>stale_guard_closes\<close>,
    \<open>estimate_too_low\<close>, \<open>model_failover_uncounted\<close>, \<open>step_down_counted_twice\<close>, \<open>plan_counts\<close>.

  \<^bold>\<open>Bounds and termination.\<close>  No fuel is used.  The loop of \<open>send_messages\<close> ends because an attempt
  uses up a budget, the decoder's because a line shortens the buffer, the pump's because it consumes
  its inputs.  Counters are \<open>64 word\<close>; saturating and checked arithmetic is written out.

  \<^bold>\<open>Parameters.\<close>  The JSON parser and printer, the HTTP-date, URL, socket-address and filter parsers,
  the test for header values, tokio's semaphore (\<open>semaphore_ok\<close>), the HTTP client, the file system,
  the environment variables, the derived deserializer of \<open>Config\<close>, the signals and the HTTP server.

  \<^bold>\<open>Not modelled.\<close>  \<open>response_log_middleware\<close> and the other log lines (except where an argument of one
  changes the state); the code serde derives; the wording of the JSON crate's errors; poisoned
  mutexes; what the worker threads interleave inside one stretch between two awaits, except where a
  lemma splits it (\<open>two_probes\<close>, \<open>queue_capacity_exceeded\<close>).

  \<^bold>\<open>Left open.\<close>  The stretches of \<open>sys_step\<close> at the grain of single lock acquisitions (the lemmas named
  above are the interleavings inside a stretch that change an outcome); a bound on waiting in real time,
  which needs fairness of the runtime and of tokio's semaphore.
\<close>

end
